(* ===== verification/Prelude.thy ===== *)
theory Prelude
  imports "HOL-Library.State_Monad" "HOL-Library.Finite_Map"
begin

text \<open>
  Shared vocabulary of the development.

  \<^item> Go functions that talk to the API server are state transformers of the library's
    state monad. A function that returns \<^verbatim>\<open>(T, error)\<close> is a transformer whose result is a sum:
    \<open>Inl\<close> carries the error, \<open>Inr\<close> the value. \<open>bindE\<close> is the
    \<^verbatim>\<open>if err != nil { return err }\<close> idiom.
  \<^item> Go maps from strings to strings may be nil: \<open>gomap\<close>. Reading a nil map gives the zero
    value, writing one panics.
  \<^item> Three program logics carry the component proofs. \<open>wpv\<close> is a weakest precondition over a view
    of the state; \<open>emits\<close> bounds the calls a transformer appends to a recorded trace; \<open>wpt\<close>
    relates the calls made to the view.
\<close>

named_theorems wpv_rules \<open>introduction rules of the weakest precondition over views\<close>
named_theorems emits_rules \<open>introduction rules of the trace logic\<close>

section \<open>Errors in the state monad\<close>

definition returnE :: "'a \<Rightarrow> ('s, 'e + 'a) state" where
  "returnE x = State_Monad.return (Inr x)"

definition throwE :: "'e \<Rightarrow> ('s, 'e + 'a) state" where
  "throwE e = State_Monad.return (Inl e)"

definition bindE :: "('s, 'e + 'a) state \<Rightarrow> ('a \<Rightarrow> ('s, 'e + 'b) state) \<Rightarrow> ('s, 'e + 'b) state" where
  "bindE m f = do { r \<leftarrow> m; (case r of Inl e \<Rightarrow> throwE e | Inr x \<Rightarrow> f x) }"

definition liftE :: "'e + 'a \<Rightarrow> ('s, 'e + 'a) state" where
  "liftE r = State_Monad.return r"

lemma run_state_returnE [simp]: "run_state (returnE x) s = (Inr x, s)"
  by (simp add: returnE_def)

lemma run_state_throwE [simp]: "run_state (throwE e) s = (Inl e, s)"
  by (simp add: throwE_def)

lemma run_state_liftE [simp]: "run_state (liftE r) s = (r, s)"
  by (simp add: liftE_def)

lemma run_state_bindE [simp]:
  "run_state (bindE m f) s =
     (case run_state m s of (r, s') \<Rightarrow>
        (case r of Inl e \<Rightarrow> (Inl e, s') | Inr x \<Rightarrow> run_state (f x) s'))"
  by (auto simp: bindE_def split: prod.splits sum.splits)

lemma bindE_returnE [simp]: "bindE (returnE x) f = f x"
  by (rule state_ext) simp

lemma bindE_returnE_right [simp]: "bindE m returnE = m"
  by (rule state_ext) (auto split: prod.splits sum.splits)

lemma bindE_throwE [simp]: "bindE (throwE e) f = throwE e"
  by (rule state_ext) simp

lemma bindE_liftE [simp]: "bindE (liftE r) f = (case r of Inl e \<Rightarrow> throwE e | Inr x \<Rightarrow> f x)"
  by (rule state_ext) (simp split: sum.split)

lemma bindE_assoc: "bindE (bindE m f) g = bindE m (\<lambda>x. bindE (f x) g)"
  by (rule state_ext) (auto split: prod.splits sum.splits)

section \<open>Weakest preconditions over a view of the state\<close>

text \<open>
  \<open>wpv view m Q v\<close>: from every state whose view is \<open>v\<close>, running \<open>m\<close> gives a result and a
  state whose view satisfy \<open>Q\<close>. A transformer always returns, so this is total correctness.
\<close>

definition wpv :: "('s \<Rightarrow> 'v) \<Rightarrow> ('s, 'a) state \<Rightarrow> ('a \<Rightarrow> 'v \<Rightarrow> bool) \<Rightarrow> 'v \<Rightarrow> bool" where
  "wpv view m Q v \<longleftrightarrow>
     (\<forall>s. view s = v \<longrightarrow> (case run_state m s of (r, s') \<Rightarrow> Q r (view s')))"

lemma wpvD: "wpv view m Q v \<Longrightarrow> view s = v \<Longrightarrow> run_state m s = (r, s') \<Longrightarrow> Q r (view s')"
  by (auto simp: wpv_def)

lemma wpvI:
  "(\<And>s r s'. view s = v \<Longrightarrow> run_state m s = (r, s') \<Longrightarrow> Q r (view s')) \<Longrightarrow> wpv view m Q v"
  by (auto simp: wpv_def)

lemma wpv_mono: "wpv view m Q v \<Longrightarrow> (\<And>r w. Q r w \<Longrightarrow> Q' r w) \<Longrightarrow> wpv view m Q' v"
  by (fastforce simp: wpv_def split: prod.splits)

lemma wpv_conj: "wpv view m Q v \<Longrightarrow> wpv view m Q' v \<Longrightarrow> wpv view m (\<lambda>r w. Q r w \<and> Q' r w) v"
  by (fastforce simp: wpv_def split: prod.splits)

lemma wpv_returns: "wpv view m (\<lambda>r w. \<exists>x. r = Inr x) (view s) \<Longrightarrow> \<exists>x s'. run_state m s = (Inr x, s')"
  by (cases "run_state m s") (auto dest: wpvD [OF _ refl])

lemma wpv_return [wpv_rules]: "Q x v \<Longrightarrow> wpv view (State_Monad.return x) Q v"
  by (simp add: wpv_def)

lemma wpv_returnE [wpv_rules]: "Q (Inr x) v \<Longrightarrow> wpv view (returnE x) Q v"
  by (simp add: wpv_def)

lemma wpv_throwE [wpv_rules]: "Q (Inl e) v \<Longrightarrow> wpv view (throwE e) Q v"
  by (simp add: wpv_def)

lemma wpv_liftE [wpv_rules]: "Q r v \<Longrightarrow> wpv view (liftE r) Q v"
  by (simp add: wpv_def)

lemma wpv_bind [wpv_rules]:
  "wpv view m (\<lambda>r w. wpv view (f r) Q w) v \<Longrightarrow> wpv view (State_Monad.bind m f) Q v"
  by (fastforce simp: wpv_def split: prod.splits)

lemma wpv_bindE [wpv_rules]:
  "wpv view m (\<lambda>r w. case r of Inl e \<Rightarrow> Q (Inl e) w | Inr x \<Rightarrow> wpv view (f x) Q w) v
    \<Longrightarrow> wpv view (bindE m f) Q v"
  by (fastforce simp: wpv_def split: prod.splits sum.splits)

lemma wpv_if [wpv_rules]:
  "(b \<Longrightarrow> wpv view m Q v) \<Longrightarrow> (\<not> b \<Longrightarrow> wpv view n Q v) \<Longrightarrow> wpv view (if b then m else n) Q v"
  by simp

lemma wpv_case_sum [wpv_rules]:
  "(\<And>e. r = Inl e \<Longrightarrow> wpv view (f e) Q v) \<Longrightarrow> (\<And>x. r = Inr x \<Longrightarrow> wpv view (g x) Q v)
    \<Longrightarrow> wpv view (case r of Inl e \<Rightarrow> f e | Inr x \<Rightarrow> g x) Q v"
  by (cases r) auto

lemma wpv_case_option [wpv_rules]:
  "(r = None \<Longrightarrow> wpv view m Q v) \<Longrightarrow> (\<And>x. r = Some x \<Longrightarrow> wpv view (g x) Q v)
    \<Longrightarrow> wpv view (case r of None \<Rightarrow> m | Some x \<Rightarrow> g x) Q v"
  by (cases r) auto

lemma wpv_let [wpv_rules]: "wpv view (f x) Q v \<Longrightarrow> wpv view (let y = x in f y) Q v"
  by simp

section \<open>Bounding the calls of a transformer\<close>

text \<open>
  The state is paired with the list of calls made so far. \<open>emits A m P\<close>: \<open>m\<close> only appends
  calls satisfying \<open>A\<close>, and its result satisfies \<open>P\<close>.
\<close>

definition emits :: "('c \<Rightarrow> bool) \<Rightarrow> ('s \<times> 'c list, 'a) state \<Rightarrow> ('a \<Rightarrow> bool) \<Rightarrow> bool" where
  "emits A m P \<longleftrightarrow>
     (\<forall>s tr. case run_state m (s, tr) of (r, s', tr') \<Rightarrow>
        (\<exists>cs. tr' = tr @ cs \<and> list_all A cs) \<and> P r)"

lemma emitsD:
  assumes "emits A m P" and "run_state m (s, tr) = (r, s', tr')"
  obtains cs where "tr' = tr @ cs" "list_all A cs" "P r"
proof -
  have "case run_state m (s, tr) of (r, s', tr') \<Rightarrow>
      (\<exists>cs. tr' = tr @ cs \<and> list_all A cs) \<and> P r"
    using assms(1) by (simp add: emits_def)
  then show ?thesis using assms(2) that by auto
qed

lemma emitsI:
  assumes "\<And>s tr r s' tr'. run_state m (s, tr) = (r, s', tr') \<Longrightarrow>
             (\<exists>cs. tr' = tr @ cs \<and> list_all A cs) \<and> P r"
  shows "emits A m P"
  unfolding emits_def
proof (intro allI)
  fix s tr
  obtain r s' tr' where "run_state m (s, tr) = (r, s', tr')"
    by (cases "run_state m (s, tr)") auto
  with assms [OF this]
  show "case run_state m (s, tr) of (r, s', tr') \<Rightarrow> (\<exists>cs. tr' = tr @ cs \<and> list_all A cs) \<and> P r"
    by simp
qed

lemma emits_mono:
  "emits A m P \<Longrightarrow> (\<And>c. A c \<Longrightarrow> B c) \<Longrightarrow> (\<And>r. P r \<Longrightarrow> P' r) \<Longrightarrow> emits B m P'"
  by (rule emitsI) (auto elim!: emitsD simp: list_all_iff)

lemma emits_return [emits_rules]: "P x \<Longrightarrow> emits A (State_Monad.return x) P"
  by (rule emitsI) auto

lemma emits_returnE [emits_rules]: "P (Inr x) \<Longrightarrow> emits A (returnE x) P"
  by (rule emitsI) auto

lemma emits_throwE [emits_rules]: "P (Inl e) \<Longrightarrow> emits A (throwE e) P"
  by (rule emitsI) auto

lemma emits_liftE [emits_rules]: "P r \<Longrightarrow> emits A (liftE r) P"
  by (rule emitsI) auto

lemma emits_bind:
  assumes m: "emits A m R" and f: "\<And>r. R r \<Longrightarrow> emits A (f r) P"
  shows "emits A (State_Monad.bind m f) P"
proof (rule emitsI)
  fix s tr r s' tr'
  assume run: "run_state (State_Monad.bind m f) (s, tr) = (r, s', tr')"
  obtain r1 s1 tr1 where m1: "run_state m (s, tr) = (r1, s1, tr1)"
    by (cases "run_state m (s, tr)") auto
  from run m1 have f1: "run_state (f r1) (s1, tr1) = (r, s', tr')" by simp
  from m m1 obtain cs where cs: "tr1 = tr @ cs" "list_all A cs" "R r1" by (rule emitsD)
  from f [OF cs(3)] f1 obtain ds where "tr' = tr1 @ ds" "list_all A ds" "P r" by (rule emitsD)
  with cs show "(\<exists>cs. tr' = tr @ cs \<and> list_all A cs) \<and> P r" by auto
qed

lemma emits_bindE:
  assumes m: "emits A m R" and e: "\<And>e. R (Inl e) \<Longrightarrow> P (Inl e)"
    and f: "\<And>x. R (Inr x) \<Longrightarrow> emits A (f x) P"
  shows "emits A (bindE m f) P"
  unfolding bindE_def
  by (rule emits_bind [OF m]) (auto split: sum.splits intro: e f emits_throwE)

lemma emits_if [emits_rules]:
  "(b \<Longrightarrow> emits A m P) \<Longrightarrow> (\<not> b \<Longrightarrow> emits A n P) \<Longrightarrow> emits A (if b then m else n) P"
  by simp

lemma emits_case_sum [emits_rules]:
  "(\<And>e. r = Inl e \<Longrightarrow> emits A (f e) P) \<Longrightarrow> (\<And>x. r = Inr x \<Longrightarrow> emits A (g x) P)
    \<Longrightarrow> emits A (case r of Inl e \<Rightarrow> f e | Inr x \<Rightarrow> g x) P"
  by (cases r) auto

lemma emits_case_option [emits_rules]:
  "(r = None \<Longrightarrow> emits A m P) \<Longrightarrow> (\<And>x. r = Some x \<Longrightarrow> emits A (g x) P)
    \<Longrightarrow> emits A (case r of None \<Rightarrow> m | Some x \<Rightarrow> g x) P"
  by (cases r) auto

lemma emits_let [emits_rules]: "emits A (f x) P \<Longrightarrow> emits A (let y = x in f y) P"
  by simp

section \<open>Weakest preconditions with the calls made\<close>

text \<open>
  \<open>wpt view m Q v\<close> combines the two: from a state whose view is \<open>v\<close>, \<open>m\<close> appends some calls and
  the result, the new view and those calls satisfy \<open>Q\<close>.
\<close>

definition wpt :: "('s \<Rightarrow> 'v) \<Rightarrow> ('s \<times> 'c list, 'a) state \<Rightarrow> ('a \<Rightarrow> 'v \<Rightarrow> 'c list \<Rightarrow> bool) \<Rightarrow> 'v \<Rightarrow> bool" where
  "wpt view m Q v \<longleftrightarrow>
     (\<forall>s tr. view s = v \<longrightarrow>
        (case run_state m (s, tr) of (r, s', tr') \<Rightarrow> \<exists>cs. tr' = tr @ cs \<and> Q r (view s') cs))"

lemma wptD:
  assumes "wpt view m Q v" "view s = v" "run_state m (s, tr) = (r, s', tr')"
  shows "\<exists>cs. tr' = tr @ cs \<and> Q r (view s') cs"
proof -
  have "case run_state m (s, tr) of (r, s', tr') \<Rightarrow> \<exists>cs. tr' = tr @ cs \<and> Q r (view s') cs"
    using assms(1,2) by (simp add: wpt_def)
  then show ?thesis using assms(3) by simp
qed

lemma wptI:
  assumes "\<And>s tr r s' tr'. view s = v \<Longrightarrow> run_state m (s, tr) = (r, s', tr') \<Longrightarrow>
             \<exists>cs. tr' = tr @ cs \<and> Q r (view s') cs"
  shows "wpt view m Q v"
  unfolding wpt_def
proof (intro allI impI)
  fix s tr
  assume "view s = v"
  moreover obtain r s' tr' where run: "run_state m (s, tr) = (r, s', tr')"
    by (cases "run_state m (s, tr)") auto
  ultimately show "case run_state m (s, tr) of (r, s', tr') \<Rightarrow> \<exists>cs. tr' = tr @ cs \<and> Q r (view s') cs"
    using assms by simp
qed

lemma wpt_mono:
  assumes "wpt view m Q v" "\<And>r w cs. Q r w cs \<Longrightarrow> Q' r w cs"
  shows "wpt view m Q' v"
  by (rule wptI) (use assms wptD [OF assms(1)] in blast)

lemma wpt_return: "Q x v [] \<Longrightarrow> wpt view (State_Monad.return x) Q v"
  by (rule wptI) auto

lemma wpt_returnE: "Q (Inr x) v [] \<Longrightarrow> wpt view (returnE x) Q v"
  by (rule wptI) auto

lemma wpt_throwE: "Q (Inl e) v [] \<Longrightarrow> wpt view (throwE e) Q v"
  by (rule wptI) auto

lemma wpt_liftE: "Q r v [] \<Longrightarrow> wpt view (liftE r) Q v"
  by (rule wptI) auto

lemma wpt_bind:
  assumes "wpt view m (\<lambda>r w cs. wpt view (f r) (\<lambda>r' w' ds. Q r' w' (cs @ ds)) w) v"
  shows "wpt view (State_Monad.bind m f) Q v"
proof (rule wptI)
  fix s tr r s' tr'
  assume v: "view s = v" and run: "run_state (State_Monad.bind m f) (s, tr) = (r, s', tr')"
  obtain r1 s1 tr1 where m1: "run_state m (s, tr) = (r1, s1, tr1)"
    by (cases "run_state m (s, tr)") auto
  with run have f1: "run_state (f r1) (s1, tr1) = (r, s', tr')" by simp
  from wptD [OF assms v m1] obtain cs where "tr1 = tr @ cs"
    and "wpt view (f r1) (\<lambda>r' w' ds. Q r' w' (cs @ ds)) (view s1)" by blast
  with wptD [OF this(2) refl f1] show "\<exists>cs. tr' = tr @ cs \<and> Q r (view s') cs" by auto
qed

lemma wpt_bindE:
  assumes "wpt view m (\<lambda>r w cs. case r of Inl e \<Rightarrow> Q (Inl e) w cs
             | Inr x \<Rightarrow> wpt view (f x) (\<lambda>r' w' ds. Q r' w' (cs @ ds)) w) v"
  shows "wpt view (bindE m f) Q v"
  unfolding bindE_def
  by (rule wpt_bind, rule wpt_mono [OF assms]) (auto split: sum.splits intro: wpt_throwE)

section \<open>Go maps from strings to strings\<close>

type_synonym strmap = "(string, string) fmap"
type_synonym gomap = "strmap option"

definition entries :: "gomap \<Rightarrow> strmap" where
  "entries m = (case m of None \<Rightarrow> fmempty | Some f \<Rightarrow> f)"

text \<open>\<^verbatim>\<open>m[k]\<close>: the zero value when the key is absent or the map is nil.\<close>

definition goget :: "gomap \<Rightarrow> string \<Rightarrow> string" where
  "goget m k = (case fmlookup (entries m) k of None \<Rightarrow> [] | Some v \<Rightarrow> v)"

text \<open>\<^verbatim>\<open>m[k] = v\<close>: None is the run-time panic of a write to a nil map.\<close>

definition goset :: "gomap \<Rightarrow> string \<Rightarrow> string \<Rightarrow> gomap option" where
  "goset m k v = (case m of None \<Rightarrow> None | Some f \<Rightarrow> Some (Some (fmupd k v f)))"

lemma entries_simps [simp]: "entries None = fmempty" "entries (Some f) = f"
  by (simp_all add: entries_def)

lemma goget_Some_upd [simp]:
  "goget (Some (fmupd k v f)) k' = (if k = k' then v else goget (Some f) k')"
  by (simp add: goget_def)

lemma goget_empty [simp]: "goget None k = []" "goget (Some fmempty) k = []"
  by (simp_all add: goget_def)

lemma goset_simps [simp]:
  "goset None k v = None" "goset (Some f) k v = Some (Some (fmupd k v f))"
  by (simp_all add: goset_def)

lemma fmupd_neq_fmempty [simp]: "fmupd k v m \<noteq> fmempty" "fmempty \<noteq> fmupd k v m"
  by (metis fmempty_lookup fmupd_lookup option.distinct(1))+

section \<open>Decimal rendering of integers\<close>

text \<open>The \<^verbatim>\<open>%d\<close> verb of \<^verbatim>\<open>fmt.Sprintf\<close>.\<close>

definition digit_char :: "nat \<Rightarrow> char" where
  "digit_char d = char_of (48 + d)"

fun utoa :: "nat \<Rightarrow> string" where
  "utoa n = (if n < 10 then [digit_char n] else utoa (n div 10) @ [digit_char (n mod 10)])"

declare utoa.simps [simp del]

definition itoa :: "int \<Rightarrow> string" where
  "itoa i = (if i < 0 then CHR ''-'' # utoa (nat (- i)) else utoa (nat i))"

section \<open>Suffixes\<close>

text \<open>\<^verbatim>\<open>strings.HasSuffix\<close> and \<^verbatim>\<open>strings.TrimSuffix\<close>.\<close>

definition HasSuffix :: "string \<Rightarrow> string \<Rightarrow> bool" where
  "HasSuffix s suf \<longleftrightarrow> length suf \<le> length s \<and> drop (length s - length suf) s = suf"

definition TrimSuffix :: "string \<Rightarrow> string \<Rightarrow> string" where
  "TrimSuffix s suf = (if HasSuffix s suf then take (length s - length suf) s else s)"

lemma HasSuffix_append [simp]: "HasSuffix (s @ suf) suf"
  by (simp add: HasSuffix_def)

lemma TrimSuffix_append [simp]: "TrimSuffix (s @ suf) suf = s"
  by (simp add: TrimSuffix_def)

lemma HasSuffix_iff: "HasSuffix s suf \<longleftrightarrow> s = TrimSuffix s suf @ suf"
  by (metis HasSuffix_append HasSuffix_def TrimSuffix_def append_take_drop_id)

end
