(* ===== verification/Go_Std.thy ===== *)
theory Go_Std
  imports Prelude
begin

text \<open>
  What the operator uses of the Go standard library, and its error values.

  \<^item> \<open>goerror\<close>: the values of Go's \<^verbatim>\<open>error\<close> interface the operator produces or passes on. One
    constructor per \<^verbatim>\<open>fmt.Errorf\<close> of the source, with the arguments of its format string
    (constructors with an error argument are the \<^verbatim>\<open>%w\<close> wrappers); \<open>External\<close> is an error value
    of a library (API server client, YAML printer), opaque to the operator; \<open>Panic\<close> is a run-time
    panic.
  \<^item> \<open>TrimSpace\<close>: \<^verbatim>\<open>strings.TrimSpace\<close> on UTF-8 byte strings.
  \<^item> \<open>Unmarshal\<close>: \<^verbatim>\<open>json.Unmarshal\<close> into a \<^verbatim>\<open>map[string]json.RawMessage\<close>. The byte scanner of
    encoding/json is a pushdown automaton, here the total function \<open>jstep\<close>; the decoded map is
    represented by the list of its decoded keys, in input order, since the operator never looks at
    the raw values.
\<close>

section \<open>Errors\<close>

datatype goerror =
    External string
  | Panic string
  | JSONSyntaxError
  | JSONTypeError
  | FailedToGetClass string goerror
  | ImageOrClassRefUnset
  | EmptyYAMLKey string
  | DuplicateYAMLKey string string
  | InvalidPipelineObject string goerror
  | EmptyPipelineObject string
  | CouldNotRender goerror
  | SpecImageOrClassRefMustBeSet
  | ClassDoesNotExist string
  | LookingUpClass string goerror
  | MaxReplicasBelowReplicas int int
  | CouldNotListPipelines goerror
  | YAMLKeyInUse string string string
  | YAMLKeyMustNotBeEmpty
  | PipelineMustBeObject goerror
  | PipelineMustDefineField
  | MissingSource
  | MissingSink

text \<open>\<^verbatim>\<open>errors.Unwrap\<close>: the error a \<^verbatim>\<open>%w\<close> wrapper carries.\<close>

fun Unwrap :: "goerror \<Rightarrow> goerror option" where
  "Unwrap (FailedToGetClass n e) = Some e"
| "Unwrap (InvalidPipelineObject n e) = Some e"
| "Unwrap (CouldNotRender e) = Some e"
| "Unwrap (LookingUpClass n e) = Some e"
| "Unwrap (CouldNotListPipelines e) = Some e"
| "Unwrap (PipelineMustBeObject e) = Some e"
| "Unwrap _ = None"

section \<open>UTF-8 and white space\<close>

definition byte :: "char \<Rightarrow> nat" where
  "byte c = of_char c"

definition chr :: "nat \<Rightarrow> char" where
  "chr n = char_of n"

definition bytes :: "nat list \<Rightarrow> string" where
  "bytes ns = map chr ns"

text \<open>The UTF-8 encodings of the runes with Unicode property White\_Space (\<^verbatim>\<open>unicode.IsSpace\<close>).\<close>

definition space_runes :: "string list" where
  "space_runes =
     map bytes ([[9], [10], [11], [12], [13], [32], [194, 133], [194, 160], [225, 154, 128]]
       @ map (\<lambda>n. [226, 128, n]) [128 ..< 139]
       @ [[226, 128, 168], [226, 128, 169], [226, 128, 175], [226, 129, 159], [227, 128, 128]])"

definition leading_rune :: "string \<Rightarrow> string option" where
  "leading_rune s = List.find (\<lambda>w. take (length w) s = w) space_runes"

definition trailing_rune :: "string \<Rightarrow> string option" where
  "trailing_rune s = List.find (\<lambda>w. HasSuffix s w) space_runes"

lemma space_runes_nonempty: "w \<in> set space_runes \<Longrightarrow> w \<noteq> []"
  by (auto simp: space_runes_def bytes_def)

lemma find_SomeD: "List.find P xs = Some x \<Longrightarrow> x \<in> set xs \<and> P x"
  by (auto simp: find_Some_iff)

function trim_left :: "string \<Rightarrow> string" where
  "trim_left s = (case leading_rune s of None \<Rightarrow> s | Some w \<Rightarrow> trim_left (drop (length w) s))"
  by pat_completeness auto
termination
proof (relation "measure length")
  fix s w
  assume "leading_rune s = Some w"
  then have w: "w \<in> set space_runes" "take (length w) s = w"
    by (auto simp: leading_rune_def dest: find_SomeD)
  then have "w \<noteq> []" by (simp add: space_runes_nonempty)
  moreover have "s \<noteq> []" using w(2) \<open>w \<noteq> []\<close> by auto
  ultimately show "(drop (length w) s, s) \<in> measure length" by auto
qed simp

function trim_right :: "string \<Rightarrow> string" where
  "trim_right s = (case trailing_rune s of None \<Rightarrow> s | Some w \<Rightarrow> trim_right (TrimSuffix s w))"
  by pat_completeness auto
termination
proof (relation "measure length")
  fix s w
  assume "trailing_rune s = Some w"
  then have w: "w \<in> set space_runes" "HasSuffix s w"
    by (auto simp: trailing_rune_def dest: find_SomeD)
  then have "w \<noteq> []" by (simp add: space_runes_nonempty)
  with w(2) show "(TrimSuffix s w, s) \<in> measure length"
    by (cases w) (auto simp: TrimSuffix_def HasSuffix_def)
qed simp

declare trim_left.simps [simp del] trim_right.simps [simp del]

definition TrimSpace :: "string \<Rightarrow> string" where
  "TrimSpace s = trim_right (trim_left s)"

text \<open>
  \<open>utf8_len s\<close>: the number of bytes of the rune \<open>s\<close> starts with, 0 when its first bytes are no
  valid UTF-8 encoding (\<^verbatim>\<open>utf8.DecodeRune\<close> then reports width 1 and U+FFFD).
\<close>

definition cont_byte :: "nat \<Rightarrow> nat \<Rightarrow> char \<Rightarrow> bool" where
  "cont_byte lo hi c \<longleftrightarrow> lo \<le> byte c \<and> byte c \<le> hi"

definition utf8_len :: "string \<Rightarrow> nat" where
  "utf8_len s =
     (case s of [] \<Rightarrow> 0 | c # t \<Rightarrow>
       (let b = byte c;
            tail = (\<lambda>n lo hi. n \<le> length t \<and> cont_byte lo hi (hd t) \<and> list_all (cont_byte 128 191) (take (n - 1) (tl t)))
        in if b < 128 then 1
           else if 194 \<le> b \<and> b \<le> 223 then (if tail 1 128 191 then 2 else 0)
           else if b = 224 then (if tail 2 160 191 then 3 else 0)
           else if b = 237 then (if tail 2 128 159 then 3 else 0)
           else if 225 \<le> b \<and> b \<le> 239 then (if tail 2 128 191 then 3 else 0)
           else if b = 240 then (if tail 3 144 191 then 4 else 0)
           else if 241 \<le> b \<and> b \<le> 243 then (if tail 3 128 191 then 4 else 0)
           else if b = 244 then (if tail 3 128 143 then 4 else 0)
           else 0))"

definition utf8_encode :: "nat \<Rightarrow> string" where
  "utf8_encode r =
     (if r < 128 then bytes [r]
      else if r < 2048 then bytes [192 + r div 64, 128 + r mod 64]
      else if r < 65536 then bytes [224 + r div 4096, 128 + r div 64 mod 64, 128 + r mod 64]
      else bytes [240 + r div 262144, 128 + r div 4096 mod 64, 128 + r div 64 mod 64, 128 + r mod 64])"

definition replacement :: nat where
  "replacement = 65533"

section \<open>JSON string literals\<close>

definition hexval :: "char \<Rightarrow> nat option" where
  "hexval c =
     (let b = byte c in
      if 48 \<le> b \<and> b \<le> 57 then Some (b - 48)
      else if 97 \<le> b \<and> b \<le> 102 then Some (b - 87)
      else if 65 \<le> b \<and> b \<le> 70 then Some (b - 55)
      else None)"

text \<open>\<^verbatim>\<open>getu4\<close>: the code unit of a leading \<^verbatim>\<open>\uXXXX\<close>.\<close>

fun getu4 :: "string \<Rightarrow> nat option" where
  "getu4 (b # u # a1 # a2 # a3 # a4 # rest) =
     (if b = CHR 0x5C \<and> u = CHR ''u'' then
        (case (hexval a1, hexval a2, hexval a3, hexval a4) of
           (Some h1, Some h2, Some h3, Some h4) \<Rightarrow> Some (h1 * 4096 + h2 * 256 + h3 * 16 + h4)
         | _ \<Rightarrow> None)
      else None)"
| "getu4 _ = None"

text \<open>\<^verbatim>\<open>utf16.DecodeRune\<close> of a surrogate pair, None when it is no pair.\<close>

definition decode_pair :: "nat \<Rightarrow> nat option \<Rightarrow> nat option" where
  "decode_pair hi lo =
     (case lo of None \<Rightarrow> None
      | Some l \<Rightarrow> if 55296 \<le> hi \<and> hi < 56320 \<and> 56320 \<le> l \<and> l < 57344
                  then Some ((hi - 55296) * 1024 + (l - 56320) + 65536) else None)"

definition escape_char :: "char \<Rightarrow> char" where
  "escape_char c =
     (if c = CHR ''b'' then CHR 0x08 else if c = CHR ''f'' then CHR 0x0C else if c = CHR ''n'' then CHR 0x0A
      else if c = CHR ''r'' then CHR 0x0D else if c = CHR ''t'' then CHR 0x09 else c)"

text \<open>The bytes between the quotes of a scanned string literal, decoded (\<^verbatim>\<open>unquoteBytes\<close>).\<close>

function unquote :: "string \<Rightarrow> string" where
  "unquote [] = []"
| "unquote (c # cs) =
     (if c = CHR 0x5C then
        (case getu4 (c # cs) of
           Some r \<Rightarrow>
             (if 55296 \<le> r \<and> r < 57344 then
                (case decode_pair r (getu4 (drop 5 cs)) of
                   Some d \<Rightarrow> utf8_encode d @ unquote (drop 11 cs)
                 | None \<Rightarrow> utf8_encode replacement @ unquote (drop 5 cs))
              else utf8_encode r @ unquote (drop 5 cs))
         | None \<Rightarrow> (case cs of [] \<Rightarrow> [] | e # es \<Rightarrow> escape_char e # unquote es))
      else if utf8_len (c # cs) = 0 then utf8_encode replacement @ unquote cs
      else take (utf8_len (c # cs)) (c # cs) @ unquote (drop (utf8_len (c # cs) - 1) cs))"
  by pat_completeness auto
termination
  by (relation "measure length") auto

declare unquote.simps [simp del]

section \<open>The JSON scanner\<close>

datatype pstate = ParseObjectKey | ParseObjectValue | ParseArrayValue

datatype jstate =
    BeginValue | BeginValueOrEmpty | BeginString | BeginStringOrEmpty | EndValue | EndTop
  | InString | InStringEsc | InStringEscU | InStringEscU1 | InStringEscU12 | InStringEscU123
  | Neg | Zero | Digits | Dot | Dot0 | Exp | ExpSign | Exp0
  | LitT | LitTr | LitTru | LitF | LitFa | LitFal | LitFals | LitN | LitNu | LitNul

definition isSpace :: "char \<Rightarrow> bool" where
  "isSpace c \<longleftrightarrow> c = CHR 0x20 \<or> c = CHR 0x09 \<or> c = CHR 0x0D \<or> c = CHR 0x0A"

definition isDigit :: "char \<Rightarrow> bool" where
  "isDigit c \<longleftrightarrow> c \<in> set ''0123456789''"

definition maxNestingDepth :: nat where
  "maxNestingDepth = 10000"

definition pushParseState :: "jstate \<Rightarrow> pstate \<Rightarrow> pstate list \<Rightarrow> (jstate \<times> pstate list) option" where
  "pushParseState st p ps =
     (if length (p # ps) \<le> maxNestingDepth then Some (st, p # ps) else None)"

definition popParseState :: "pstate list \<Rightarrow> jstate \<times> pstate list" where
  "popParseState ps = (if tl ps = [] then (EndTop, []) else (EndValue, tl ps))"

definition stateEndValue :: "pstate list \<Rightarrow> char \<Rightarrow> (jstate \<times> pstate list) option" where
  "stateEndValue ps c =
     (case ps of
        [] \<Rightarrow> if isSpace c then Some (EndTop, []) else None
      | p # qs \<Rightarrow>
          if isSpace c then Some (EndValue, ps)
          else (case p of
             ParseObjectKey \<Rightarrow> if c = CHR '':'' then Some (BeginValue, ParseObjectValue # qs) else None
           | ParseObjectValue \<Rightarrow>
               if c = CHR '','' then Some (BeginString, ParseObjectKey # qs)
               else if c = CHR ''}'' then Some (popParseState ps) else None
           | ParseArrayValue \<Rightarrow>
               if c = CHR '','' then Some (BeginValue, ps)
               else if c = CHR '']'' then Some (popParseState ps) else None))"

definition stateBeginValue :: "pstate list \<Rightarrow> char \<Rightarrow> (jstate \<times> pstate list) option" where
  "stateBeginValue ps c =
     (if isSpace c then Some (BeginValue, ps)
      else if c = CHR ''{'' then pushParseState BeginStringOrEmpty ParseObjectKey ps
      else if c = CHR ''['' then pushParseState BeginValueOrEmpty ParseArrayValue ps
      else if c = CHR 0x22 then Some (InString, ps)
      else if c = CHR ''-'' then Some (Neg, ps)
      else if c = CHR ''0'' then Some (Zero, ps)
      else if c = CHR ''t'' then Some (LitT, ps)
      else if c = CHR ''f'' then Some (LitF, ps)
      else if c = CHR ''n'' then Some (LitN, ps)
      else if isDigit c then Some (Digits, ps)
      else None)"

definition stateBeginString :: "pstate list \<Rightarrow> char \<Rightarrow> (jstate \<times> pstate list) option" where
  "stateBeginString ps c =
     (if isSpace c then Some (BeginString, ps)
      else if c = CHR 0x22 then Some (InString, ps) else None)"

definition expect :: "bool \<Rightarrow> jstate \<Rightarrow> pstate list \<Rightarrow> (jstate \<times> pstate list) option" where
  "expect b st ps = (if b then Some (st, ps) else None)"

definition stateZero :: "pstate list \<Rightarrow> char \<Rightarrow> (jstate \<times> pstate list) option" where
  "stateZero ps c =
     (if c = CHR ''.'' then Some (Dot, ps)
      else if c = CHR ''e'' \<or> c = CHR ''E'' then Some (Exp, ps)
      else stateEndValue ps c)"

text \<open>One byte of input: the next scanner state and parse stack, None for a syntax error.\<close>

fun jstep :: "jstate \<Rightarrow> pstate list \<Rightarrow> char \<Rightarrow> (jstate \<times> pstate list) option" where
  "jstep BeginValue ps c = stateBeginValue ps c"
| "jstep BeginValueOrEmpty ps c =
     (if isSpace c then Some (BeginValueOrEmpty, ps)
      else if c = CHR '']'' then stateEndValue ps c else stateBeginValue ps c)"
| "jstep BeginString ps c = stateBeginString ps c"
| "jstep BeginStringOrEmpty ps c =
     (if isSpace c then Some (BeginStringOrEmpty, ps)
      else if c = CHR ''}'' then stateEndValue (ParseObjectValue # tl ps) c
      else stateBeginString ps c)"
| "jstep EndValue ps c = stateEndValue ps c"
| "jstep EndTop ps c = expect (isSpace c) EndTop ps"
| "jstep InString ps c =
     (if c = CHR 0x22 then Some (EndValue, ps)
      else if c = CHR 0x5C then Some (InStringEsc, ps)
      else expect (32 \<le> byte c) InString ps)"
| "jstep InStringEsc ps c =
     (if c = CHR ''u'' then Some (InStringEscU, ps)
      else expect (c \<in> set (CHR 0x22 # CHR 0x5C # ''/bfnrt'')) InString ps)"
| "jstep InStringEscU ps c = expect (hexval c \<noteq> None) InStringEscU1 ps"
| "jstep InStringEscU1 ps c = expect (hexval c \<noteq> None) InStringEscU12 ps"
| "jstep InStringEscU12 ps c = expect (hexval c \<noteq> None) InStringEscU123 ps"
| "jstep InStringEscU123 ps c = expect (hexval c \<noteq> None) InString ps"
| "jstep Neg ps c =
     (if c = CHR ''0'' then Some (Zero, ps) else expect (isDigit c) Digits ps)"
| "jstep Digits ps c = (if isDigit c then Some (Digits, ps) else stateZero ps c)"
| "jstep Zero ps c = stateZero ps c"
| "jstep Dot ps c = expect (isDigit c) Dot0 ps"
| "jstep Dot0 ps c =
     (if isDigit c then Some (Dot0, ps)
      else if c = CHR ''e'' \<or> c = CHR ''E'' then Some (Exp, ps)
      else stateEndValue ps c)"
| "jstep Exp ps c =
     (if c = CHR ''+'' \<or> c = CHR ''-'' then Some (ExpSign, ps) else expect (isDigit c) Exp0 ps)"
| "jstep ExpSign ps c = expect (isDigit c) Exp0 ps"
| "jstep Exp0 ps c = (if isDigit c then Some (Exp0, ps) else stateEndValue ps c)"
| "jstep LitT ps c = expect (c = CHR ''r'') LitTr ps"
| "jstep LitTr ps c = expect (c = CHR ''u'') LitTru ps"
| "jstep LitTru ps c = expect (c = CHR ''e'') EndValue ps"
| "jstep LitF ps c = expect (c = CHR ''a'') LitFa ps"
| "jstep LitFa ps c = expect (c = CHR ''l'') LitFal ps"
| "jstep LitFal ps c = expect (c = CHR ''s'') LitFals ps"
| "jstep LitFals ps c = expect (c = CHR ''e'') EndValue ps"
| "jstep LitN ps c = expect (c = CHR ''u'') LitNu ps"
| "jstep LitNu ps c = expect (c = CHR ''l'') LitNul ps"
| "jstep LitNul ps c = expect (c = CHR ''l'') EndValue ps"

fun jscan :: "jstate \<Rightarrow> pstate list \<Rightarrow> string \<Rightarrow> (jstate \<times> pstate list) option" where
  "jscan st ps [] = Some (st, ps)"
| "jscan st ps (c # cs) =
     (case jstep st ps c of None \<Rightarrow> None | Some (st', ps') \<Rightarrow> jscan st' ps' cs)"

text \<open>\<^verbatim>\<open>checkValid\<close>: scan all bytes, then the end of input, which the scanner treats as a space.\<close>

definition checkValid :: "string \<Rightarrow> bool" where
  "checkValid data =
     (case jscan BeginValue [] data of
        None \<Rightarrow> False
      | Some (st, ps) \<Rightarrow>
          st = EndTop \<or> (case jstep st ps (CHR 0x20) of None \<Rightarrow> False | Some (st', _) \<Rightarrow> st' = EndTop))"

definition in_string :: "jstate \<Rightarrow> bool" where
  "in_string st \<longleftrightarrow>
     st \<in> {InString, InStringEsc, InStringEscU, InStringEscU1, InStringEscU12, InStringEscU123}"

text \<open>The decoded keys of the outermost object; \<open>acc\<close> holds the bytes of the current key, reversed.\<close>

fun object_keys :: "jstate \<Rightarrow> pstate list \<Rightarrow> string \<Rightarrow> string \<Rightarrow> string list" where
  "object_keys st ps acc [] = []"
| "object_keys st ps acc (c # cs) =
     (case jstep st ps c of
        None \<Rightarrow> []
      | Some (st', ps') \<Rightarrow>
          if ps = [ParseObjectKey] \<and> in_string st then
            (if st' = EndValue then unquote (rev acc) # object_keys st' ps' [] cs
             else object_keys st' ps' (c # acc) cs)
          else object_keys st' ps' [] cs)"

text \<open>
  \<^verbatim>\<open>json.Unmarshal(data, &m)\<close> for a nil \<^verbatim>\<open>m map[string]json.RawMessage\<close>: a syntax error, a type
  error for a value that is neither an object nor \<^verbatim>\<open>null\<close>, the nil map for \<^verbatim>\<open>null\<close>, and otherwise
  the map with the object's keys.
\<close>

definition Unmarshal :: "string \<Rightarrow> goerror + string list" where
  "Unmarshal data =
     (if \<not> checkValid data then Inl JSONSyntaxError
      else (case dropWhile isSpace data of
              [] \<Rightarrow> Inl JSONSyntaxError
            | c # _ \<Rightarrow>
                if c = CHR ''{'' then Inr (object_keys BeginValue [] [] data)
                else if c = CHR ''n'' then Inr []
                else Inl JSONTypeError))"

section \<open>Facts about the library functions\<close>

lemmas json_eval =
  Unmarshal_def checkValid_def stateBeginValue_def stateBeginString_def stateEndValue_def
  stateZero_def pushParseState_def popParseState_def maxNestingDepth_def isSpace_def isDigit_def
  expect_def in_string_def byte_def hexval_def unquote.simps utf8_len_def Let_def

text \<open>A byte that occurs in no white-space rune survives trimming.\<close>

lemma trim_left_keeps:
  assumes "c \<in> set s" and "\<And>w. w \<in> set space_runes \<Longrightarrow> c \<notin> set w"
  shows "c \<in> set (trim_left s)"
  using assms(1)
proof (induction s rule: trim_left.induct)
  case (1 s)
  show ?case
  proof (cases "leading_rune s")
    case None
    then show ?thesis using "1.prems" by (simp add: trim_left.simps)
  next
    case (Some w)
    then have "w \<in> set space_runes" "take (length w) s = w"
      by (auto simp: leading_rune_def dest: find_SomeD)
    with assms(2) have "c \<notin> set (take (length w) s)" by auto
    with "1.prems" have "c \<in> set (drop (length w) s)"
      by (metis UnE append_take_drop_id set_append)
    with "1.IH" [OF Some] Some show ?thesis by (subst trim_left.simps) simp
  qed
qed

lemma trim_right_keeps:
  assumes "c \<in> set s" and "\<And>w. w \<in> set space_runes \<Longrightarrow> c \<notin> set w"
  shows "c \<in> set (trim_right s)"
  using assms(1)
proof (induction s rule: trim_right.induct)
  case (1 s)
  show ?case
  proof (cases "trailing_rune s")
    case None
    then show ?thesis using "1.prems" by (simp add: trim_right.simps)
  next
    case (Some w)
    then have w: "w \<in> set space_runes" "HasSuffix s w"
      by (auto simp: trailing_rune_def dest: find_SomeD)
    from w(2) have "s = TrimSuffix s w @ w" by (simp add: HasSuffix_iff)
    with "1.prems" assms(2) [OF w(1)] have "c \<in> set (TrimSuffix s w)"
      by (metis UnE set_append)
    with "1.IH" [OF Some] Some show ?thesis by (subst trim_right.simps) simp
  qed
qed

lemma TrimSpace_keeps:
  "c \<in> set s \<Longrightarrow> (\<And>w. w \<in> set space_runes \<Longrightarrow> c \<notin> set w) \<Longrightarrow> c \<in> set (TrimSpace s)"
  by (simp add: TrimSpace_def trim_left_keeps trim_right_keeps)

lemma space_runes_no_letter:
  assumes "w \<in> set space_runes" "33 \<le> byte c" "byte c < 127"
  shows "c \<notin> set w"
proof
  assume "c \<in> set w"
  then have "byte c \<in> byte ` set w" by simp
  with assms(1) have "byte c \<in> {9, 10, 11, 12, 13, 32} \<union> {127 ..}"
    by (auto simp: space_runes_def bytes_def byte_def chr_def)
  with assms(2,3) show False by auto
qed

text \<open>A name with a visible ASCII character is not blank.\<close>

lemma TrimSpace_nonempty:
  "c \<in> set s \<Longrightarrow> 33 \<le> byte c \<Longrightarrow> byte c < 127 \<Longrightarrow> TrimSpace s \<noteq> []"
  using TrimSpace_keeps [of c s] space_runes_no_letter by fastforce

lemma TrimSpace_Nil [simp]: "TrimSpace [] = []"
  by (simp add: TrimSpace_def trim_left.simps trim_right.simps leading_rune_def trailing_rune_def
      space_runes_def bytes_def find_def HasSuffix_def)

end
