(* ===== verification/Kube_Types.thy ===== *)
theory Kube_Types
  imports Go_Std
begin

text \<open>
  The Kubernetes API objects the operator reads and writes (packages core/v1, apps/v1,
  autoscaling/v2 and meta/v1). Every field the operator touches is a field here; the rest of an
  object, which the operator carries along unread when it updates what it fetched, is the opaque
  field whose name ends in \<open>Other\<close>. Values the operator only copies (tolerations, environment
  sources, quantities, volume sources other than ConfigMaps) are opaque strings; a quantity stands for its
  value, however it is written. The integers are
  Go's int32 and int64, read as \<open>int\<close>; the operator compares and prints them.
\<close>

type_synonym time = int

record owner_reference =
  or_Kind :: string
  or_Name :: string
  or_Controller :: bool

record object_meta =
  Name :: string
  Namespace :: string
  Generation :: int
  DeletionTimestamp :: "time option"
  Finalizers :: "string list"
  OwnerReferences :: "owner_reference list"
  MetaLabels :: gomap
  MetaOther :: string

text \<open>The metadata of a composite literal \<^verbatim>\<open>metav1.ObjectMeta{Name: n, Namespace: ns}\<close>.\<close>

definition object_meta :: "string \<Rightarrow> string \<Rightarrow> object_meta" where
  "object_meta n ns =
     \<lparr>Name = n, Namespace = ns, Generation = 0, DeletionTimestamp = None, Finalizers = [],
      OwnerReferences = [], MetaLabels = None, MetaOther = []\<rparr>"

record condition =
  c_Type :: string
  c_Status :: string
  c_Reason :: string
  c_Message :: string
  c_ObservedGeneration :: int
  c_LastTransitionTime :: time

definition ConditionTrue :: string where
  "ConditionTrue = ''True''"

definition ConditionFalse :: string where
  "ConditionFalse = ''False''"

datatype int_or_string = FromInt32 int | FromString string

record resource_requirements =
  Requests :: strmap
  Limits :: strmap
  Claims :: "string list"

record container_port =
  cp_Name :: string
  cp_ContainerPort :: int
  cp_Protocol :: string
  cp_Other :: string

record volume_mount =
  vm_Name :: string
  vm_MountPath :: string
  vm_SubPath :: string
  vm_Other :: string

datatype volume_source = ConfigMapVolumeSource string | OtherVolumeSource string

record volume =
  v_Name :: string
  v_Source :: volume_source

type_synonym toleration = string
type_synonym env_from_source = string

record probe =
  pr_TCPSocketPort :: int_or_string
  pr_InitialDelaySeconds :: int
  pr_PeriodSeconds :: int
  pr_FailureThreshold :: int

record container =
  ct_Name :: string
  ct_Image :: string
  ct_Resources :: resource_requirements
  ct_Ports :: "container_port list"
  ct_VolumeMounts :: "volume_mount list"
  ct_EnvFrom :: "env_from_source list"
  ct_StartupProbe :: "probe option"
  ct_LivenessProbe :: "probe option"
  ct_ReadinessProbe :: "probe option"
  ct_Other :: string

record pod_template =
  pt_Labels :: gomap
  pt_Annotations :: gomap
  pt_NodeSelector :: gomap
  pt_Tolerations :: "toleration list"
  pt_Containers :: "container list"
  pt_Volumes :: "volume list"
  pt_Other :: string

record deployment_status =
  ds_ReadyReplicas :: int
  ds_UnavailableReplicas :: int
  ds_UpdatedReplicas :: int
  ds_ObservedGeneration :: int

record deployment =
  d_Meta :: object_meta
  d_Replicas :: "int option"
  d_Selector :: gomap
  d_Template :: pod_template
  d_SpecOther :: string
  d_Status :: deployment_status

record config_map =
  cm_Meta :: object_meta
  cm_Data :: gomap
  cm_Other :: string

record service_port =
  sp_Name :: string
  sp_Port :: int
  sp_TargetPort :: int_or_string
  sp_Protocol :: string
  sp_Other :: string

record service =
  sv_Meta :: object_meta
  sv_Selector :: gomap
  sv_Ports :: "service_port list"
  sv_ClusterIP :: string
  sv_PublishNotReadyAddresses :: bool
  sv_Other :: string

record cross_version_object_reference =
  cv_APIVersion :: string
  cv_Kind :: string
  cv_Name :: string

datatype metric_spec = ResourceMetric string string "int option" | OtherMetric string

record hpa_spec =
  hs_ScaleTargetRef :: cross_version_object_reference
  hs_MinReplicas :: "int option"
  hs_MaxReplicas :: int
  hs_Metrics :: "metric_spec list"
  hs_Behavior :: "string option"

record hpa =
  hp_Meta :: object_meta
  hp_Spec :: hpa_spec
  hp_Other :: string

text \<open>The values of an unstructured object (\<^verbatim>\<open>map[string]any\<close>), with maps as key-value lists.\<close>

datatype uvalue = UString string | UMap "(string \<times> uvalue) list" | UList "uvalue list"

record service_monitor =
  sm_Meta :: object_meta
  sm_Spec :: "uvalue option"
  sm_Other :: string

record container_state =
  cst_Reason :: string
  cst_Message :: string

record container_status =
  cst_Name :: string
  cst_Waiting :: "container_state option"
  cst_Terminated :: "container_state option"

record pod =
  pod_Meta :: object_meta
  pod_ContainerStatuses :: "container_status list"

type_synonym namespaced_name = "string \<times> string"

end
