(* ===== verification/Api_Types.thy ===== *)
theory Api_Types
  imports Kube_Types
begin

text \<open>
  The custom resources of api/v1alpha1: DataPrepperClass, DataPrepperCluster and
  DataPrepperPipeline, with their specs and statuses field by field.
\<close>

section \<open>DataPrepperClass\<close>

record DataPrepperClassSpec =
  ks_Image :: string
  ks_Resources :: resource_requirements
  ks_EnvFrom :: "env_from_source list"
  ks_NodeSelector :: gomap
  ks_Tolerations :: "toleration list"
  ks_PodLabels :: gomap
  ks_PodAnnotations :: gomap

record DataPrepperClass =
  k_Meta :: object_meta
  k_Spec :: DataPrepperClassSpec

section \<open>DataPrepperCluster\<close>

record AutoscalingSpec =
  as_MinReplicas :: "int option"
  as_MaxReplicas :: int
  as_TargetCPUUtilizationPercentage :: "int option"

record MetricsSpec =
  ms_ServiceMonitor :: bool

record DataPrepperClusterSpec =
  cs_ClassRef :: string
  cs_Image :: string
  cs_Replicas :: int
  cs_Resources :: resource_requirements
  cs_ServerConfigMap :: string
  cs_AssetsConfigMap :: string
  cs_ExtraVolumes :: "volume list"
  cs_ExtraVolumeMounts :: "volume_mount list"
  cs_ExtraPorts :: "container_port list"
  cs_EnvFrom :: "env_from_source list"
  cs_Metrics :: "MetricsSpec option"
  cs_Autoscaling :: "AutoscalingSpec option"

definition DataPrepperClusterPhasePending :: string where
  "DataPrepperClusterPhasePending = ''Pending''"

definition DataPrepperClusterPhaseReady :: string where
  "DataPrepperClusterPhaseReady = ''Ready''"

definition DataPrepperClusterPhaseDegraded :: string where
  "DataPrepperClusterPhaseDegraded = ''Degraded''"

record DataPrepperClusterStatus =
  ct_Phase :: string
  ct_ReadyReplicas :: int
  ct_Pipelines :: int
  ct_ObservedGeneration :: int
  ct_Conditions :: "condition list"

record DataPrepperCluster =
  c_Meta :: object_meta
  c_Spec :: DataPrepperClusterSpec
  c_Stat :: DataPrepperClusterStatus

section \<open>DataPrepperPipeline\<close>

text \<open>\<open>ps_Pipeline\<close> is \<^verbatim>\<open>Pipeline.Raw\<close>, the JSON bytes of the structured definition.\<close>

record DataPrepperPipelineSpec =
  ps_ClusterRef :: string
  ps_YAMLKey :: string
  ps_Pipeline :: string

definition DataPrepperPipelinePhasePending :: string where
  "DataPrepperPipelinePhasePending = ''Pending''"

definition DataPrepperPipelinePhaseApplied :: string where
  "DataPrepperPipelinePhaseApplied = ''Applied''"

record DataPrepperPipelineStatus =
  pt_Phase :: string
  pt_ObservedGeneration :: int
  pt_Conditions :: "condition list"

record DataPrepperPipeline =
  p_Meta :: object_meta
  p_Spec :: DataPrepperPipelineSpec
  p_Stat :: DataPrepperPipelineStatus

lemmas phase_defs =
  DataPrepperClusterPhasePending_def DataPrepperClusterPhaseReady_def
  DataPrepperClusterPhaseDegraded_def DataPrepperPipelinePhasePending_def
  DataPrepperPipelinePhaseApplied_def

end
