(* ===== verification/Client.thy ===== *)
theory Client
  imports Api_Types
begin

text \<open>
  The boundary of the operator: everything it calls that is not under src/.

  \<^item> \<open>env\<close> is the parameter of the whole model: the six operations of controller-runtime's
    \<^verbatim>\<open>client.Client\<close> and the library functions of apimachinery, controller-runtime and
    sigs.k8s.io/yaml the operator calls. Nothing is defined about them here; every definition of
    the operator takes an \<open>env\<close>.
  \<^item> \<open>traced\<close> wraps an \<open>env\<close> so that every client call is recorded. It makes statements about the
    calls the operator can make, for any client.
  \<^item> The locales state the documented behaviour of the parameter: \<open>apimachinery\<close> for the library
    functions; \<open>api_server\<close> for the client, over a \<open>view\<close> of the client's state as a store of
    objects (no other writer runs during a reconcile; a failed write may or may not have taken
    effect); \<open>available_server\<close> adds that calls fail only for a reason in the store. They are
    interpreted in \<open>Mem_Server\<close>. \<open>Shared_Server\<close> states the contract with other writers.
\<close>

section \<open>Objects\<close>

datatype kind =
  KCluster | KClass | KPipeline | KConfigMap | KDeployment | KService | KHPA | KServiceMonitor | KPod

datatype kobject =
    ClusterObj DataPrepperCluster
  | ClassObj DataPrepperClass
  | PipelineObj DataPrepperPipeline
  | ConfigMapObj config_map
  | DeploymentObj deployment
  | ServiceObj service
  | HPAObj hpa
  | ServiceMonitorObj service_monitor
  | PodObj pod

fun kind_of :: "kobject \<Rightarrow> kind" where
  "kind_of (ClusterObj x) = KCluster"
| "kind_of (ClassObj x) = KClass"
| "kind_of (PipelineObj x) = KPipeline"
| "kind_of (ConfigMapObj x) = KConfigMap"
| "kind_of (DeploymentObj x) = KDeployment"
| "kind_of (ServiceObj x) = KService"
| "kind_of (HPAObj x) = KHPA"
| "kind_of (ServiceMonitorObj x) = KServiceMonitor"
| "kind_of (PodObj x) = KPod"

fun obj_meta :: "kobject \<Rightarrow> object_meta" where
  "obj_meta (ClusterObj x) = c_Meta x"
| "obj_meta (ClassObj x) = k_Meta x"
| "obj_meta (PipelineObj x) = p_Meta x"
| "obj_meta (ConfigMapObj x) = cm_Meta x"
| "obj_meta (DeploymentObj x) = d_Meta x"
| "obj_meta (ServiceObj x) = sv_Meta x"
| "obj_meta (HPAObj x) = hp_Meta x"
| "obj_meta (ServiceMonitorObj x) = sm_Meta x"
| "obj_meta (PodObj x) = pod_Meta x"

fun set_meta :: "object_meta \<Rightarrow> kobject \<Rightarrow> kobject" where
  "set_meta m (ClusterObj x) = ClusterObj (x\<lparr>c_Meta := m\<rparr>)"
| "set_meta m (ClassObj x) = ClassObj (x\<lparr>k_Meta := m\<rparr>)"
| "set_meta m (PipelineObj x) = PipelineObj (x\<lparr>p_Meta := m\<rparr>)"
| "set_meta m (ConfigMapObj x) = ConfigMapObj (x\<lparr>cm_Meta := m\<rparr>)"
| "set_meta m (DeploymentObj x) = DeploymentObj (x\<lparr>d_Meta := m\<rparr>)"
| "set_meta m (ServiceObj x) = ServiceObj (x\<lparr>sv_Meta := m\<rparr>)"
| "set_meta m (HPAObj x) = HPAObj (x\<lparr>hp_Meta := m\<rparr>)"
| "set_meta m (ServiceMonitorObj x) = ServiceMonitorObj (x\<lparr>sm_Meta := m\<rparr>)"
| "set_meta m (PodObj x) = PodObj (x\<lparr>pod_Meta := m\<rparr>)"

lemma obj_meta_set_meta [simp]: "obj_meta (set_meta m ob) = m"
  by (cases ob) auto

lemma kind_of_set_meta [simp]: "kind_of (set_meta m ob) = kind_of ob"
  by (cases ob) auto

type_synonym object_key = "kind \<times> namespaced_name"
type_synonym store = "object_key \<Rightarrow> kobject option"

definition obj_key :: "kobject \<Rightarrow> object_key" where
  "obj_key ob = (kind_of ob, Namespace (obj_meta ob), Name (obj_meta ob))"

lemma obj_key_simps [simp]:
  "obj_key (ClusterObj c) = (KCluster, Namespace (c_Meta c), Name (c_Meta c))"
  "obj_key (ClassObj k) = (KClass, Namespace (k_Meta k), Name (k_Meta k))"
  "obj_key (PipelineObj p) = (KPipeline, Namespace (p_Meta p), Name (p_Meta p))"
  "obj_key (ConfigMapObj m) = (KConfigMap, Namespace (cm_Meta m), Name (cm_Meta m))"
  "obj_key (DeploymentObj d) = (KDeployment, Namespace (d_Meta d), Name (d_Meta d))"
  "obj_key (ServiceObj v) = (KService, Namespace (sv_Meta v), Name (sv_Meta v))"
  "obj_key (HPAObj h) = (KHPA, Namespace (hp_Meta h), Name (hp_Meta h))"
  "obj_key (ServiceMonitorObj s) = (KServiceMonitor, Namespace (sm_Meta s), Name (sm_Meta s))"
  "obj_key (PodObj q) = (KPod, Namespace (pod_Meta q), Name (pod_Meta q))"
  by (simp_all add: obj_key_def)

lemma obj_key_kind: "obj_key ob = (kd, k) \<Longrightarrow> kind_of ob = kd"
  by (simp add: obj_key_def)

text \<open>The typed view of a fetched object: the Go variable it is decoded into.\<close>

fun asCluster :: "kobject \<Rightarrow> DataPrepperCluster option" where
  "asCluster (ClusterObj x) = Some x" | "asCluster _ = None"

fun asClass :: "kobject \<Rightarrow> DataPrepperClass option" where
  "asClass (ClassObj x) = Some x" | "asClass _ = None"

fun asPipeline :: "kobject \<Rightarrow> DataPrepperPipeline option" where
  "asPipeline (PipelineObj x) = Some x" | "asPipeline _ = None"

fun asConfigMap :: "kobject \<Rightarrow> config_map option" where
  "asConfigMap (ConfigMapObj x) = Some x" | "asConfigMap _ = None"

fun asDeployment :: "kobject \<Rightarrow> deployment option" where
  "asDeployment (DeploymentObj x) = Some x" | "asDeployment _ = None"

fun asService :: "kobject \<Rightarrow> service option" where
  "asService (ServiceObj x) = Some x" | "asService _ = None"

fun asHPA :: "kobject \<Rightarrow> hpa option" where
  "asHPA (HPAObj x) = Some x" | "asHPA _ = None"

fun asServiceMonitor :: "kobject \<Rightarrow> service_monitor option" where
  "asServiceMonitor (ServiceMonitorObj x) = Some x" | "asServiceMonitor _ = None"

fun asPod :: "kobject \<Rightarrow> pod option" where
  "asPod (PodObj x) = Some x" | "asPod _ = None"

lemma as_Some [simp]:
  "asCluster ob = Some c \<longleftrightarrow> ob = ClusterObj c"
  "asClass ob = Some k \<longleftrightarrow> ob = ClassObj k"
  "asPipeline ob = Some p \<longleftrightarrow> ob = PipelineObj p"
  "asConfigMap ob = Some m \<longleftrightarrow> ob = ConfigMapObj m"
  "asDeployment ob = Some d \<longleftrightarrow> ob = DeploymentObj d"
  "asService ob = Some v \<longleftrightarrow> ob = ServiceObj v"
  "asHPA ob = Some h \<longleftrightarrow> ob = HPAObj h"
  "asServiceMonitor ob = Some s \<longleftrightarrow> ob = ServiceMonitorObj s"
  "asPod ob = Some q \<longleftrightarrow> ob = PodObj q"
  by (cases ob; simp)+

lemma as_None [simp]:
  "asCluster ob = None \<longleftrightarrow> kind_of ob \<noteq> KCluster"
  "asClass ob = None \<longleftrightarrow> kind_of ob \<noteq> KClass"
  "asPipeline ob = None \<longleftrightarrow> kind_of ob \<noteq> KPipeline"
  "asConfigMap ob = None \<longleftrightarrow> kind_of ob \<noteq> KConfigMap"
  "asDeployment ob = None \<longleftrightarrow> kind_of ob \<noteq> KDeployment"
  "asService ob = None \<longleftrightarrow> kind_of ob \<noteq> KService"
  "asHPA ob = None \<longleftrightarrow> kind_of ob \<noteq> KHPA"
  "asServiceMonitor ob = None \<longleftrightarrow> kind_of ob \<noteq> KServiceMonitor"
  "asPod ob = None \<longleftrightarrow> kind_of ob \<noteq> KPod"
  by (cases ob; simp)+

section \<open>The environment\<close>

text \<open>The arguments of \<^verbatim>\<open>apiequality.Semantic.DeepEqual\<close>, which takes \<^verbatim>\<open>any\<close>.\<close>

datatype any =
    AnyClusterStatus DataPrepperClusterStatus
  | AnyConditions "condition list"
  | AnyPorts "service_port list"
  | AnyStringMap gomap
  | AnyHPASpec hpa_spec
  | AnyUnstructured "uvalue option"

record 's env =
  Get :: "kind \<Rightarrow> namespaced_name \<Rightarrow> ('s, goerror + kobject) state"
  List :: "kind \<Rightarrow> string \<Rightarrow> strmap \<Rightarrow> ('s, goerror + kobject list) state"
  Create :: "kobject \<Rightarrow> ('s, goerror + unit) state"
  Update :: "kobject \<Rightarrow> ('s, goerror + unit) state"
  StatusUpdate :: "kobject \<Rightarrow> ('s, goerror + unit) state"
  Delete :: "kobject \<Rightarrow> ('s, goerror + unit) state"
  SetStatusCondition :: "condition list \<Rightarrow> condition \<Rightarrow> ('s, condition list) state"
  IsNotFound :: "goerror \<Rightarrow> bool"
  IsNoMatchError :: "goerror \<Rightarrow> bool"
  ContainsFinalizer :: "object_meta \<Rightarrow> string \<Rightarrow> bool"
  AddFinalizer :: "object_meta \<Rightarrow> string \<Rightarrow> object_meta"
  RemoveFinalizer :: "object_meta \<Rightarrow> string \<Rightarrow> object_meta"
  SetControllerReference :: "DataPrepperCluster \<Rightarrow> kobject \<Rightarrow> goerror + kobject"
  DeepEqual :: "any \<Rightarrow> any \<Rightarrow> bool"
  SetNestedMap :: "service_monitor \<Rightarrow> uvalue \<Rightarrow> string list \<Rightarrow> goerror + service_monitor"
  NestedMap :: "service_monitor \<Rightarrow> string list \<Rightarrow> uvalue option"
  yamlMarshal :: "strmap \<Rightarrow> goerror + string"
  IsZero :: "time option \<Rightarrow> bool"
  Quote :: "string \<Rightarrow> string"

text \<open>
  \<^verbatim>\<open>r.Get(ctx, key, &x)\<close> for a typed variable: the object is decoded into the variable's type.
\<close>

definition decode :: "(kobject \<Rightarrow> 'a option) \<Rightarrow> goerror + kobject \<Rightarrow> goerror + 'a" where
  "decode as r =
     (case r of
        Inl e \<Rightarrow> Inl e
      | Inr ob \<Rightarrow> (case as ob of None \<Rightarrow> Inl (Panic ''object kind'') | Some x \<Rightarrow> Inr x))"

definition getAs :: "'s env \<Rightarrow> (kobject \<Rightarrow> 'a option) \<Rightarrow> kind \<Rightarrow> namespaced_name \<Rightarrow> ('s, goerror + 'a) state" where
  "getAs E as kd k = do { r \<leftarrow> Get E kd k; State_Monad.return (decode as r) }"

definition listAs :: "'s env \<Rightarrow> (kobject \<Rightarrow> 'a option) \<Rightarrow> kind \<Rightarrow> string \<Rightarrow> strmap \<Rightarrow> ('s, goerror + 'a list) state" where
  "listAs E as kd ns sel =
     do { r \<leftarrow> List E kd ns sel;
          State_Monad.return
            (case r of Inl e \<Rightarrow> Inl e
             | Inr obs \<Rightarrow> if list_all (\<lambda>ob. as ob \<noteq> None) obs then Inr (List.map_filter as obs)
                          else Inl (Panic ''object kind'')) }"

section \<open>Recording the calls\<close>

datatype call =
    CGet kind namespaced_name
  | CList kind string strmap
  | CCreate kobject
  | CUpdate kobject
  | CStatusUpdate kobject
  | CDelete kobject

fun is_write :: "call \<Rightarrow> bool" where
  "is_write (CGet kd k) = False"
| "is_write (CList kd ns sel) = False"
| "is_write _ = True"

definition record_call :: "call \<Rightarrow> ('s, 'a) state \<Rightarrow> ('s \<times> call list, 'a) state" where
  "record_call c m = State (\<lambda>(s, tr). case run_state m s of (r, s') \<Rightarrow> (r, s', tr @ [c]))"

definition silent :: "('s, 'a) state \<Rightarrow> ('s \<times> call list, 'a) state" where
  "silent m = State (\<lambda>(s, tr). case run_state m s of (r, s') \<Rightarrow> (r, s', tr))"

lemma run_record_call [simp]:
  "run_state (record_call c m) st = (case run_state m (fst st) of (r, s') \<Rightarrow> (r, s', snd st @ [c]))"
  by (cases st) (simp add: record_call_def)

lemma run_silent [simp]:
  "run_state (silent m) st = (case run_state m (fst st) of (r, s') \<Rightarrow> (r, s', snd st))"
  by (cases st) (simp add: silent_def)

definition traced :: "'s env \<Rightarrow> ('s \<times> call list) env" where
  "traced E =
     \<lparr>Get = \<lambda>kd k. record_call (CGet kd k) (Get E kd k),
      List = \<lambda>kd ns sel. record_call (CList kd ns sel) (List E kd ns sel),
      Create = \<lambda>ob. record_call (CCreate ob) (Create E ob),
      Update = \<lambda>ob. record_call (CUpdate ob) (Update E ob),
      StatusUpdate = \<lambda>ob. record_call (CStatusUpdate ob) (StatusUpdate E ob),
      Delete = \<lambda>ob. record_call (CDelete ob) (Delete E ob),
      SetStatusCondition = \<lambda>cs c. silent (SetStatusCondition E cs c),
      IsNotFound = IsNotFound E, IsNoMatchError = IsNoMatchError E,
      ContainsFinalizer = ContainsFinalizer E, AddFinalizer = AddFinalizer E,
      RemoveFinalizer = RemoveFinalizer E, SetControllerReference = SetControllerReference E,
      DeepEqual = DeepEqual E, SetNestedMap = SetNestedMap E, NestedMap = NestedMap E,
      yamlMarshal = yamlMarshal E, IsZero = IsZero E, Quote = Quote E\<rparr>"

lemma traced_sel [simp]:
  "Get (traced E) kd k = record_call (CGet kd k) (Get E kd k)"
  "List (traced E) kd ns sel = record_call (CList kd ns sel) (List E kd ns sel)"
  "Create (traced E) ob = record_call (CCreate ob) (Create E ob)"
  "Update (traced E) ob = record_call (CUpdate ob) (Update E ob)"
  "StatusUpdate (traced E) ob = record_call (CStatusUpdate ob) (StatusUpdate E ob)"
  "Delete (traced E) ob = record_call (CDelete ob) (Delete E ob)"
  "SetStatusCondition (traced E) cs c = silent (SetStatusCondition E cs c)"
  "IsNotFound (traced E) = IsNotFound E" "IsNoMatchError (traced E) = IsNoMatchError E"
  "ContainsFinalizer (traced E) = ContainsFinalizer E" "AddFinalizer (traced E) = AddFinalizer E"
  "RemoveFinalizer (traced E) = RemoveFinalizer E"
  "SetControllerReference (traced E) = SetControllerReference E"
  "DeepEqual (traced E) = DeepEqual E" "SetNestedMap (traced E) = SetNestedMap E"
  "NestedMap (traced E) = NestedMap E" "yamlMarshal (traced E) = yamlMarshal E"
  "IsZero (traced E) = IsZero E" "Quote (traced E) = Quote E"
  by (simp_all add: traced_def)

lemma emits_record [emits_rules]: "A c \<Longrightarrow> (\<And>r. P r) \<Longrightarrow> emits A (record_call c m) P"
  by (rule emitsI) (auto split: prod.splits)

lemma emits_silent [emits_rules]: "(\<And>r. P r) \<Longrightarrow> emits A (silent m) P"
  by (rule emitsI) (auto split: prod.splits)

text \<open>A recorded call makes that one call; what else holds of it, a plain precondition tells.\<close>

lemma wpt_record: "wpv view m (\<lambda>r w. Q r w [c]) v \<Longrightarrow> wpt view (record_call c m) Q v"
  by (rule wptI) (auto split: prod.splits dest: wpvD)

lemma wpt_silent: "wpv view m (\<lambda>r w. Q r w []) v \<Longrightarrow> wpt view (silent m) Q v"
  by (rule wptI) (auto split: prod.splits dest: wpvD)

lemma getAs_traced: "getAs (traced E) as kd k = record_call (CGet kd k) (getAs E as kd k)"
  by (rule state_ext) (auto simp: getAs_def split: prod.splits)

lemma listAs_traced: "listAs (traced E) as kd ns sel = record_call (CList kd ns sel) (listAs E as kd ns sel)"
  by (rule state_ext) (auto simp: listAs_def split: prod.splits)

end
