(* ===== verification/Api_Server.thy ===== *)
theory Api_Server
  imports Client
begin

text \<open>
  The documented behaviour of the code outside src/ that theorems rely on, as locales over the
  parameter \<open>env\<close>, and the proof rules they give the components.
\<close>

section \<open>What a write does to the store\<close>

text \<open>
  \<open>stored_as sent ob\<close>: \<open>ob\<close> is what the server may persist for \<open>sent\<close>. Server-managed metadata is
  free; the listed fields are the ones the API conventions keep verbatim when a client sets them
  (fields the server defaults or normalises, such as a port's protocol, are not listed). A period or
  threshold of a probe is kept unless it is zero, which the server reads as unset; of a quantity the value
  is kept, to the thousandths the API supports. \<open>status_of\<close> is the status subresource, which a write to the main resource leaves alone.
\<close>

definition meta_kept :: "object_meta \<Rightarrow> object_meta \<Rightarrow> bool" where
  "meta_kept m m' \<longleftrightarrow>
     Name m' = Name m \<and> Namespace m' = Namespace m \<and> Finalizers m' = Finalizers m \<and>
     OwnerReferences m' = OwnerReferences m"

definition probe_kept :: "probe option \<Rightarrow> probe option \<Rightarrow> bool" where
  "probe_kept p p' \<longleftrightarrow>
     (\<forall>pr. p = Some pr \<longrightarrow>
        (\<exists>pr'. p' = Some pr' \<and> pr_TCPSocketPort pr' = pr_TCPSocketPort pr \<and>
           pr_InitialDelaySeconds pr' = pr_InitialDelaySeconds pr \<and>
           (pr_PeriodSeconds pr \<noteq> 0 \<longrightarrow> pr_PeriodSeconds pr' = pr_PeriodSeconds pr) \<and>
           (pr_FailureThreshold pr \<noteq> 0 \<longrightarrow> pr_FailureThreshold pr' = pr_FailureThreshold pr)))"

definition container_kept :: "container \<Rightarrow> container \<Rightarrow> bool" where
  "container_kept c c' \<longleftrightarrow>
     ct_Name c' = ct_Name c \<and> ct_Image c' = ct_Image c \<and> ct_Resources c' = ct_Resources c \<and> ct_EnvFrom c' = ct_EnvFrom c \<and>
     ct_VolumeMounts c' = ct_VolumeMounts c \<and> probe_kept (ct_StartupProbe c) (ct_StartupProbe c') \<and>
     probe_kept (ct_LivenessProbe c) (ct_LivenessProbe c') \<and> probe_kept (ct_ReadinessProbe c) (ct_ReadinessProbe c') \<and>
     map (\<lambda>p. (cp_Name p, cp_ContainerPort p)) (ct_Ports c') =
       map (\<lambda>p. (cp_Name p, cp_ContainerPort p)) (ct_Ports c)"

definition template_kept :: "pod_template \<Rightarrow> pod_template \<Rightarrow> bool" where
  "template_kept t t' \<longleftrightarrow>
     entries (pt_Labels t') = entries (pt_Labels t) \<and>
     entries (pt_Annotations t') = entries (pt_Annotations t) \<and>
     entries (pt_NodeSelector t') = entries (pt_NodeSelector t) \<and>
     pt_Tolerations t' = pt_Tolerations t \<and> pt_Volumes t' = pt_Volumes t \<and>
     list_all2 container_kept (pt_Containers t) (pt_Containers t')"

definition kept_with :: "(kobject \<Rightarrow> 'a option) \<Rightarrow> ('a \<Rightarrow> bool) \<Rightarrow> kobject \<Rightarrow> bool" where
  "kept_with as P ob = (case as ob of None \<Rightarrow> False | Some x \<Rightarrow> P x)"

definition stored_as :: "kobject \<Rightarrow> kobject \<Rightarrow> bool" where
  "stored_as sent ob \<longleftrightarrow>
     meta_kept (obj_meta sent) (obj_meta ob) \<and>
     (case sent of
        ClusterObj c \<Rightarrow> kept_with asCluster (\<lambda>c'. c_Spec c' = c_Spec c) ob
      | ClassObj k \<Rightarrow> kept_with asClass (\<lambda>k'. k_Spec k' = k_Spec k) ob
      | PipelineObj p \<Rightarrow> kept_with asPipeline (\<lambda>p'. p_Spec p' = p_Spec p) ob
      | ConfigMapObj m \<Rightarrow> kept_with asConfigMap (\<lambda>m'. entries (cm_Data m') = entries (cm_Data m)) ob
      | DeploymentObj d \<Rightarrow>
          kept_with asDeployment
            (\<lambda>d'. (d_Replicas d \<noteq> None \<longrightarrow> d_Replicas d' = d_Replicas d) \<and>
                 entries (d_Selector d') = entries (d_Selector d) \<and>
                 template_kept (d_Template d) (d_Template d')) ob
      | ServiceObj v \<Rightarrow>
          kept_with asService
            (\<lambda>v'. entries (sv_Selector v') = entries (sv_Selector v) \<and>
                 map (\<lambda>p. (sp_Name p, sp_Port p)) (sv_Ports v') =
                   map (\<lambda>p. (sp_Name p, sp_Port p)) (sv_Ports v) \<and>
                 (sv_ClusterIP v \<noteq> [] \<longrightarrow> sv_ClusterIP v' = sv_ClusterIP v) \<and>
                 sv_PublishNotReadyAddresses v' = sv_PublishNotReadyAddresses v) ob
      | HPAObj h \<Rightarrow>
          kept_with asHPA
            (\<lambda>h'. hs_ScaleTargetRef (hp_Spec h') = hs_ScaleTargetRef (hp_Spec h) \<and>
                 (hs_MinReplicas (hp_Spec h) \<noteq> None \<longrightarrow>
                    hs_MinReplicas (hp_Spec h') = hs_MinReplicas (hp_Spec h)) \<and>
                 hs_MaxReplicas (hp_Spec h') = hs_MaxReplicas (hp_Spec h) \<and>
                 (hs_Metrics (hp_Spec h) \<noteq> [] \<longrightarrow> hs_Metrics (hp_Spec h') = hs_Metrics (hp_Spec h))) ob
      | ServiceMonitorObj m \<Rightarrow> kept_with asServiceMonitor (\<lambda>m'. sm_Spec m' = sm_Spec m) ob
      | PodObj q \<Rightarrow> kept_with asPod (\<lambda>q'. True) ob)"

definition status_of :: "kobject \<Rightarrow> (DataPrepperClusterStatus + DataPrepperPipelineStatus) option" where
  "status_of ob =
     (case ob of ClusterObj c \<Rightarrow> Some (Inl (c_Stat c)) | PipelineObj p \<Rightarrow> Some (Inr (p_Stat p)) | _ \<Rightarrow> None)"

definition create_effect :: "kobject \<Rightarrow> store \<Rightarrow> store \<Rightarrow> bool" where
  "create_effect ob v v' \<longleftrightarrow>
     v (obj_key ob) = None \<and>
     (\<exists>ob'. stored_as ob ob' \<and> DeletionTimestamp (obj_meta ob') = None \<and> v' = v(obj_key ob \<mapsto> ob'))"

text \<open>
  An update that leaves an object which is being deleted without finalizers removes it.
\<close>

definition update_effect :: "kobject \<Rightarrow> store \<Rightarrow> store \<Rightarrow> bool" where
  "update_effect ob v v' \<longleftrightarrow>
     (\<exists>old. v (obj_key ob) = Some old \<and>
        (if DeletionTimestamp (obj_meta old) \<noteq> None \<and> Finalizers (obj_meta ob) = []
         then v' = v(obj_key ob := None)
         else \<exists>ob'. stored_as ob ob' \<and> status_of ob' = status_of old \<and>
                DeletionTimestamp (obj_meta ob') = DeletionTimestamp (obj_meta old) \<and>
                v' = v(obj_key ob \<mapsto> ob')))"

definition status_update_effect :: "kobject \<Rightarrow> store \<Rightarrow> store \<Rightarrow> bool" where
  "status_update_effect ob v v' \<longleftrightarrow>
     (\<exists>old ob'. v (obj_key ob) = Some old \<and> stored_as old ob' \<and> status_of ob' = status_of ob \<and>
        Generation (obj_meta ob') = Generation (obj_meta old) \<and>
        DeletionTimestamp (obj_meta ob') = DeletionTimestamp (obj_meta old) \<and>
        v' = v(obj_key ob \<mapsto> ob'))"

definition delete_effect :: "kobject \<Rightarrow> store \<Rightarrow> store \<Rightarrow> bool" where
  "delete_effect ob v v' \<longleftrightarrow>
     (\<exists>old. v (obj_key ob) = Some old \<and>
        (if Finalizers (obj_meta old) = [] then v' = v(obj_key ob := None)
         else \<exists>ob'. stored_as old ob' \<and> DeletionTimestamp (obj_meta ob') \<noteq> None \<and>
                v' = v(obj_key ob \<mapsto> ob')))"

text \<open>A write that reports success had its effect; one that reports an error may have had it.\<close>

definition write_result :: "(store \<Rightarrow> store \<Rightarrow> bool) \<Rightarrow> store \<Rightarrow> goerror + unit \<Rightarrow> store \<Rightarrow> bool" where
  "write_result eff v r v' \<longleftrightarrow> eff v v' \<or> (v' = v \<and> (\<exists>e. r = Inl e))"

definition get_result :: "'s env \<Rightarrow> store \<Rightarrow> object_key \<Rightarrow> goerror + kobject \<Rightarrow> bool" where
  "get_result E v k r \<longleftrightarrow>
     (case r of Inr ob \<Rightarrow> v k = Some ob | Inl e \<Rightarrow> IsNotFound E e \<longrightarrow> v k = None)"

lemma get_result_traced [simp]: "get_result (traced E) v k r = get_result E v k r"
  by (simp add: get_result_def split: sum.split)

definition labels_match :: "strmap \<Rightarrow> gomap \<Rightarrow> bool" where
  "labels_match sel m \<longleftrightarrow> fmpred (\<lambda>k x. fmlookup (entries m) k = Some x) sel"

text \<open>A list holds every object of the kind and namespace with the labels once, in any order.\<close>

definition list_result :: "store \<Rightarrow> kind \<Rightarrow> string \<Rightarrow> strmap \<Rightarrow> kobject list \<Rightarrow> bool" where
  "list_result v kd ns sel obs \<longleftrightarrow>
     distinct (map obj_key obs) \<and>
     (\<forall>ob. ob \<in> set obs \<longleftrightarrow>
        (\<exists>n. v (kd, ns, n) = Some ob) \<and> labels_match sel (MetaLabels (obj_meta ob)))"

text \<open>The contract of \<^verbatim>\<open>meta.SetStatusCondition\<close> for a condition without a transition time.\<close>

fun set_condition :: "time \<Rightarrow> condition list \<Rightarrow> condition \<Rightarrow> condition list" where
  "set_condition now [] c = [c\<lparr>c_LastTransitionTime := now\<rparr>]"
| "set_condition now (d # ds) c =
     (if c_Type d = c_Type c
      then c\<lparr>c_LastTransitionTime :=
               (if c_Status d = c_Status c then c_LastTransitionTime d else now)\<rparr> # ds
      else d # set_condition now ds c)"

text \<open>
  A list of conditions holds a condition when the entry of its type is that condition, up to the time
  of its last transition. Setting a condition makes it hold, keeps those of other types, and changes
  nothing when it already holds.
\<close>

definition holds_condition :: "condition list \<Rightarrow> condition \<Rightarrow> bool" where
  "holds_condition cs c \<longleftrightarrow>
     (\<exists>d. List.find (\<lambda>d. c_Type d = c_Type c) cs = Some d \<and>
          d\<lparr>c_LastTransitionTime := c_LastTransitionTime c\<rparr> = c)"

lemma holds_set_condition: "holds_condition (set_condition now cs c) c"
  by (induction cs) (auto simp: holds_condition_def)

lemma condition_upto_time:
  "d\<lparr>c_LastTransitionTime := t\<rparr> = c \<Longrightarrow> c_Status d = c_Status c \<and> c\<lparr>c_LastTransitionTime := c_LastTransitionTime d\<rparr> = d"
  by auto

lemma set_condition_idem: "holds_condition cs c \<Longrightarrow> set_condition now cs c = cs"
  by (induction cs) (auto simp: holds_condition_def split: if_splits dest: condition_upto_time)

lemma holds_condition_other:
  "c_Type c \<noteq> c_Type d \<Longrightarrow> holds_condition cs c \<Longrightarrow> holds_condition (set_condition now cs d) c"
  by (induction cs) (auto simp: holds_condition_def split: if_splits)

definition controllerRef :: "DataPrepperCluster \<Rightarrow> owner_reference" where
  "controllerRef c = \<lparr>or_Kind = ''DataPrepperCluster'', or_Name = Name (c_Meta c), or_Controller = True\<rparr>"

definition owned_by :: "DataPrepperCluster \<Rightarrow> kobject \<Rightarrow> kobject" where
  "owned_by c ob = set_meta ((obj_meta ob)\<lparr>OwnerReferences := [controllerRef c]\<rparr>) ob"

fun semantic_equal :: "any \<Rightarrow> any \<Rightarrow> bool" where
  "semantic_equal (AnyStringMap a) (AnyStringMap b) \<longleftrightarrow> entries a = entries b"
| "semantic_equal x y \<longleftrightarrow> x = y"

text \<open>
  In a settled store an object that is being deleted holds a finalizer: the server removes it with
  the last one.
\<close>

definition settled :: "store \<Rightarrow> bool" where
  "settled v \<longleftrightarrow> (\<forall>key ob. v key = Some ob \<longrightarrow> DeletionTimestamp (obj_meta ob) \<noteq> None \<longrightarrow>
                  Finalizers (obj_meta ob) \<noteq> [])"

text \<open>The data of a stored ConfigMap and the pod annotations of a stored Deployment.\<close>

definition config_data :: "store \<Rightarrow> string \<Rightarrow> string \<Rightarrow> strmap option" where
  "config_data v ns n =
     map_option (\<lambda>m. entries (cm_Data m)) (Option.bind (v (KConfigMap, ns, n)) asConfigMap)"

definition pod_annotations :: "store \<Rightarrow> string \<Rightarrow> string \<Rightarrow> strmap option" where
  "pod_annotations v ns n =
     map_option (\<lambda>d. entries (pt_Annotations (d_Template d)))
       (Option.bind (v (KDeployment, ns, n)) asDeployment)"

text \<open>The pipelines of a namespace, and its pods with given labels.\<close>

definition stored_pipelines :: "store \<Rightarrow> string \<Rightarrow> DataPrepperPipeline set" where
  "stored_pipelines v ns = {p. \<exists>n. v (KPipeline, ns, n) = Some (PipelineObj p)}"

definition stored_pods :: "store \<Rightarrow> string \<Rightarrow> strmap \<Rightarrow> pod set" where
  "stored_pods v ns sel =
     {q. (\<exists>n. v (KPod, ns, n) = Some (PodObj q)) \<and> labels_match sel (MetaLabels (pod_Meta q))}"

definition pipeline_names :: "DataPrepperPipeline list \<Rightarrow> string list" where
  "pipeline_names items = map (\<lambda>p. Name (p_Meta p)) items"

lemma kept_with_iff [simp]: "kept_with as P ob \<longleftrightarrow> (\<exists>x. as ob = Some x \<and> P x)"
  by (auto simp: kept_with_def split: option.split)

lemma config_data_Some [simp]:
  "v (KConfigMap, ns, n) = Some (ConfigMapObj m) \<Longrightarrow> config_data v ns n = Some (entries (cm_Data m))"
  by (simp add: config_data_def)

lemma pod_annotations_Some [simp]:
  "v (KDeployment, ns, n) = Some (DeploymentObj d) \<Longrightarrow>
     pod_annotations v ns n = Some (entries (pt_Annotations (d_Template d)))"
  by (simp add: pod_annotations_def)

text \<open>Stores that agree on a key agree on what is read there.\<close>

lemma config_data_cong: "w (KConfigMap, ns, n) = v (KConfigMap, ns, n) \<Longrightarrow> config_data w ns n = config_data v ns n"
  by (simp add: config_data_def)

lemma pod_annotations_cong:
  "w (KDeployment, ns, n) = v (KDeployment, ns, n) \<Longrightarrow> pod_annotations w ns n = pod_annotations v ns n"
  by (simp add: pod_annotations_def)

text \<open>In a settled store, an update that keeps the finalizers replaces the object.\<close>

lemma update_keptE:
  assumes "update_effect ob v w" "settled v" "v (obj_key ob) = Some old"
    "Finalizers (obj_meta ob) = Finalizers (obj_meta old)"
  obtains ob' where "stored_as ob ob'" "status_of ob' = status_of old"
    "DeletionTimestamp (obj_meta ob') = DeletionTimestamp (obj_meta old)" "w = v(obj_key ob \<mapsto> ob')"
proof -
  have "DeletionTimestamp (obj_meta old) = None \<or> Finalizers (obj_meta ob) \<noteq> []"
    using assms unfolding settled_def by metis
  then show ?thesis using assms(1,3) that by (auto simp: update_effect_def)
qed

lemma stored_as_Finalizers: "stored_as ob ob' \<Longrightarrow> Finalizers (obj_meta ob') = Finalizers (obj_meta ob)"
  by (simp add: stored_as_def meta_kept_def)

text \<open>Every write keeps the store settled.\<close>

lemma settled_upd:
  "settled v \<Longrightarrow> (DeletionTimestamp (obj_meta ob) \<noteq> None \<Longrightarrow> Finalizers (obj_meta ob) \<noteq> [])
    \<Longrightarrow> settled (v(key \<mapsto> ob))"
  by (auto simp: settled_def)

lemma settled_del: "settled v \<Longrightarrow> settled (v(key := None))"
  by (auto simp: settled_def)

lemma update_settled:
  assumes eff: "update_effect ob v w" and v: "settled v"
  shows "settled w"
proof -
  from eff obtain old where old: "v (obj_key ob) = Some old"
    and "if DeletionTimestamp (obj_meta old) \<noteq> None \<and> Finalizers (obj_meta ob) = []
         then w = v(obj_key ob := None)
         else \<exists>ob'. stored_as ob ob' \<and> status_of ob' = status_of old \<and>
                DeletionTimestamp (obj_meta ob') = DeletionTimestamp (obj_meta old) \<and>
                w = v(obj_key ob \<mapsto> ob')"
    unfolding update_effect_def by blast
  then show ?thesis
    by (metis settled_del settled_upd stored_as_Finalizers v)
qed

lemma create_settled: "create_effect ob v w \<Longrightarrow> settled v \<Longrightarrow> settled w"
  by (auto simp: create_effect_def intro!: settled_upd)

lemma delete_settled: "delete_effect ob v w \<Longrightarrow> settled v \<Longrightarrow> settled w"
  unfolding delete_effect_def by (metis settled_del settled_upd stored_as_Finalizers)

lemma status_update_settled:
  assumes "status_update_effect ob v w" "settled v"
  shows "settled w"
proof -
  from assms(1) obtain old ob' where old: "v (obj_key ob) = Some old" and ob': "stored_as old ob'"
      "DeletionTimestamp (obj_meta ob') = DeletionTimestamp (obj_meta old)" "w = v(obj_key ob \<mapsto> ob')"
    by (auto simp: status_update_effect_def)
  moreover from old assms(2)
  have "DeletionTimestamp (obj_meta old) \<noteq> None \<Longrightarrow> Finalizers (obj_meta old) \<noteq> []"
    unfolding settled_def by blast
  ultimately show ?thesis by (metis assms(2) settled_upd stored_as_Finalizers)
qed

lemma write_settled:
  "write_result eff v r w \<Longrightarrow> settled v \<Longrightarrow> (eff v w \<Longrightarrow> settled v \<Longrightarrow> settled w) \<Longrightarrow> settled w"
  by (auto simp: write_result_def)

text \<open>A write changes the store at the key of its object only.\<close>

definition only_changes :: "object_key set \<Rightarrow> store \<Rightarrow> store \<Rightarrow> bool" where
  "only_changes K v w \<longleftrightarrow> (\<forall>key. key \<notin> K \<longrightarrow> w key = v key)"

lemma only_changes_refl [simp]: "only_changes K v v"
  by (simp add: only_changes_def)

lemma only_changes_trans: "only_changes K u v \<Longrightarrow> only_changes L v w \<Longrightarrow> only_changes (K \<union> L) u w"
  by (simp add: only_changes_def)

lemma only_changes_mono: "only_changes K v w \<Longrightarrow> K \<subseteq> L \<Longrightarrow> only_changes L v w"
  by (auto simp: only_changes_def)

lemma only_changesD: "only_changes K v w \<Longrightarrow> key \<notin> K \<Longrightarrow> w key = v key"
  unfolding only_changes_def by blast

lemma update_only: "update_effect ob v w \<Longrightarrow> only_changes {obj_key ob} v w"
  by (auto simp: update_effect_def only_changes_def split: if_splits)

lemma create_only: "create_effect ob v w \<Longrightarrow> only_changes {obj_key ob} v w"
  by (auto simp: create_effect_def only_changes_def)

lemma status_update_only: "status_update_effect ob v w \<Longrightarrow> only_changes {obj_key ob} v w"
  by (auto simp: status_update_effect_def only_changes_def)

lemma delete_only: "delete_effect ob v w \<Longrightarrow> only_changes {obj_key ob} v w"
  by (auto simp: delete_effect_def only_changes_def split: if_splits)

lemma write_only:
  "write_result eff v r w \<Longrightarrow> (eff v w \<Longrightarrow> only_changes K v w) \<Longrightarrow> only_changes K v w"
  by (auto simp: write_result_def)

lemma write_Inr [simp]: "write_result eff v (Inr x) w \<longleftrightarrow> eff v w"
  by (simp add: write_result_def)

lemma writes_only:
  "write_result (create_effect ob) v r w \<Longrightarrow> only_changes {obj_key ob} v w"
  "write_result (update_effect ob) v r w \<Longrightarrow> only_changes {obj_key ob} v w"
  "write_result (status_update_effect ob) v r w \<Longrightarrow> only_changes {obj_key ob} v w"
  "write_result (delete_effect ob) v r w \<Longrightarrow> only_changes {obj_key ob} v w"
  by (auto intro: write_only create_only update_only status_update_only delete_only)

lemma writes_settled:
  "write_result (create_effect ob) v r w \<Longrightarrow> settled v \<Longrightarrow> settled w"
  "write_result (update_effect ob) v r w \<Longrightarrow> settled v \<Longrightarrow> settled w"
  "write_result (status_update_effect ob) v r w \<Longrightarrow> settled v \<Longrightarrow> settled w"
  "write_result (delete_effect ob) v r w \<Longrightarrow> settled v \<Longrightarrow> settled w"
  by (auto intro: write_settled create_settled update_settled status_update_settled delete_settled)

lemma labels_match_empty [simp]: "labels_match fmempty m"
  by (simp add: labels_match_def)

lemma map_filter_asPipeline:
  "(\<And>ob. ob \<in> set obs \<Longrightarrow> kind_of ob = KPipeline) \<Longrightarrow>
     obs = map PipelineObj (List.map_filter asPipeline obs)"
proof (induction obs)
  case (Cons ob obs)
  then have "kind_of ob = KPipeline" by simp
  then obtain p where "ob = PipelineObj p" by (cases ob) auto
  with Cons show ?case by (simp add: List.map_filter_simps)
qed (simp add: List.map_filter_simps)

lemma map_filter_asPod:
  "(\<And>ob. ob \<in> set obs \<Longrightarrow> kind_of ob = KPod) \<Longrightarrow>
     obs = map PodObj (List.map_filter asPod obs)"
proof (induction obs)
  case (Cons ob obs)
  then have "kind_of ob = KPod" by simp
  then obtain q where "ob = PodObj q" by (cases ob) auto
  with Cons show ?case by (simp add: List.map_filter_simps)
qed (simp add: List.map_filter_simps)

section \<open>The interfaces\<close>

locale apimachinery =
  fixes E :: "'s env"
  assumes IsNotFound_wrap: "Unwrap e = Some e' \<Longrightarrow> IsNotFound E e \<longleftrightarrow> IsNotFound E e'"
    and IsNotFound_own: "Unwrap e = None \<Longrightarrow> IsNotFound E e \<Longrightarrow> \<exists>msg. e = External msg"
    and NoMatch_NotFound: "IsNoMatchError E e \<Longrightarrow> \<not> IsNotFound E e"
    and ContainsFinalizer: "ContainsFinalizer E m f \<longleftrightarrow> f \<in> set (Finalizers m)"
    and AddFinalizer: "AddFinalizer E m f =
          (if f \<in> set (Finalizers m) then m else m\<lparr>Finalizers := Finalizers m @ [f]\<rparr>)"
    and RemoveFinalizer: "RemoveFinalizer E m f = m\<lparr>Finalizers := removeAll f (Finalizers m)\<rparr>"
    and SetControllerReference: "OwnerReferences (obj_meta ob) = [] \<Longrightarrow>
          Namespace (obj_meta ob) = Namespace (c_Meta c) \<Longrightarrow>
          SetControllerReference E c ob = Inr (owned_by c ob)"
    and DeepEqual: "DeepEqual E x y \<longleftrightarrow> semantic_equal x y"
    and SetNestedMap: "SetNestedMap E sm u [''spec''] = Inr (sm\<lparr>sm_Spec := Some u\<rparr>)"
    and NestedMap: "NestedMap E sm [''spec''] = sm_Spec sm"
    and yamlMarshal_error: "yamlMarshal E ds = Inl e \<Longrightarrow> \<not> IsNotFound E e"
    and IsZero_nil: "IsZero E None"
    and IsZero_set: "0 < t \<Longrightarrow> \<not> IsZero E (Some t)"

locale api_server = apimachinery E for E :: "'s env" +
  fixes view :: "'s \<Rightarrow> store"
  assumes view_key: "view s key = Some ob \<Longrightarrow> obj_key ob = key"
    and Get_law: "run_state (Get E kd k) s = (g, s') \<Longrightarrow>
          view s' = view s \<and> get_result E (view s) (kd, k) g"
    and List_law: "run_state (List E kd ns sel) s = (l, s') \<Longrightarrow>
          view s' = view s \<and> (\<forall>obs. l = Inr obs \<longrightarrow> list_result (view s) kd ns sel obs)"
    and Create_law: "run_state (Create E ob) s = (r, s') \<Longrightarrow>
          write_result (create_effect ob) (view s) r (view s')"
    and Update_law: "run_state (Update E ob) s = (r, s') \<Longrightarrow>
          write_result (update_effect ob) (view s) r (view s')"
    and StatusUpdate_law: "run_state (StatusUpdate E ob) s = (r, s') \<Longrightarrow>
          write_result (status_update_effect ob) (view s) r (view s')"
    and Delete_law: "run_state (Delete E ob) s = (r, s') \<Longrightarrow>
          write_result (delete_effect ob) (view s) r (view s')"
    and Condition_law: "run_state (SetStatusCondition E cs c) s = (ds, s') \<Longrightarrow>
          view s' = view s \<and> (\<exists>now. ds = set_condition now cs c)"

text \<open>
  A server that answers: reads succeed or report absence, a create of an absent object and an
  update or a deletion of a present one succeed. \<open>installed\<close> tells which kinds the server knows.
\<close>

locale available_server = api_server E view for E :: "'s env" and view :: "'s \<Rightarrow> store" +
  fixes installed :: "kind \<Rightarrow> bool"
  assumes Get_up: "installed kd \<Longrightarrow> run_state (Get E kd k) s = (g, s') \<Longrightarrow>
          (case g of Inl e \<Rightarrow> IsNotFound E e | Inr ob \<Rightarrow> True)"
    and Get_unknown: "\<not> installed kd \<Longrightarrow> run_state (Get E kd k) s = (g, s') \<Longrightarrow>
          \<exists>e. g = Inl e \<and> IsNoMatchError E e"
    and List_up: "installed kd \<Longrightarrow> run_state (List E kd ns sel) s = (l, s') \<Longrightarrow> \<exists>obs. l = Inr obs"
    and Create_up: "installed (kind_of ob) \<Longrightarrow> view s (obj_key ob) = None \<Longrightarrow>
          run_state (Create E ob) s = (r, s') \<Longrightarrow> r = Inr ()"
    and Update_up: "installed (kind_of ob) \<Longrightarrow> view s (obj_key ob) \<noteq> None \<Longrightarrow>
          run_state (Update E ob) s = (r, s') \<Longrightarrow> r = Inr ()"
    and StatusUpdate_up: "installed (kind_of ob) \<Longrightarrow> view s (obj_key ob) \<noteq> None \<Longrightarrow>
          run_state (StatusUpdate E ob) s = (r, s') \<Longrightarrow> r = Inr ()"
    and Delete_up: "installed (kind_of ob) \<Longrightarrow> view s (obj_key ob) \<noteq> None \<Longrightarrow>
          run_state (Delete E ob) s = (r, s') \<Longrightarrow> r = Inr ()"

section \<open>Rules for the client calls\<close>

context api_server
begin

lemma wpv_Get:
  "(\<And>r. get_result E v (kd, k) r \<Longrightarrow> Q r v) \<Longrightarrow> wpv view (Get E kd k) Q v"
  by (rule wpvI) (auto dest!: Get_law)

lemma wpv_List:
  "(\<And>r. (\<forall>obs. r = Inr obs \<longrightarrow> list_result v kd ns sel obs) \<Longrightarrow> Q r v)
    \<Longrightarrow> wpv view (List E kd ns sel) Q v"
  by (rule wpvI) (auto dest!: List_law)

lemma wpv_Create:
  "(\<And>r w. write_result (create_effect ob) v r w \<Longrightarrow> Q r w) \<Longrightarrow> wpv view (Create E ob) Q v"
  by (rule wpvI) (auto dest!: Create_law)

lemma wpv_Update:
  "(\<And>r w. write_result (update_effect ob) v r w \<Longrightarrow> Q r w) \<Longrightarrow> wpv view (Update E ob) Q v"
  by (rule wpvI) (auto dest!: Update_law)

lemma wpv_StatusUpdate:
  "(\<And>r w. write_result (status_update_effect ob) v r w \<Longrightarrow> Q r w)
    \<Longrightarrow> wpv view (StatusUpdate E ob) Q v"
  by (rule wpvI) (auto dest!: StatusUpdate_law)

lemma wpv_Delete:
  "(\<And>r w. write_result (delete_effect ob) v r w \<Longrightarrow> Q r w) \<Longrightarrow> wpv view (Delete E ob) Q v"
  by (rule wpvI) (auto dest!: Delete_law)

lemma wpv_Condition:
  "(\<And>now. Q (set_condition now cs c) v) \<Longrightarrow> wpv view (SetStatusCondition E cs c) Q v"
  by (rule wpvI) (auto dest!: Condition_law)

text \<open>A typed read: the value found, or an error, which is a not-found error only when absent.\<close>

lemma wpv_getAs:
  assumes as: "\<And>ob. as ob = None \<longleftrightarrow> kind_of ob \<noteq> kd"
    and found: "\<And>ob x. v (kd, k) = Some ob \<Longrightarrow> obj_key ob = (kd, k) \<Longrightarrow> as ob = Some x \<Longrightarrow> Q (Inr x) v"
    and err: "\<And>e. (IsNotFound E e \<Longrightarrow> v (kd, k) = None) \<Longrightarrow> Q (Inl e) v"
  shows "wpv view (getAs E as kd k) Q v"
proof (rule wpvI)
  fix s r s'
  assume v: "view s = v" and run: "run_state (getAs E as kd k) s = (r, s')"
  then obtain q where q: "run_state (Get E kd k) s = (q, s')" and r: "r = decode as q"
    by (auto simp: getAs_def split: prod.splits)
  from Get_law [OF q] v have v': "view s' = v" and res: "get_result E v (kd, k) q" by auto
  show "Q r (view s')"
  proof (cases q)
    case (Inl e)
    with res have "IsNotFound E e \<Longrightarrow> v (kd, k) = None" by (simp add: get_result_def)
    then show ?thesis using err Inl r v' by (simp add: decode_def)
  next
    case (Inr ob)
    with res have ob: "v (kd, k) = Some ob" by (simp add: get_result_def)
    with v have key: "obj_key ob = (kd, k)" by (blast intro: view_key)
    then have "kind_of ob = kd" by (rule obj_key_kind)
    with as [of ob] obtain x where "as ob = Some x" by fastforce
    then show ?thesis using found [OF ob key] Inr r v' by (simp add: decode_def)
  qed
qed

text \<open>A typed list: the values of all stored objects of that kind, namespace and labels.\<close>

lemma wpv_listAs:
  assumes as: "\<And>ob. as ob = None \<longleftrightarrow> kind_of ob \<noteq> kd"
    and ok: "\<And>obs. list_result v kd ns sel obs \<Longrightarrow> Q (Inr (List.map_filter as obs)) v"
    and err: "\<And>e. Q (Inl e) v"
  shows "wpv view (listAs E as kd ns sel) Q v"
proof (rule wpvI)
  fix s r s'
  assume v: "view s = v" and run: "run_state (listAs E as kd ns sel) s = (r, s')"
  then obtain q where q: "run_state (List E kd ns sel) s = (q, s')"
    and r: "r = (case q of Inl e \<Rightarrow> Inl e
             | Inr obs \<Rightarrow> if list_all (\<lambda>ob. as ob \<noteq> None) obs then Inr (List.map_filter as obs)
                          else Inl (Panic ''object kind''))"
    by (auto simp: listAs_def split: prod.splits)
  from List_law [OF q] v have v': "view s' = v"
    and res: "\<And>obs. q = Inr obs \<Longrightarrow> list_result v kd ns sel obs" by auto
  show "Q r (view s')"
  proof (cases q)
    case (Inl e)
    then show ?thesis using err r v' by simp
  next
    case (Inr obs)
    with res have lr: "list_result v kd ns sel obs" by simp
    then have "kind_of ob = kd" if "ob \<in> set obs" for ob
      using that view_key [of s] v by (fastforce simp: list_result_def obj_key_def)
    then have "list_all (\<lambda>ob. as ob \<noteq> None) obs" using as by (simp add: list_all_iff)
    then show ?thesis using ok [OF lr] Inr r v' by simp
  qed
qed

lemmas wpv_getCluster = wpv_getAs [where as = asCluster and kd = KCluster, OF as_None(1)]
lemmas wpv_getClass = wpv_getAs [where as = asClass and kd = KClass, OF as_None(2)]
lemmas wpv_getPipeline = wpv_getAs [where as = asPipeline and kd = KPipeline, OF as_None(3)]
lemmas wpv_getConfigMap = wpv_getAs [where as = asConfigMap and kd = KConfigMap, OF as_None(4)]
lemmas wpv_getDeployment = wpv_getAs [where as = asDeployment and kd = KDeployment, OF as_None(5)]
lemmas wpv_getService = wpv_getAs [where as = asService and kd = KService, OF as_None(6)]
lemmas wpv_getHPA = wpv_getAs [where as = asHPA and kd = KHPA, OF as_None(7)]
lemmas wpv_getServiceMonitor =
  wpv_getAs [where as = asServiceMonitor and kd = KServiceMonitor, OF as_None(8)]

lemma listed_kind:
  assumes "list_result (view s) kd ns sel obs" "ob \<in> set obs"
  shows "kind_of ob = kd" "Namespace (obj_meta ob) = ns"
proof -
  from assms obtain n where "view s (kd, ns, n) = Some ob" by (auto simp: list_result_def)
  then have "obj_key ob = (kd, ns, n)" by (rule view_key)
  then show "kind_of ob = kd" "Namespace (obj_meta ob) = ns" by (auto simp: obj_key_def)
qed

lemma listed_pipelines:
  assumes lr: "list_result (view s) KPipeline ns fmempty obs"
  shows "set (List.map_filter asPipeline obs) = stored_pipelines (view s) ns"
    and "distinct (pipeline_names (List.map_filter asPipeline obs))"
proof -
  let ?ps = "List.map_filter asPipeline obs"
  have obs: "obs = map PipelineObj ?ps"
    by (rule map_filter_asPipeline) (rule listed_kind [OF lr])
  have mem: "p \<in> set ?ps \<longleftrightarrow> PipelineObj p \<in> set obs" for p
    by (subst (2) obs) auto
  then show "set ?ps = stored_pipelines (view s) ns"
    using lr by (auto simp: list_result_def stored_pipelines_def)
  have ns: "Namespace (p_Meta p) = ns" if "p \<in> set ?ps" for p
    using listed_kind(2) [OF lr] that mem by fastforce
  have "distinct (map obj_key (map PipelineObj ?ps))"
    using lr by (subst obs [symmetric]) (simp add: list_result_def)
  then have inj: "inj_on (\<lambda>p. (KPipeline, Namespace (p_Meta p), Name (p_Meta p))) (set ?ps)"
    and "distinct ?ps" by (auto simp: distinct_map comp_def)
  have "inj_on (\<lambda>p. Name (p_Meta p)) (set ?ps)"
    using inj ns by (auto simp: inj_on_def)
  with \<open>distinct ?ps\<close> show "distinct (pipeline_names ?ps)"
    by (simp add: pipeline_names_def distinct_map)
qed

lemma listed_pods:
  assumes lr: "list_result (view s) KPod ns sel obs"
  shows "set (List.map_filter asPod obs) = stored_pods (view s) ns sel"
proof -
  have obs: "obs = map PodObj (List.map_filter asPod obs)"
    by (rule map_filter_asPod) (rule listed_kind [OF lr])
  have "q \<in> set (List.map_filter asPod obs) \<longleftrightarrow> PodObj q \<in> set obs" for q
    by (subst (2) obs) auto
  then show ?thesis using lr by (auto simp: list_result_def stored_pods_def)
qed

lemma wpv_listPipelines:
  assumes "\<And>items. set items = stored_pipelines v ns \<Longrightarrow> distinct (pipeline_names items) \<Longrightarrow>
             Q (Inr items) v"
    and "\<And>e. Q (Inl e) v"
  shows "wpv view (listAs E asPipeline KPipeline ns fmempty) Q v"
  unfolding wpv_def
proof (intro allI impI)
  fix s assume "view s = v"
  have "wpv view (listAs E asPipeline KPipeline ns fmempty) Q (view s)"
    by (rule wpv_listAs) (use assms listed_pipelines \<open>view s = v\<close> in auto)
  with \<open>view s = v\<close>
  show "case run_state (listAs E asPipeline KPipeline ns fmempty) s of (r, s') \<Rightarrow> Q r (view s')"
    by (simp add: wpv_def)
qed

lemma wpv_listPods:
  assumes "\<And>items. set items = stored_pods v ns sel \<Longrightarrow> Q (Inr items) v" and "\<And>e. Q (Inl e) v"
  shows "wpv view (listAs E asPod KPod ns sel) Q v"
  unfolding wpv_def
proof (intro allI impI)
  fix s assume "view s = v"
  have "wpv view (listAs E asPod KPod ns sel) Q (view s)"
    by (rule wpv_listAs) (use assms listed_pods \<open>view s = v\<close> in auto)
  with \<open>view s = v\<close>
  show "case run_state (listAs E asPod KPod ns sel) s of (r, s') \<Rightarrow> Q r (view s')"
    by (simp add: wpv_def)
qed

lemmas wpv_gets =
  wpv_getCluster wpv_getClass wpv_getPipeline wpv_getConfigMap wpv_getDeployment wpv_getService
  wpv_getHPA wpv_getServiceMonitor
lemmas wpv_writes = wpv_Create wpv_Update wpv_StatusUpdate wpv_Delete

text \<open>Recording the calls keeps the laws.\<close>

lemma api_server_traced: "api_server (traced E) (view \<circ> fst)"
proof (unfold_locales, goal_cases)
  case (1 e e') then show ?case by (simp add: IsNotFound_wrap)
next
  case (2 e) then show ?case by (simp add: IsNotFound_own)
next
  case (3 e) then show ?case by (simp add: NoMatch_NotFound)
next
  case (4 m f) then show ?case by (simp add: ContainsFinalizer)
next
  case (5 m f) then show ?case by (simp add: AddFinalizer)
next
  case (6 m f) then show ?case by (simp add: RemoveFinalizer)
next
  case (7 ob c) then show ?case by (simp add: SetControllerReference)
next
  case (8 x y) then show ?case by (simp add: DeepEqual)
next
  case (9 sm x) then show ?case by (simp add: SetNestedMap)
next
  case (10 sm) then show ?case by (simp add: NestedMap)
next
  case (11 ds e) then show ?case by (simp add: yamlMarshal_error)
next
  case 12 then show ?case by (simp add: IsZero_nil)
next
  case (13 t) then show ?case by (simp add: IsZero_set)
next
  case (14 s k ob) then show ?case by (simp add: view_key)
next
  case (15 kd k s r s')
  then show ?case by (auto split: prod.splits dest!: Get_law)
next
  case (16 kd ns sel s r s') then show ?case by (auto split: prod.splits dest!: List_law)
next
  case (17 ob s r s') then show ?case by (auto split: prod.splits dest!: Create_law)
next
  case (18 ob s r s') then show ?case by (auto split: prod.splits dest!: Update_law)
next
  case (19 ob s r s') then show ?case by (auto split: prod.splits dest!: StatusUpdate_law)
next
  case (20 ob s r s') then show ?case by (auto split: prod.splits dest!: Delete_law)
next
  case (21 cs c s r s') then show ?case by (auto split: prod.splits dest!: Condition_law)
qed

end

section \<open>Rules for a server that answers\<close>

context available_server
begin

lemma up_getAs:
  assumes inst: "installed kd"
    and as: "\<And>ob. as ob = None \<longleftrightarrow> kind_of ob \<noteq> kd"
    and found: "\<And>ob x. v (kd, k) = Some ob \<Longrightarrow> obj_key ob = (kd, k) \<Longrightarrow> as ob = Some x \<Longrightarrow> Q (Inr x) v"
    and absent: "\<And>e. IsNotFound E e \<Longrightarrow> v (kd, k) = None \<Longrightarrow> Q (Inl e) v"
  shows "wpv view (getAs E as kd k) Q v"
proof -
  have kinds: "wpv view (getAs E as kd k) (\<lambda>r w. w = v \<and>
      (case r of Inl e \<Rightarrow> IsNotFound E e \<and> v (kd, k) = None
       | Inr x \<Rightarrow> \<exists>ob. v (kd, k) = Some ob \<and> obj_key ob = (kd, k) \<and> as ob = Some x)) v"
  proof (rule wpvI)
    fix s r s'
    assume v: "view s = v" and run: "run_state (getAs E as kd k) s = (r, s')"
    then obtain q where q: "run_state (Get E kd k) s = (q, s')" and r: "r = decode as q"
      by (auto simp: getAs_def split: prod.splits)
    have "view s' = v" and res: "get_result E v (kd, k) q" using Get_law [OF q] v by auto
    moreover have "case r of Inl e \<Rightarrow> IsNotFound E e \<and> v (kd, k) = None
        | Inr x \<Rightarrow> \<exists>ob. v (kd, k) = Some ob \<and> obj_key ob = (kd, k) \<and> as ob = Some x"
    proof (cases q)
      case (Inl e)
      with Get_up [OF inst q] res r show ?thesis by (auto simp: decode_def get_result_def)
    next
      case (Inr ob)
      with res have ob: "v (kd, k) = Some ob" by (simp add: get_result_def)
      with v have key: "obj_key ob = (kd, k)" by (blast intro: view_key)
      then have "as ob \<noteq> None" using as [of ob] by (simp add: obj_key_kind)
      with Inr r ob key show ?thesis by (auto simp: decode_def)
    qed
    ultimately show "view s' = v \<and> (case r of Inl e \<Rightarrow> IsNotFound E e \<and> v (kd, k) = None
       | Inr x \<Rightarrow> \<exists>ob. v (kd, k) = Some ob \<and> obj_key ob = (kd, k) \<and> as ob = Some x)" by simp
  qed
  show ?thesis
    by (rule wpv_mono [OF kinds]) (auto split: sum.splits intro: found absent)
qed

lemmas up_getCluster = up_getAs [where as = asCluster and kd = KCluster, OF _ as_None(1)]
lemmas up_getClass = up_getAs [where as = asClass and kd = KClass, OF _ as_None(2)]
lemmas up_getPipeline = up_getAs [where as = asPipeline and kd = KPipeline, OF _ as_None(3)]
lemmas up_getConfigMap = up_getAs [where as = asConfigMap and kd = KConfigMap, OF _ as_None(4)]
lemmas up_getDeployment = up_getAs [where as = asDeployment and kd = KDeployment, OF _ as_None(5)]
lemmas up_getService = up_getAs [where as = asService and kd = KService, OF _ as_None(6)]
lemmas up_getHPA = up_getAs [where as = asHPA and kd = KHPA, OF _ as_None(7)]
lemmas up_getServiceMonitor =
  up_getAs [where as = asServiceMonitor and kd = KServiceMonitor, OF _ as_None(8)]

lemma up_listAs:
  assumes inst: "installed kd" and as: "\<And>ob. as ob = None \<longleftrightarrow> kind_of ob \<noteq> kd"
  shows "wpv view (listAs E as kd ns sel)
           (\<lambda>r w. w = v \<and> (\<exists>s obs. view s = v \<and> list_result (view s) kd ns sel obs \<and> r = Inr (List.map_filter as obs))) v"
proof (rule wpvI)
  fix s r s'
  assume v: "view s = v" and run: "run_state (listAs E as kd ns sel) s = (r, s')"
  then obtain q where q: "run_state (List E kd ns sel) s = (q, s')"
    and r: "r = (case q of Inl e \<Rightarrow> Inl e
             | Inr obs \<Rightarrow> if list_all (\<lambda>ob. as ob \<noteq> None) obs then Inr (List.map_filter as obs)
                          else Inl (Panic ''object kind''))"
    by (auto simp: listAs_def split: prod.splits)
  from List_up [OF inst q] obtain obs where obs: "q = Inr obs" ..
  with List_law [OF q] have v': "view s' = view s" and lr: "list_result (view s) kd ns sel obs"
    by auto
  have "list_all (\<lambda>ob. as ob \<noteq> None) obs"
    using listed_kind(1) [OF lr] as by (simp add: list_all_iff)
  then have "r = Inr (List.map_filter as obs)" using obs r by simp
  then show "view s' = v \<and> (\<exists>s obs. view s = v \<and> list_result (view s) kd ns sel obs \<and> r = Inr (List.map_filter as obs))"
    using v v' lr by auto
qed

lemma up_listPipelines:
  assumes "installed KPipeline"
    and ok: "\<And>items. set items = stored_pipelines v ns \<Longrightarrow> distinct (pipeline_names items) \<Longrightarrow>
             Q (Inr items) v"
  shows "wpv view (listAs E asPipeline KPipeline ns fmempty) Q v"
  by (rule wpv_mono [OF up_listAs [OF assms(1) as_None(3)]]) (use ok listed_pipelines in blast)

lemma up_listPods:
  assumes "installed KPod" and ok: "\<And>items. set items = stored_pods v ns sel \<Longrightarrow> Q (Inr items) v"
  shows "wpv view (listAs E asPod KPod ns sel) Q v"
  by (rule wpv_mono [OF up_listAs [OF assms(1) as_None(9)]]) (use ok listed_pods in blast)

lemma up_Create:
  assumes "installed (kind_of ob)" "v (obj_key ob) = None"
    and "\<And>w. create_effect ob v w \<Longrightarrow> Q (Inr ()) w"
  shows "wpv view (Create E ob) Q v"
proof (rule wpvI)
  fix s r s'
  assume v: "view s = v" and run: "run_state (Create E ob) s = (r, s')"
  have "r = Inr ()" by (rule Create_up [OF assms(1) _ run]) (simp add: v assms(2))
  moreover have "write_result (create_effect ob) v r (view s')" using Create_law [OF run] v by simp
  ultimately show "Q r (view s')" using assms(3) by (simp add: write_result_def)
qed

lemma up_Update:
  assumes "installed (kind_of ob)" "v (obj_key ob) \<noteq> None"
    and "\<And>w. update_effect ob v w \<Longrightarrow> Q (Inr ()) w"
  shows "wpv view (Update E ob) Q v"
proof (rule wpvI)
  fix s r s'
  assume v: "view s = v" and run: "run_state (Update E ob) s = (r, s')"
  have "r = Inr ()" by (rule Update_up [OF assms(1) _ run]) (simp add: v assms(2))
  moreover have "write_result (update_effect ob) v r (view s')" using Update_law [OF run] v by simp
  ultimately show "Q r (view s')" using assms(3) by (simp add: write_result_def)
qed

lemma up_StatusUpdate:
  assumes "installed (kind_of ob)" "v (obj_key ob) \<noteq> None"
    and "\<And>w. status_update_effect ob v w \<Longrightarrow> Q (Inr ()) w"
  shows "wpv view (StatusUpdate E ob) Q v"
proof (rule wpvI)
  fix s r s'
  assume v: "view s = v" and run: "run_state (StatusUpdate E ob) s = (r, s')"
  have "r = Inr ()" by (rule StatusUpdate_up [OF assms(1) _ run]) (simp add: v assms(2))
  moreover have "write_result (status_update_effect ob) v r (view s')" using StatusUpdate_law [OF run] v by simp
  ultimately show "Q r (view s')" using assms(3) by (simp add: write_result_def)
qed

lemma up_Delete:
  assumes "installed (kind_of ob)" "v (obj_key ob) \<noteq> None"
    and "\<And>w. delete_effect ob v w \<Longrightarrow> Q (Inr ()) w"
  shows "wpv view (Delete E ob) Q v"
proof (rule wpvI)
  fix s r s'
  assume v: "view s = v" and run: "run_state (Delete E ob) s = (r, s')"
  have "r = Inr ()" by (rule Delete_up [OF assms(1) _ run]) (simp add: v assms(2))
  moreover have "write_result (delete_effect ob) v r (view s')" using Delete_law [OF run] v by simp
  ultimately show "Q r (view s')" using assms(3) by (simp add: write_result_def)
qed

end

end
