(* ===== verification/Mem_Server.thy ===== *)
theory Mem_Server
  imports Api_Server "HOL-Library.List_Lexorder" "HOL-Library.Char_ord"
begin

text \<open>
  An environment that has the documented behaviour: an in-memory API server that holds all kinds,
  fills in server-managed metadata, defaults the protocol of Service ports, keeps status
  subresources apart and honours finalizers, together with the library functions. It stands to the
  theorems as the fake client stands to the unit tests: the locales of \<open>Api_Server\<close> are
  interpreted on it, and it runs the operator in every concrete instance of a theorem. The
  argument \<open>inst\<close> tells which kinds are installed.
\<close>

record mem =
  objs :: "kobject list"
  clock :: time

definition mem_view :: "mem \<Rightarrow> store" where
  "mem_view s key = List.find (\<lambda>ob. obj_key ob = key) (objs s)"

fun notFound :: "goerror \<Rightarrow> bool" where
  "notFound (External x) \<longleftrightarrow> x = ''NotFound''"
| "notFound (FailedToGetClass n e) \<longleftrightarrow> notFound e"
| "notFound (InvalidPipelineObject n e) \<longleftrightarrow> notFound e"
| "notFound (CouldNotRender e) \<longleftrightarrow> notFound e"
| "notFound (LookingUpClass n e) \<longleftrightarrow> notFound e"
| "notFound (CouldNotListPipelines e) \<longleftrightarrow> notFound e"
| "notFound (PipelineMustBeObject e) \<longleftrightarrow> notFound e"
| "notFound _ \<longleftrightarrow> False"

definition zeroClusterStatus :: DataPrepperClusterStatus where
  "zeroClusterStatus = \<lparr>ct_Phase = [], ct_ReadyReplicas = 0, ct_Pipelines = 0, ct_ObservedGeneration = 0, ct_Conditions = []\<rparr>"

definition zeroPipelineStatus :: DataPrepperPipelineStatus where
  "zeroPipelineStatus = \<lparr>pt_Phase = [], pt_ObservedGeneration = 0, pt_Conditions = []\<rparr>"

definition default_port :: "service_port \<Rightarrow> service_port" where
  "default_port p = (if sp_Protocol p = [] then p\<lparr>sp_Protocol := ''TCP''\<rparr> else p)"

fun defaulted :: "kobject \<Rightarrow> kobject" where
  "defaulted (ServiceObj v) = ServiceObj (v\<lparr>sv_Ports := map default_port (sv_Ports v)\<rparr>)"
| "defaulted ob = ob"

fun drop_status :: "kobject \<Rightarrow> kobject" where
  "drop_status (ClusterObj c) = ClusterObj (c\<lparr>c_Stat := zeroClusterStatus\<rparr>)"
| "drop_status (PipelineObj p) = PipelineObj (p\<lparr>p_Stat := zeroPipelineStatus\<rparr>)"
| "drop_status ob = ob"

text \<open>\<open>with_status old ob\<close>: \<open>ob\<close> with the status subresource of \<open>old\<close>.\<close>

definition with_status :: "kobject \<Rightarrow> kobject \<Rightarrow> kobject" where
  "with_status old ob =
     (case ob of
        ClusterObj c \<Rightarrow> (case asCluster old of Some c' \<Rightarrow> ClusterObj (c\<lparr>c_Stat := c_Stat c'\<rparr>) | None \<Rightarrow> ob)
      | PipelineObj p \<Rightarrow> (case asPipeline old of Some p' \<Rightarrow> PipelineObj (p\<lparr>p_Stat := p_Stat p'\<rparr>) | None \<Rightarrow> ob)
      | _ \<Rightarrow> ob)"

definition mem_get :: "(kind \<Rightarrow> bool) \<Rightarrow> kind \<Rightarrow> namespaced_name \<Rightarrow> mem \<Rightarrow> (goerror + kobject) \<times> mem" where
  "mem_get inst kd k s =
     (if \<not> inst kd then (Inl (External ''NoMatch''), s)
      else (case mem_view s (kd, k) of None \<Rightarrow> (Inl (External ''NotFound''), s) | Some ob \<Rightarrow> (Inr ob, s)))"

fun firsts :: "kobject list \<Rightarrow> object_key list \<Rightarrow> kobject list" where
  "firsts [] ks = []"
| "firsts (ob # obs) ks =
     (if obj_key ob \<in> set ks then firsts obs ks else ob # firsts obs (obj_key ob # ks))"

definition mem_list :: "(kind \<Rightarrow> bool) \<Rightarrow> kind \<Rightarrow> string \<Rightarrow> strmap \<Rightarrow> mem \<Rightarrow> (goerror + kobject list) \<times> mem" where
  "mem_list inst kd ns sel s =
     (if \<not> inst kd then (Inl (External ''NoMatch''), s)
      else (Inr (filter (\<lambda>ob. kind_of ob = kd \<and> Namespace (obj_meta ob) = ns \<and>
                     labels_match sel (MetaLabels (obj_meta ob))) (firsts (objs s) [])), s))"

definition put :: "kobject \<Rightarrow> mem \<Rightarrow> mem" where
  "put ob s = s\<lparr>objs := ob # filter (\<lambda>x. obj_key x \<noteq> obj_key ob) (objs s)\<rparr>"

definition del :: "object_key \<Rightarrow> mem \<Rightarrow> mem" where
  "del key s = s\<lparr>objs := filter (\<lambda>x. obj_key x \<noteq> key) (objs s)\<rparr>"

definition mem_create :: "(kind \<Rightarrow> bool) \<Rightarrow> kobject \<Rightarrow> mem \<Rightarrow> (goerror + unit) \<times> mem" where
  "mem_create inst ob s =
     (if \<not> inst (kind_of ob) then (Inl (External ''NoMatch''), s)
      else (case mem_view s (obj_key ob) of
              Some _ \<Rightarrow> (Inl (External ''AlreadyExists''), s)
            | None \<Rightarrow> (Inr (), put (drop_status (defaulted (set_meta ((obj_meta ob)\<lparr>Generation := 1, DeletionTimestamp := None\<rparr>) ob))) s)))"

definition mem_update :: "(kind \<Rightarrow> bool) \<Rightarrow> kobject \<Rightarrow> mem \<Rightarrow> (goerror + unit) \<times> mem" where
  "mem_update inst ob s =
     (if \<not> inst (kind_of ob) then (Inl (External ''NoMatch''), s)
      else (case mem_view s (obj_key ob) of
              None \<Rightarrow> (Inl (External ''NotFound''), s)
            | Some old \<Rightarrow>
                if DeletionTimestamp (obj_meta old) \<noteq> None \<and> Finalizers (obj_meta ob) = []
                then (Inr (), del (obj_key ob) s)
                else (Inr (), put (with_status old (defaulted
                       (set_meta ((obj_meta ob)\<lparr>DeletionTimestamp := DeletionTimestamp (obj_meta old)\<rparr>) ob))) s)))"

definition mem_status_update :: "(kind \<Rightarrow> bool) \<Rightarrow> kobject \<Rightarrow> mem \<Rightarrow> (goerror + unit) \<times> mem" where
  "mem_status_update inst ob s =
     (if \<not> inst (kind_of ob) then (Inl (External ''NoMatch''), s)
      else (case mem_view s (obj_key ob) of
              None \<Rightarrow> (Inl (External ''NotFound''), s)
            | Some old \<Rightarrow> (Inr (), put (with_status ob old) s)))"

definition mem_delete :: "(kind \<Rightarrow> bool) \<Rightarrow> kobject \<Rightarrow> mem \<Rightarrow> (goerror + unit) \<times> mem" where
  "mem_delete inst ob s =
     (if \<not> inst (kind_of ob) then (Inl (External ''NoMatch''), s)
      else (case mem_view s (obj_key ob) of
              None \<Rightarrow> (Inl (External ''NotFound''), s)
            | Some old \<Rightarrow>
                if Finalizers (obj_meta old) = [] then (Inr (), del (obj_key ob) s)
                else (Inr (), put (set_meta ((obj_meta old)\<lparr>DeletionTimestamp := Some (clock s)\<rparr>) old) s)))"

text \<open>A JSON value after a key and a colon is a YAML mapping entry.\<close>

definition yaml_entries :: "strmap \<Rightarrow> string" where
  "yaml_entries m =
     concat (map (\<lambda>k. k @ '': '' @ (case fmlookup m k of None \<Rightarrow> [] | Some x \<Rightarrow> x) @ [CHR 0x0A])
       (sorted_list_of_fset (fmdom m)))"

definition mem_env :: "(kind \<Rightarrow> bool) \<Rightarrow> mem env" where
  "mem_env inst =
     \<lparr>Get = \<lambda>kd k. State (mem_get inst kd k),
      List = \<lambda>kd ns sel. State (mem_list inst kd ns sel),
      Create = \<lambda>ob. State (mem_create inst ob),
      Update = \<lambda>ob. State (mem_update inst ob),
      StatusUpdate = \<lambda>ob. State (mem_status_update inst ob),
      Delete = \<lambda>ob. State (mem_delete inst ob),
      SetStatusCondition = \<lambda>cs c. State (\<lambda>s. (set_condition (clock s) cs c, s)),
      IsNotFound = notFound, IsNoMatchError = (\<lambda>e. e = External ''NoMatch''),
      ContainsFinalizer = \<lambda>m f. f \<in> set (Finalizers m),
      AddFinalizer = \<lambda>m f. if f \<in> set (Finalizers m) then m else m\<lparr>Finalizers := Finalizers m @ [f]\<rparr>,
      RemoveFinalizer = \<lambda>m f. m\<lparr>Finalizers := removeAll f (Finalizers m)\<rparr>,
      SetControllerReference = \<lambda>c ob. Inr (owned_by c ob),
      DeepEqual = semantic_equal,
      SetNestedMap = \<lambda>sm u path. Inr (sm\<lparr>sm_Spec := Some u\<rparr>),
      NestedMap = \<lambda>sm path. sm_Spec sm,
      yamlMarshal = \<lambda>m. Inr (yaml_entries m),
      IsZero = (\<lambda>t. case t of None \<Rightarrow> True | Some u \<Rightarrow> u \<le> 0),
      Quote = \<lambda>x. [CHR 0x22] @ x @ [CHR 0x22]\<rparr>"

lemma mem_env_sel [simp]:
  "run_state (Get (mem_env inst) kd k) s = mem_get inst kd k s"
  "run_state (List (mem_env inst) kd ns sel) s = mem_list inst kd ns sel s"
  "run_state (Create (mem_env inst) ob) s = mem_create inst ob s"
  "run_state (Update (mem_env inst) ob) s = mem_update inst ob s"
  "run_state (StatusUpdate (mem_env inst) ob) s = mem_status_update inst ob s"
  "run_state (Delete (mem_env inst) ob) s = mem_delete inst ob s"
  "run_state (SetStatusCondition (mem_env inst) cs c) s = (set_condition (clock s) cs c, s)"
  "IsNotFound (mem_env inst) = notFound"
  "IsNoMatchError (mem_env inst) e = (e = External ''NoMatch'')"
  "ContainsFinalizer (mem_env inst) m f \<longleftrightarrow> f \<in> set (Finalizers m)"
  "AddFinalizer (mem_env inst) m f =
     (if f \<in> set (Finalizers m) then m else m\<lparr>Finalizers := Finalizers m @ [f]\<rparr>)"
  "RemoveFinalizer (mem_env inst) m f = m\<lparr>Finalizers := removeAll f (Finalizers m)\<rparr>"
  "SetControllerReference (mem_env inst) cluster ob = Inr (owned_by cluster ob)"
  "DeepEqual (mem_env inst) = semantic_equal"
  "SetNestedMap (mem_env inst) sm u path = Inr (sm\<lparr>sm_Spec := Some u\<rparr>)"
  "NestedMap (mem_env inst) sm path = sm_Spec sm"
  "yamlMarshal (mem_env inst) ds = Inr (yaml_entries ds)"
  "IsZero (mem_env inst) t = (case t of None \<Rightarrow> True | Some u \<Rightarrow> u \<le> 0)"
  "Quote (mem_env inst) x = [CHR 0x22] @ x @ [CHR 0x22]"
  by (simp_all add: mem_env_def)

section \<open>The store operations\<close>

lemma find_key_filter:
  "List.find (\<lambda>ob. obj_key ob = key) (filter (\<lambda>x. obj_key x \<noteq> key') obs) =
     (if key = key' then None else List.find (\<lambda>ob. obj_key ob = key) obs)"
  by (induction obs) auto

lemma mem_view_put [simp]: "mem_view (put ob s) = (mem_view s)(obj_key ob \<mapsto> ob)"
  by (auto simp: mem_view_def put_def find_key_filter)

lemma mem_view_del [simp]: "mem_view (del key s) = (mem_view s)(key := None)"
  by (auto simp: mem_view_def del_def find_key_filter)

lemma mem_view_key: "mem_view s key = Some ob \<Longrightarrow> obj_key ob = key"
  by (auto simp: mem_view_def dest: find_SomeD)

lemma set_firsts:
  "ob \<in> set (firsts obs ks) \<longleftrightarrow>
     List.find (\<lambda>x. obj_key x = obj_key ob) obs = Some ob \<and> obj_key ob \<notin> set ks"
  by (induction obs arbitrary: ks) auto

lemma distinct_firsts: "distinct (map obj_key (firsts obs ks))"
  by (induction obs arbitrary: ks) (auto simp: set_firsts)

lemma mem_view_in_namespace:
  "(\<exists>n. mem_view s (kd, ns, n) = Some ob) \<longleftrightarrow>
     mem_view s (obj_key ob) = Some ob \<and> kind_of ob = kd \<and> Namespace (obj_meta ob) = ns"
  (is "?L \<longleftrightarrow> ?R")
proof
  assume ?L
  then obtain n where n: "mem_view s (kd, ns, n) = Some ob" ..
  then have "obj_key ob = (kd, ns, n)" by (rule mem_view_key)
  with n show ?R by (auto simp: obj_key_def)
qed (auto simp: obj_key_def)

lemma mem_list_result:
  "list_result (mem_view s) kd ns sel
     (filter (\<lambda>ob. kind_of ob = kd \<and> Namespace (obj_meta ob) = ns \<and>
                labels_match sel (MetaLabels (obj_meta ob))) (firsts (objs s) []))"
  unfolding list_result_def mem_view_in_namespace
  by (auto simp: set_firsts mem_view_def intro: distinct_map_filter distinct_firsts)

lemma meta_keptI:
  "Name m' = Name m \<Longrightarrow> Namespace m' = Namespace m \<Longrightarrow> Finalizers m' = Finalizers m \<Longrightarrow>
   OwnerReferences m' = OwnerReferences m \<Longrightarrow> meta_kept m m'"
  by (simp add: meta_kept_def)

lemma defaulted_meta [simp]: "obj_meta (defaulted ob) = obj_meta ob" "kind_of (defaulted ob) = kind_of ob"
  by (cases ob; simp)+

lemma drop_status_meta [simp]:
  "obj_meta (drop_status ob) = obj_meta ob" "kind_of (drop_status ob) = kind_of ob"
  by (cases ob; simp)+

lemma with_status_meta [simp]:
  "obj_meta (with_status old ob) = obj_meta ob" "kind_of (with_status old ob) = kind_of ob"
  by (cases ob; simp add: with_status_def split: option.split)+

lemma with_status_status:
  "kind_of old = kind_of ob \<Longrightarrow> status_of (with_status old ob) = status_of old"
  by (cases ob; cases old) (simp_all add: with_status_def status_of_def)

lemma default_port_kept [simp]:
  "sp_Name (default_port p) = sp_Name p" "sp_Port (default_port p) = sp_Port p"
  by (simp_all add: default_port_def)

lemma container_kept_refl [simp]: "container_kept c c"
  by (simp add: container_kept_def probe_kept_def)

lemma template_kept_refl [simp]: "template_kept t t"
  by (simp add: template_kept_def list_all2_conv_all_nth)

lemma stored_as_drop: "stored_as ob ob' \<Longrightarrow> stored_as ob (drop_status ob')"
  by (cases ob; cases ob') (simp_all add: stored_as_def kept_with_def)

lemma stored_as_with: "stored_as ob ob' \<Longrightarrow> stored_as ob (with_status old ob')"
  by (cases ob; cases ob') (auto simp: stored_as_def kept_with_def with_status_def split: option.split)

lemma stored_as_defaulted:
  "meta_kept (obj_meta ob) m \<Longrightarrow> stored_as ob (defaulted (set_meta m ob))"
  by (cases ob) (simp_all add: stored_as_def kept_with_def comp_def)

lemma stored_as_meta: "meta_kept (obj_meta ob) m \<Longrightarrow> stored_as ob (set_meta m ob)"
  by (cases ob) (simp_all add: stored_as_def kept_with_def)

section \<open>The interpretations\<close>

lemma notFound_Unwrap: "Unwrap e = Some e' \<Longrightarrow> notFound e = notFound e'"
  by (cases e) auto

lemma notFound_own: "Unwrap e = None \<Longrightarrow> notFound e \<Longrightarrow> \<exists>msg. e = External msg"
  by (cases e) auto

interpretation memlib: apimachinery "mem_env inst" for inst
  by unfold_locales (auto simp: notFound_Unwrap notFound_own)

lemma put_effect_key:
  "obj_key ob' = obj_key ob \<Longrightarrow> mem_view (put ob' s) = (mem_view s)(obj_key ob \<mapsto> ob')"
  by simp

lemma mem_create_law:
  "mem_create inst ob s = (r, s') \<Longrightarrow> write_result (create_effect ob) (mem_view s) r (mem_view s')"
  by (auto simp: mem_create_def write_result_def create_effect_def obj_key_def split: if_splits option.splits
      intro!: exI [of _ "drop_status (defaulted (set_meta ((obj_meta ob)\<lparr>Generation := 1, DeletionTimestamp := None\<rparr>) ob))"]
        stored_as_drop stored_as_defaulted meta_keptI)

lemma mem_update_law:
  assumes "mem_update inst ob s = (r, s')"
  shows "write_result (update_effect ob) (mem_view s) r (mem_view s')"
proof (cases "inst (kind_of ob) \<and> mem_view s (obj_key ob) \<noteq> None")
  case False
  with assms show ?thesis by (auto simp: mem_update_def write_result_def split: if_splits)
next
  case True
  then obtain old where old: "mem_view s (obj_key ob) = Some old" by auto
  then have "kind_of old = kind_of ob" using mem_view_key by (fastforce simp: obj_key_def)
  let ?new = "with_status old (defaulted
      (set_meta ((obj_meta ob)\<lparr>DeletionTimestamp := DeletionTimestamp (obj_meta old)\<rparr>) ob))"
  have "stored_as ob ?new" by (auto intro!: stored_as_with stored_as_defaulted meta_keptI)
  moreover have "status_of ?new = status_of old"
    by (simp add: with_status_status \<open>kind_of old = kind_of ob\<close>)
  moreover have "obj_key ?new = obj_key ob" by (simp add: obj_key_def)
  ultimately show ?thesis using assms True old
    by (auto simp: mem_update_def write_result_def update_effect_def put_effect_key
        split: if_splits intro!: exI [of _ ?new])
qed

lemma mem_status_update_law:
  assumes "mem_status_update inst ob s = (r, s')"
  shows "write_result (status_update_effect ob) (mem_view s) r (mem_view s')"
proof (cases "inst (kind_of ob) \<and> mem_view s (obj_key ob) \<noteq> None")
  case False
  with assms show ?thesis by (auto simp: mem_status_update_def write_result_def split: if_splits)
next
  case True
  then obtain old where old: "mem_view s (obj_key ob) = Some old" by auto
  then have key: "obj_key old = obj_key ob" by (rule mem_view_key)
  then have "status_of (with_status ob old) = status_of ob"
    by (simp add: with_status_status obj_key_def)
  moreover have "stored_as old (with_status ob old)"
    using stored_as_with [OF stored_as_meta [of old "obj_meta old"]]
    by (cases old) (auto simp: meta_kept_def)
  moreover have "obj_key (with_status ob old) = obj_key ob" using key by (simp add: obj_key_def)
  ultimately show ?thesis using assms True old
    by (auto simp: mem_status_update_def write_result_def status_update_effect_def put_effect_key
        intro!: exI [of _ "with_status ob old"])
qed

lemma mem_delete_law:
  assumes "mem_delete inst ob s = (r, s')"
  shows "write_result (delete_effect ob) (mem_view s) r (mem_view s')"
proof (cases "inst (kind_of ob) \<and> mem_view s (obj_key ob) \<noteq> None")
  case False
  with assms show ?thesis by (auto simp: mem_delete_def write_result_def split: if_splits)
next
  case True
  then obtain old where old: "mem_view s (obj_key ob) = Some old" by auto
  then have key: "obj_key old = obj_key ob" by (rule mem_view_key)
  let ?new = "set_meta ((obj_meta old)\<lparr>DeletionTimestamp := Some (clock s)\<rparr>) old"
  have "stored_as old ?new" by (auto intro!: stored_as_meta meta_keptI)
  moreover have "obj_key ?new = obj_key ob" using key by (simp add: obj_key_def)
  ultimately show ?thesis using assms True old
    by (auto simp: mem_delete_def write_result_def delete_effect_def put_effect_key
        split: if_splits intro!: exI [of _ ?new])
qed

interpretation mem: available_server "mem_env inst" mem_view inst for inst
proof (unfold_locales, goal_cases)
  case (1 s k ob) then show ?case by (rule mem_view_key)
next
  case (2 kd k s r s')
  then show ?case by (auto simp: mem_get_def get_result_def split: if_splits option.splits)
next
  case (3 kd ns sel s r s')
  then show ?case by (auto simp: mem_list_def mem_list_result split: if_splits)
next
  case (4 ob s r s') then show ?case by (simp add: mem_create_law)
next
  case (5 ob s r s') then show ?case by (simp add: mem_update_law)
next
  case (6 ob s r s') then show ?case by (simp add: mem_status_update_law)
next
  case (7 ob s r s') then show ?case by (simp add: mem_delete_law)
next
  case (8 cs c s r s') then show ?case by auto
next
  case (9 kd k s r s') then show ?case by (auto simp: mem_get_def split: option.splits)
next
  case (10 kd k s r s') then show ?case by (auto simp: mem_get_def)
next
  case (11 kd ns sel s r s') then show ?case by (auto simp: mem_list_def)
next
  case (12 ob s r s') then show ?case by (simp add: mem_create_def)
next
  case (13 ob s r s') then show ?case by (auto simp: mem_update_def split: if_splits)
next
  case (14 ob s r s') then show ?case by (auto simp: mem_status_update_def)
next
  case (15 ob s r s') then show ?case by (auto simp: mem_delete_def split: if_splits)
qed

end
