(* ===== verification/Demo.thy ===== *)
theory Demo
  imports Mem_Server
begin

text \<open>
  Concrete objects, in the style of config/samples, at which theorems are instantiated: a class, a
  cluster that uses it, pipelines of that cluster, and the objects the cluster controller makes.
\<close>

definition demoMeta :: "string \<Rightarrow> object_meta" where
  "demoMeta n = (object_meta n ''default'')\<lparr>Generation := 1\<rparr>"

definition quoted :: "string \<Rightarrow> string" where
  "quoted x = [CHR 0x22] @ x @ [CHR 0x22]"

text \<open>The bytes \<^verbatim>\<open>{"source":{},"sink":[]}\<close>.\<close>

definition demoRaw :: string where
  "demoRaw = ''{'' @ quoted ''source'' @ '':{},'' @ quoted ''sink'' @ '':[]}''"

definition demoPipeline :: "string \<Rightarrow> string \<Rightarrow> DataPrepperPipeline" where
  "demoPipeline n key =
     \<lparr>p_Meta = demoMeta n,
      p_Spec = \<lparr>ps_ClusterRef = ''prepper'', ps_YAMLKey = key, ps_Pipeline = demoRaw\<rparr>,
      p_Stat = zeroPipelineStatus\<rparr>"

definition noResources :: resource_requirements where
  "noResources = \<lparr>Requests = fmempty, Limits = fmempty, Claims = []\<rparr>"

definition demoClass :: DataPrepperClass where
  "demoClass =
     \<lparr>k_Meta = object_meta ''standard'' [],
      k_Spec = \<lparr>ks_Image = ''data-prepper:2.15.0'', ks_Resources = noResources,
                ks_EnvFrom = [''secret:credentials''], ks_NodeSelector = None, ks_Tolerations = [],
                ks_PodLabels = Some (fmupd ''app'' ''other'' fmempty),
                ks_PodAnnotations = Some (fmupd ''team'' ''search'' fmempty)\<rparr>\<rparr>"

definition demoSpec :: DataPrepperClusterSpec where
  "demoSpec =
     \<lparr>cs_ClassRef = ''standard'', cs_Image = [], cs_Replicas = 3, cs_Resources = noResources,
      cs_ServerConfigMap = [], cs_AssetsConfigMap = [], cs_ExtraVolumes = [], cs_ExtraVolumeMounts = [],
      cs_ExtraPorts = [], cs_EnvFrom = [], cs_Metrics = None, cs_Autoscaling = None\<rparr>"

definition demoCluster :: DataPrepperCluster where
  "demoCluster = \<lparr>c_Meta = demoMeta ''prepper'', c_Spec = demoSpec, c_Stat = zeroClusterStatus\<rparr>"

definition demoConfigMap :: config_map where
  "demoConfigMap = \<lparr>cm_Meta = demoMeta ''prepper-pipelines'', cm_Data = None, cm_Other = []\<rparr>"

definition demoContainer :: container where
  "demoContainer =
     \<lparr>ct_Name = ''data-prepper'', ct_Image = ''data-prepper:2.14.0'', ct_Resources = noResources,
      ct_Ports = [], ct_VolumeMounts = [], ct_EnvFrom = [], ct_StartupProbe = None,
      ct_LivenessProbe = None, ct_ReadinessProbe = None, ct_Other = ''args''\<rparr>"

definition demoDeployment :: deployment where
  "demoDeployment =
     \<lparr>d_Meta = demoMeta ''prepper'', d_Replicas = Some 2,
      d_Selector = Some (fmupd ''app'' ''prepper'' fmempty),
      d_Template =
        \<lparr>pt_Labels = None,
         pt_Annotations = Some (fmupd ''dataprepper.gabia.com/pipelines-hash'' ''0123456789abcdef'' fmempty),
         pt_NodeSelector = None, pt_Tolerations = [], pt_Containers = [demoContainer],
         pt_Volumes = [], pt_Other = ''restartPolicy''\<rparr>,
      d_SpecOther = ''strategy'',
      d_Status = \<lparr>ds_ReadyReplicas = 2, ds_UnavailableReplicas = 0, ds_UpdatedReplicas = 2,
                  ds_ObservedGeneration = 1\<rparr>\<rparr>"

definition mem_of :: "kobject list \<Rightarrow> mem" where
  "mem_of obs = \<lparr>objs = obs, clock = 7\<rparr>"

abbreviation all_kinds :: "kind \<Rightarrow> bool" where
  "all_kinds \<equiv> \<lambda>_. True"

lemmas demo_defs =
  demoMeta_def quoted_def demoRaw_def demoPipeline_def noResources_def demoClass_def demoSpec_def
  demoCluster_def demoConfigMap_def demoContainer_def demoDeployment_def mem_of_def object_meta_def
  zeroClusterStatus_def zeroPipelineStatus_def

lemmas mem_eval =
  mem_get_def mem_list_def mem_create_def mem_update_def mem_status_update_def mem_delete_def
  mem_view_def put_def del_def getAs_def listAs_def decode_def obj_key_def labels_match_def

lemma demoRaw_keys: "Unmarshal demoRaw = Inr [''source'', ''sink'']"
  by (simp add: demoRaw_def quoted_def json_eval)

lemma demo_key_nonblank:
  "TrimSpace ''logs'' \<noteq> []" "TrimSpace ''traces'' \<noteq> []"
  by (rule TrimSpace_nonempty [of "CHR ''s''"]; simp add: byte_def)+

end
