(* ===== verification/Pipeline_Webhook.thy ===== *)
theory Pipeline_Webhook
  imports Demo
begin

text \<open>
  internal/webhook/v1alpha1/dataprepperpipeline\_webhook.go: the validating webhook for
  DataPrepperPipeline. Validation errors are the \<open>Inl\<close> values. The validator's client may be nil,
  in which case only the pipeline's own definition is checked.
\<close>

section \<open>Definitions\<close>

definition validatePipelineDefinition :: "DataPrepperPipeline \<Rightarrow> goerror + unit" where
  "validatePipelineDefinition pipeline =
     (if TrimSpace (ps_YAMLKey (p_Spec pipeline)) = [] then Inl YAMLKeyMustNotBeEmpty
      else (case Unmarshal (ps_Pipeline (p_Spec pipeline)) of
              Inl err \<Rightarrow> Inl (PipelineMustBeObject err)
            | Inr definition \<Rightarrow>
                if length definition = 0 then Inl PipelineMustDefineField
                else if ''source'' \<notin> set definition then Inl MissingSource
                else if ''sink'' \<notin> set definition then Inl MissingSink
                else Inr ()))"

fun checkYAMLKeyUnused :: "DataPrepperPipeline \<Rightarrow> DataPrepperPipeline list \<Rightarrow> goerror + unit" where
  "checkYAMLKeyUnused pipeline [] = Inr ()"
| "checkYAMLKeyUnused pipeline (existing # items) =
     (if Name (p_Meta existing) = Name (p_Meta pipeline) then checkYAMLKeyUnused pipeline items
      else if ps_ClusterRef (p_Spec existing) = ps_ClusterRef (p_Spec pipeline) \<and>
              ps_YAMLKey (p_Spec existing) = ps_YAMLKey (p_Spec pipeline)
      then Inl (YAMLKeyInUse (ps_YAMLKey (p_Spec pipeline)) (Name (p_Meta existing))
                  (ps_ClusterRef (p_Spec pipeline)))
      else checkYAMLKeyUnused pipeline items)"

definition DataPrepperPipelineCustomValidator_validate ::
  "'s env option \<Rightarrow> DataPrepperPipeline \<Rightarrow> ('s, goerror + unit) state" where
  "DataPrepperPipelineCustomValidator_validate client pipeline =
     bindE (liftE (validatePipelineDefinition pipeline)) (\<lambda>_.
     case client of
       None \<Rightarrow> returnE ()
     | Some E \<Rightarrow> do {
         r \<leftarrow> listAs E asPipeline KPipeline (Namespace (p_Meta pipeline)) fmempty;
         (case r of
            Inl err \<Rightarrow> throwE (CouldNotListPipelines err)
          | Inr items \<Rightarrow> liftE (checkYAMLKeyUnused pipeline items)) })"

type_synonym 's admission = "('s, string list \<times> (goerror + unit)) state"

definition DataPrepperPipelineCustomValidator_ValidateCreate ::
  "'s env option \<Rightarrow> DataPrepperPipeline \<Rightarrow> 's admission" where
  "DataPrepperPipelineCustomValidator_ValidateCreate client obj =
     do { err \<leftarrow> DataPrepperPipelineCustomValidator_validate client obj; State_Monad.return ([], err) }"

definition DataPrepperPipelineCustomValidator_ValidateUpdate ::
  "'s env option \<Rightarrow> DataPrepperPipeline \<Rightarrow> DataPrepperPipeline \<Rightarrow> 's admission" where
  "DataPrepperPipelineCustomValidator_ValidateUpdate client oldObj newObj =
     do { err \<leftarrow> DataPrepperPipelineCustomValidator_validate client newObj; State_Monad.return ([], err) }"

definition DataPrepperPipelineCustomValidator_ValidateDelete ::
  "'s env option \<Rightarrow> DataPrepperPipeline \<Rightarrow> 's admission" where
  "DataPrepperPipelineCustomValidator_ValidateDelete client obj = State_Monad.return ([], Inr ())"

section \<open>What an admitted pipeline satisfies\<close>

definition well_formed_definition :: "DataPrepperPipeline \<Rightarrow> bool" where
  "well_formed_definition p \<longleftrightarrow>
     TrimSpace (ps_YAMLKey (p_Spec p)) \<noteq> [] \<and>
     (case Unmarshal (ps_Pipeline (p_Spec p)) of
        Inl e \<Rightarrow> False | Inr ks \<Rightarrow> ''source'' \<in> set ks \<and> ''sink'' \<in> set ks)"

definition same_slot :: "DataPrepperPipeline \<Rightarrow> DataPrepperPipeline \<Rightarrow> bool" where
  "same_slot p q \<longleftrightarrow>
     ps_ClusterRef (p_Spec p) = ps_ClusterRef (p_Spec q) \<and> ps_YAMLKey (p_Spec p) = ps_YAMLKey (p_Spec q)"

lemma validatePipelineDefinition_ok:
  "validatePipelineDefinition p = Inr () \<longleftrightarrow> well_formed_definition p"
  by (auto simp: validatePipelineDefinition_def well_formed_definition_def split: sum.splits)

lemma checkYAMLKeyUnused_ok:
  "checkYAMLKeyUnused p items = Inr () \<longleftrightarrow>
     (\<forall>q \<in> set items. Name (p_Meta q) = Name (p_Meta p) \<or> \<not> same_slot q p)"
  by (induction items) (auto simp: same_slot_def)

text \<open>
  The verdict depends on the stored pipelines only, not on the order the client lists them in.
\<close>

definition slot_free :: "store \<Rightarrow> DataPrepperPipeline \<Rightarrow> bool" where
  "slot_free v p \<longleftrightarrow>
     (\<forall>q \<in> stored_pipelines v (Namespace (p_Meta p)).
        Name (p_Meta q) = Name (p_Meta p) \<or> \<not> same_slot q p)"

context available_server
begin

lemma pipeline_validate_spec:
  assumes "installed KPipeline"
  shows "wpv view (DataPrepperPipelineCustomValidator_validate (Some E) p)
           (\<lambda>r w. w = v \<and> (r = Inr () \<longleftrightarrow> well_formed_definition p \<and> slot_free v p)) v"
proof (cases "validatePipelineDefinition p")
  case (Inl e)
  then have "\<not> well_formed_definition p"
    by (metis Inl_Inr_False validatePipelineDefinition_ok)
  with Inl show ?thesis
    by (simp add: DataPrepperPipelineCustomValidator_validate_def wpv_throwE)
next
  case (Inr u)
  then have wf: "well_formed_definition p" by (simp add: validatePipelineDefinition_ok [symmetric])
  have "wpv view (do { r \<leftarrow> listAs E asPipeline KPipeline (Namespace (p_Meta p)) fmempty;
          (case r of Inl err \<Rightarrow> throwE (CouldNotListPipelines err)
           | Inr items \<Rightarrow> liftE (checkYAMLKeyUnused p items)) })
        (\<lambda>r w. w = v \<and> (r = Inr () \<longleftrightarrow> slot_free v p)) v"
    by (intro wpv_rules up_listPipelines assms)
      (auto simp: checkYAMLKeyUnused_ok slot_free_def wpv_liftE)
  with Inr wf show ?thesis by (simp add: DataPrepperPipelineCustomValidator_validate_def)
qed

end

text \<open>
  C21: against a server that answers, the create webhook admits a pipeline exactly when its YAML key
  is not blank, its definition is a JSON object with the keys source and sink, and no other pipeline
  of the namespace renders the same key into the same cluster; it never writes and never warns.
\<close>

theorem pipeline_webhook_admits_iff:
  assumes "available_server E view installed" and "installed KPipeline"
    and "run_state (DataPrepperPipelineCustomValidator_ValidateCreate (Some E) p) s = ((warnings, r), s')"
  shows "view s' = view s \<and> warnings = [] \<and>
         (r = Inr () \<longleftrightarrow> well_formed_definition p \<and> slot_free (view s) p)"
  using assms available_server.pipeline_validate_spec [OF assms(1,2), THEN wpvD, OF refl]
  by (auto simp: DataPrepperPipelineCustomValidator_ValidateCreate_def split: prod.splits)

lemma demo_well_formed:
  "TrimSpace key \<noteq> [] \<Longrightarrow> well_formed_definition (demoPipeline n key)"
  by (simp add: well_formed_definition_def demoPipeline_def demoRaw_keys)

lemma demo_slot_free:
  "slot_free (mem_view (mem_of [PipelineObj (demoPipeline ''one'' ''logs'')])) (demoPipeline ''two'' ''traces'')"
  "\<not> slot_free (mem_view (mem_of [PipelineObj (demoPipeline ''one'' ''logs'')])) (demoPipeline ''two'' ''logs'')"
  by (auto simp: slot_free_def stored_pipelines_def same_slot_def mem_view_def mem_of_def demoPipeline_def
      demoMeta_def object_meta_def)

theorem pipeline_webhook_admits_iff_witness:
  "(\<exists>s'. run_state (DataPrepperPipelineCustomValidator_ValidateCreate (Some (mem_env all_kinds))
             (demoPipeline ''two'' ''traces'')) (mem_of [PipelineObj (demoPipeline ''one'' ''logs'')])
           = (([], Inr ()), s')) \<and>
   (\<exists>e s'. run_state (DataPrepperPipelineCustomValidator_ValidateCreate (Some (mem_env all_kinds))
             (demoPipeline ''two'' ''logs'')) (mem_of [PipelineObj (demoPipeline ''one'' ''logs'')])
           = (([], Inl e), s'))"
proof -
  let ?s = "mem_of [PipelineObj (demoPipeline ''one'' ''logs'')]"
  let ?run = "\<lambda>p. run_state (DataPrepperPipelineCustomValidator_ValidateCreate (Some (mem_env all_kinds)) p) ?s"
  obtain w r s' where ok: "?run (demoPipeline ''two'' ''traces'') = ((w, r), s')"
    by (metis prod.exhaust)
  obtain w2 r2 s2 where dup: "?run (demoPipeline ''two'' ''logs'') = ((w2, r2), s2)"
    by (metis prod.exhaust)
  have "w = [] \<and> r = Inr ()"
    using pipeline_webhook_admits_iff [OF mem.available_server_axioms _ ok]
    by (simp add: demo_well_formed demo_key_nonblank demo_slot_free)
  moreover have "w2 = [] \<and> r2 \<noteq> Inr ()"
    using pipeline_webhook_admits_iff [OF mem.available_server_axioms _ dup]
    by (simp add: demo_slot_free)
  moreover from this obtain e where "r2 = Inl e" by (cases r2) auto
  ultimately show ?thesis using ok dup by auto
qed

end
