(* ===== verification/Sha256.thy ===== *)
theory Sha256
  imports Prelude "HOL-Library.Word"
begin

unbundle bit_operations_syntax

text \<open>
  The content hash: \<^verbatim>\<open>sha256.Sum256\<close> and \<^verbatim>\<open>hex.EncodeToString(hash[:])[:16]\<close>, as FIPS 180-4 and
  encoding/hex define them. Both controllers stamp this value on the Pod template.
\<close>

definition rotr :: "nat \<Rightarrow> 32 word \<Rightarrow> 32 word" where
  "rotr n x = drop_bit n x OR push_bit (32 - n) x"

definition bsig0 :: "32 word \<Rightarrow> 32 word" where
  "bsig0 x = rotr 2 x XOR rotr 13 x XOR rotr 22 x"

definition bsig1 :: "32 word \<Rightarrow> 32 word" where
  "bsig1 x = rotr 6 x XOR rotr 11 x XOR rotr 25 x"

definition ssig0 :: "32 word \<Rightarrow> 32 word" where
  "ssig0 x = rotr 7 x XOR rotr 18 x XOR drop_bit 3 x"

definition ssig1 :: "32 word \<Rightarrow> 32 word" where
  "ssig1 x = rotr 17 x XOR rotr 19 x XOR drop_bit 10 x"

text \<open>The round constants, in decimal: the first 32 bits of the fractional parts of the cube roots of
the first 64 primes.\<close>

definition Kconst :: "32 word list" where
  "Kconst =
    [1116352408, 1899447441, 3049323471, 3921009573, 961987163, 1508970993, 2453635748, 2870763221,
     3624381080, 310598401, 607225278, 1426881987, 1925078388, 2162078206, 2614888103, 3248222580,
     3835390401, 4022224774, 264347078, 604807628, 770255983, 1249150122, 1555081692, 1996064986,
     2554220882, 2821834349, 2952996808, 3210313671, 3336571891, 3584528711, 113926993, 338241895,
     666307205, 773529912, 1294757372, 1396182291, 1695183700, 1986661051, 2177026350, 2456956037,
     2730485921, 2820302411, 3259730800, 3345764771, 3516065817, 3600352804, 4094571909, 275423344,
     430227734, 506948616, 659060556, 883997877, 958139571, 1322822218, 1537002063, 1747873779,
     1955562222, 2024104815, 2227730452, 2361852424, 2428436474, 2756734187, 3204031479, 3329325298]"

type_synonym hstate =
  "32 word \<times> 32 word \<times> 32 word \<times> 32 word \<times> 32 word \<times> 32 word \<times> 32 word \<times> 32 word"

definition H0 :: hstate where
  "H0 = (0x6a09e667, 0xbb67ae85, 0x3c6ef372, 0xa54ff53a, 0x510e527f, 0x9b05688c, 0x1f83d9ab, 0x5be0cd19)"

text \<open>Padding: a one bit, zeros up to 56 modulo 64 bytes, the length in bits as 8 big-endian bytes.\<close>

primrec be_bytes :: "nat \<Rightarrow> int \<Rightarrow> int list" where
  "be_bytes 0 x = []"
| "be_bytes (Suc n) x = be_bytes n (x div 256) @ [x mod 256]"

definition pad :: "int list \<Rightarrow> int list" where
  "pad m = m @ [128] @ replicate ((119 - length m mod 64) mod 64) 0 @ be_bytes 8 (8 * int (length m))"

fun words_of :: "int list \<Rightarrow> 32 word list" where
  "words_of (a # b # c # d # rest) =
     word_of_int (((a * 256 + b) * 256 + c) * 256 + d) # words_of rest"
| "words_of _ = []"

text \<open>The message schedule, kept in reverse: its head is the newest word.\<close>

fun schedule :: "nat \<Rightarrow> 32 word list \<Rightarrow> 32 word list" where
  "schedule 0 w = w"
| "schedule (Suc n) w = schedule n ((ssig1 (w ! 1) + w ! 6 + ssig0 (w ! 14) + w ! 15) # w)"

fun round256 :: "hstate \<Rightarrow> 32 word \<times> 32 word \<Rightarrow> hstate" where
  "round256 (a, b, c, d, e, f, g, h) (k, w) =
     (let t1 = h + bsig1 e + ((e AND f) XOR (NOT e AND g)) + k + w;
          t2 = bsig0 a + ((a AND b) XOR (a AND c) XOR (b AND c))
      in (t1 + t2, a, b, c, d + t1, e, f, g))"

fun add_state :: "hstate \<Rightarrow> hstate \<Rightarrow> hstate" where
  "add_state (a, b, c, d, e, f, g, h) (a', b', c', d', e', f', g', h') =
     (a + a', b + b', c + c', d + d', e + e', f + f', g + g', h + h')"

definition compress :: "hstate \<Rightarrow> 32 word list \<Rightarrow> hstate" where
  "compress st blk =
     add_state st (foldl round256 st (zip Kconst (rev (schedule 48 (rev blk)))))"

function blocks :: "hstate \<Rightarrow> 32 word list \<Rightarrow> hstate" where
  "blocks st ws = (if length ws < 16 then st else blocks (compress st (take 16 ws)) (drop 16 ws))"
  by pat_completeness auto
termination
  by (relation "measure (\<lambda>(st, ws). length ws)") auto

declare blocks.simps [simp del]

definition word_bytes :: "32 word \<Rightarrow> int list" where
  "word_bytes w = be_bytes 4 (uint w)"

definition state_bytes :: "hstate \<Rightarrow> int list" where
  "state_bytes st =
     (case st of (a, b, c, d, e, f, g, h) \<Rightarrow> concat (map word_bytes [a, b, c, d, e, f, g, h]))"

definition Sum256 :: "string \<Rightarrow> int list" where
  "Sum256 s = state_bytes (blocks H0 (words_of (pad (map of_char s))))"

text \<open>encoding/hex\<close>

definition hextable :: string where
  "hextable = ''0123456789abcdef''"

definition EncodeToString :: "int list \<Rightarrow> string" where
  "EncodeToString bs = concat (map (\<lambda>b. [hextable ! nat (b div 16), hextable ! nat (b mod 16)]) bs)"

definition content_hash :: "string \<Rightarrow> string" where
  "content_hash content = take 16 (EncodeToString (Sum256 content))"

section \<open>Shape of the hash\<close>

lemma length_be_bytes [simp]: "length (be_bytes n x) = n"
  by (induction n arbitrary: x) auto

lemma be_bytes_range: "b \<in> set (be_bytes n x) \<Longrightarrow> 0 \<le> b \<and> b < 256"
  by (induction n arbitrary: x) auto

lemma length_state_bytes: "length (state_bytes st) = 32"
  by (simp add: state_bytes_def word_bytes_def split: prod.split)

lemma state_bytes_range: "b \<in> set (state_bytes st) \<Longrightarrow> 0 \<le> b \<and> b < 256"
  by (auto simp: state_bytes_def word_bytes_def dest: be_bytes_range split: prod.splits)

lemma length_Sum256: "length (Sum256 s) = 32"
  by (simp add: Sum256_def length_state_bytes)

lemma Sum256_range: "b \<in> set (Sum256 s) \<Longrightarrow> 0 \<le> b \<and> b < 256"
  by (simp add: Sum256_def state_bytes_range)

lemma length_EncodeToString: "length (EncodeToString bs) = 2 * length bs"
  by (induction bs) (auto simp: EncodeToString_def)

lemma hextable_nth: "0 \<le> i \<Longrightarrow> i < 16 \<Longrightarrow> hextable ! nat i \<in> set hextable"
  by (rule nth_mem) (auto simp: hextable_def)

lemma EncodeToString_chars:
  assumes "\<And>b. b \<in> set bs \<Longrightarrow> 0 \<le> b \<and> b < 256"
  shows "set (EncodeToString bs) \<subseteq> set hextable"
proof -
  have "hextable ! nat (b div 16) \<in> set hextable" "hextable ! nat (b mod 16) \<in> set hextable"
    if "b \<in> set bs" for b
    using assms [OF that] by (auto intro!: hextable_nth)
  then show ?thesis by (auto simp: EncodeToString_def)
qed

lemma length_content_hash [simp]: "length (content_hash s) = 16"
  by (simp add: content_hash_def length_EncodeToString length_Sum256)

lemma content_hash_nonempty [simp]: "content_hash s \<noteq> []" "[] \<noteq> content_hash s"
  using length_content_hash [of s] by force+

lemma content_hash_chars: "set (content_hash s) \<subseteq> set hextable"
  using EncodeToString_chars [of "Sum256 s"] Sum256_range [of _ s] set_take_subset
  by (fastforce simp: content_hash_def)

end
