(* ===== verification/Pipeline_Controller.thy ===== *)
theory Pipeline_Controller
  imports Pipeline_Webhook Sha256
begin

text \<open>
  internal/controller/dataprepperpipeline\_controller.go: the reconciler that merges all pipelines
  of a cluster into one ConfigMap, stamps the content hash on the Deployment, manages the finalizer
  and reports status, and the functions that map watch events to reconcile requests. Logging is
  left out.
\<close>

section \<open>Definitions\<close>

definition pipelineFinalizer :: string where
  "pipelineFinalizer = ''dataprepper.gabia.com/pipeline-finalizer''"

definition pipelinesHashAnnotation :: string where
  "pipelinesHashAnnotation = ''dataprepper.gabia.com/pipelines-hash''"

definition pipelinesConfigMapKey :: string where
  "pipelinesConfigMapKey = ''pipelines.yaml''"

definition pipelinesConfigMapSuffix :: string where
  "pipelinesConfigMapSuffix = ''-pipelines''"

text \<open>Declared in datapreppercluster\_controller.go and shared by the two controllers.\<close>

definition newline :: string where
  "newline = [CHR 0x0A]"

definition defaultPipelineYaml :: string where
  "defaultPipelineYaml =
     ''placeholder-pipeline:'' @ newline @
     ''  source:'' @ newline @
     ''    http:'' @ newline @
     ''      port: 2021'' @ newline @
     ''  sink:'' @ newline @
     ''    - stdout:'' @ newline"

record podHealth =
  ph_known :: bool
  ph_healthy :: bool
  ph_reason :: string
  ph_message :: string

definition zeroPodHealth :: podHealth where
  "zeroPodHealth = \<lparr>ph_known = False, ph_healthy = False, ph_reason = [], ph_message = []\<rparr>"

text \<open>
  The reason and message of a container state pointer. A nil pointer reads as the empty reason,
  so \<open>reason_of st \<noteq> []\<close> is \<^verbatim>\<open>st != nil && st.Reason != ""\<close>.
\<close>

definition reason_of :: "container_state option \<Rightarrow> string" where
  "reason_of st = (case st of None \<Rightarrow> [] | Some x \<Rightarrow> cst_Reason x)"

definition message_of :: "container_state option \<Rightarrow> string" where
  "message_of st = (case st of None \<Rightarrow> [] | Some x \<Rightarrow> cst_Message x)"

text \<open>
  The body of the loop over container statuses: None when it goes on to the next one, otherwise
  the value the function returns.
\<close>

definition inspectStatus :: "string \<Rightarrow> container_status \<Rightarrow> podHealth option" where
  "inspectStatus podName cs =
     (if cst_Name cs \<noteq> ''data-prepper'' then None
      else if reason_of (cst_Waiting cs) \<noteq> []
      then Some \<lparr>ph_known = True, ph_healthy = False, ph_reason = reason_of (cst_Waiting cs),
                 ph_message = ''pod '' @ podName @ '' waiting: '' @ message_of (cst_Waiting cs)\<rparr>
      else if reason_of (cst_Terminated cs) \<noteq> []
      then Some \<lparr>ph_known = True, ph_healthy = False, ph_reason = reason_of (cst_Terminated cs),
                 ph_message = ''pod '' @ podName @ '' terminated: '' @ message_of (cst_Terminated cs)\<rparr>
      else None)"

fun inspectStatuses :: "string \<Rightarrow> container_status list \<Rightarrow> podHealth option" where
  "inspectStatuses podName [] = None"
| "inspectStatuses podName (cs # rest) =
     (case inspectStatus podName cs of Some h \<Rightarrow> Some h | None \<Rightarrow> inspectStatuses podName rest)"

fun inspectPods :: "'s env \<Rightarrow> pod list \<Rightarrow> podHealth" where
  "inspectPods E [] =
     \<lparr>ph_known = True, ph_healthy = True, ph_reason = ''DataPrepperRunning'',
      ph_message = ''all data-prepper containers running''\<rparr>"
| "inspectPods E (pod # rest) =
     (if \<not> IsZero E (DeletionTimestamp (pod_Meta pod)) then inspectPods E rest
      else (case inspectStatuses (Name (pod_Meta pod)) (pod_ContainerStatuses pod) of
              Some h \<Rightarrow> h
            | None \<Rightarrow> inspectPods E rest))"

definition inspectClusterHealth :: "'s env \<Rightarrow> string \<Rightarrow> string \<Rightarrow> ('s, podHealth) state" where
  "inspectClusterHealth E namespace clusterName = do {
     r \<leftarrow> listAs E asPod KPod namespace (fmupd ''app'' clusterName fmempty);
     State_Monad.return
       (case r of
          Inl err \<Rightarrow> zeroPodHealth
        | Inr pods \<Rightarrow>
            if length pods = 0
            then \<lparr>ph_known = True, ph_healthy = False, ph_reason = ''NoPods'',
                   ph_message = ''no DataPrepper pods are scheduled''\<rparr>
            else inspectPods E pods) }"

definition readyCondition :: "'s env \<Rightarrow> DataPrepperPipeline \<Rightarrow> string \<Rightarrow> condition" where
  "readyCondition E pipeline phase =
     (if phase = DataPrepperPipelinePhaseApplied
      then \<lparr>c_Type = ''Ready'', c_Status = ConditionTrue, c_Reason = ''PipelineApplied'',
            c_Message = ''pipeline content merged into cluster ConfigMap'',
            c_ObservedGeneration = Generation (p_Meta pipeline), c_LastTransitionTime = 0\<rparr>
      else \<lparr>c_Type = ''Ready'', c_Status = ConditionFalse, c_Reason = ''ClusterNotFound'',
            c_Message = ''cluster '' @ Quote E (ps_ClusterRef (p_Spec pipeline)) @ '' not found in namespace'',
            c_ObservedGeneration = Generation (p_Meta pipeline), c_LastTransitionTime = 0\<rparr>)"

definition healthyCondition :: "DataPrepperPipeline \<Rightarrow> podHealth \<Rightarrow> condition" where
  "healthyCondition pipeline health =
     \<lparr>c_Type = ''Healthy'', c_Status = (if ph_healthy health then ConditionTrue else ConditionFalse),
      c_Reason = ph_reason health, c_Message = ph_message health,
      c_ObservedGeneration = Generation (p_Meta pipeline), c_LastTransitionTime = 0\<rparr>"

definition setStatus ::
  "'s env \<Rightarrow> DataPrepperPipeline \<Rightarrow> string \<Rightarrow> podHealth \<Rightarrow> ('s, goerror + unit) state" where
  "setStatus E pipeline phase health = do {
     conditions \<leftarrow> SetStatusCondition E (pt_Conditions (p_Stat pipeline)) (readyCondition E pipeline phase);
     conditions \<leftarrow>
       (if ph_known health
        then SetStatusCondition E conditions (healthyCondition pipeline health)
        else State_Monad.return conditions);
     if pt_Phase (p_Stat pipeline) = phase \<and>
        pt_ObservedGeneration (p_Stat pipeline) = Generation (p_Meta pipeline) \<and>
        DeepEqual E (AnyConditions (pt_Conditions (p_Stat pipeline))) (AnyConditions conditions)
     then returnE ()
     else StatusUpdate E (PipelineObj (pipeline\<lparr>p_Stat :=
            \<lparr>pt_Phase = phase, pt_ObservedGeneration = Generation (p_Meta pipeline),
             pt_Conditions = conditions\<rparr>\<rparr>)) }"

text \<open>The loop of \<^verbatim>\<open>rebuildClusterConfig\<close> that collects the definitions by YAML key.\<close>

fun collectDefinitions ::
  "'s env \<Rightarrow> string \<Rightarrow> string \<Rightarrow> DataPrepperPipeline list \<Rightarrow> strmap \<Rightarrow> goerror + strmap" where
  "collectDefinitions E clusterRef excludeName [] definitions = Inr definitions"
| "collectDefinitions E clusterRef excludeName (p # items) definitions =
     (if Name (p_Meta p) = excludeName then collectDefinitions E clusterRef excludeName items definitions
      else if ps_ClusterRef (p_Spec p) \<noteq> clusterRef
      then collectDefinitions E clusterRef excludeName items definitions
      else if \<not> IsZero E (DeletionTimestamp (p_Meta p))
      then collectDefinitions E clusterRef excludeName items definitions
      else if TrimSpace (ps_YAMLKey (p_Spec p)) = [] then Inl (EmptyYAMLKey (Name (p_Meta p)))
      else if fmlookup definitions (ps_YAMLKey (p_Spec p)) \<noteq> None
      then Inl (DuplicateYAMLKey (ps_YAMLKey (p_Spec p)) clusterRef)
      else (case Unmarshal (ps_Pipeline (p_Spec p)) of
              Inl err \<Rightarrow> Inl (InvalidPipelineObject (Name (p_Meta p)) err)
            | Inr definition \<Rightarrow>
                if length definition = 0 then Inl (EmptyPipelineObject (Name (p_Meta p)))
                else collectDefinitions E clusterRef excludeName items
                       (fmupd (ps_YAMLKey (p_Spec p)) (ps_Pipeline (p_Spec p)) definitions)))"

definition renderDefinitions :: "'s env \<Rightarrow> strmap \<Rightarrow> goerror + string" where
  "renderDefinitions E definitions =
     (if definitions = fmempty then Inr defaultPipelineYaml
      else (case yamlMarshal E definitions of
              Inl err \<Rightarrow> Inl (CouldNotRender err)
            | Inr rendered \<Rightarrow> Inr rendered))"

text \<open>\<^verbatim>\<open>m[k] = v\<close> in a transformer: a write to a nil map panics.\<close>

definition mapWrite :: "gomap \<Rightarrow> string \<Rightarrow> string \<Rightarrow> ('s, goerror + gomap) state" where
  "mapWrite m k v =
     (case goset m k v of None \<Rightarrow> throwE (Panic ''assignment to entry in nil map'') | Some m' \<Rightarrow> returnE m')"

definition ensureMap :: "gomap \<Rightarrow> gomap" where
  "ensureMap m = (if m = None then Some fmempty else m)"

definition rebuildClusterConfig ::
  "'s env \<Rightarrow> string \<Rightarrow> string \<Rightarrow> string \<Rightarrow> ('s, goerror + unit) state" where
  "rebuildClusterConfig E namespace clusterRef excludeName =
     bindE (listAs E asPipeline KPipeline namespace fmempty) (\<lambda>items.
     bindE (liftE (collectDefinitions E clusterRef excludeName items fmempty)) (\<lambda>definitions.
     bindE (liftE (renderDefinitions E definitions)) (\<lambda>content.
     let cmName = clusterRef @ pipelinesConfigMapSuffix in
     bindE (getAs E asConfigMap KConfigMap (namespace, cmName)) (\<lambda>cm.
     let cm = cm\<lparr>cm_Data := ensureMap (cm_Data cm)\<rparr> in
     bindE
       (if goget (cm_Data cm) pipelinesConfigMapKey \<noteq> content
        then bindE (mapWrite (cm_Data cm) pipelinesConfigMapKey content) (\<lambda>dat.
             Update E (ConfigMapObj (cm\<lparr>cm_Data := dat\<rparr>)))
        else returnE ()) (\<lambda>_.
     let hashStr = content_hash content in
     bindE (getAs E asDeployment KDeployment (namespace, clusterRef)) (\<lambda>deploy.
     let template = d_Template deploy;
         annotations = ensureMap (pt_Annotations template) in
     if goget annotations pipelinesHashAnnotation = hashStr then returnE ()
     else bindE (mapWrite annotations pipelinesHashAnnotation hashStr) (\<lambda>annotations'.
          Update E (DeploymentObj
            (deploy\<lparr>d_Template := template\<lparr>pt_Annotations := annotations'\<rparr>\<rparr>)))))))))"

definition DataPrepperPipelineReconciler_Reconcile ::
  "'s env \<Rightarrow> namespaced_name \<Rightarrow> ('s, goerror + unit) state" where
  "DataPrepperPipelineReconciler_Reconcile E req = do {
     r \<leftarrow> getAs E asPipeline KPipeline req;
     (case r of
        Inl err \<Rightarrow> if IsNotFound E err then returnE () else throwE err
      | Inr pipeline \<Rightarrow>
          let clusterRef = ps_ClusterRef (p_Spec pipeline);
              meta = p_Meta pipeline in
          if \<not> IsZero E (DeletionTimestamp meta) then
            (if ContainsFinalizer E meta pipelineFinalizer then do {
               r \<leftarrow> rebuildClusterConfig E (Namespace meta) clusterRef (Name meta);
               (case r of
                  Inl err \<Rightarrow>
                    if \<not> IsNotFound E err then throwE err
                    else Update E (PipelineObj (pipeline\<lparr>p_Meta := RemoveFinalizer E meta pipelineFinalizer\<rparr>))
                | Inr _ \<Rightarrow>
                    Update E (PipelineObj (pipeline\<lparr>p_Meta := RemoveFinalizer E meta pipelineFinalizer\<rparr>))) }
             else returnE ())
          else if \<not> ContainsFinalizer E meta pipelineFinalizer then
            bindE (Update E (PipelineObj (pipeline\<lparr>p_Meta := AddFinalizer E meta pipelineFinalizer\<rparr>)))
              (\<lambda>_. returnE ())
          else do {
            r \<leftarrow> getAs E asCluster KCluster (Namespace meta, clusterRef);
            (case r of
               Inl err \<Rightarrow>
                 if IsNotFound E err
                 then setStatus E pipeline DataPrepperPipelinePhasePending zeroPodHealth
                 else throwE err
             | Inr cluster \<Rightarrow>
                 bindE (rebuildClusterConfig E (Namespace meta) clusterRef []) (\<lambda>_. do {
                 health \<leftarrow> inspectClusterHealth E (Namespace meta) clusterRef;
                 setStatus E pipeline DataPrepperPipelinePhaseApplied health })) }) }"

section \<open>Mapping watch events to requests\<close>

fun requestsFor :: "string \<Rightarrow> DataPrepperPipeline list \<Rightarrow> namespaced_name list" where
  "requestsFor clusterName [] = []"
| "requestsFor clusterName (p # items) =
     (if ps_ClusterRef (p_Spec p) = clusterName
      then (Namespace (p_Meta p), Name (p_Meta p)) # requestsFor clusterName items
      else requestsFor clusterName items)"

definition findPipelinesForConfigMap :: "'s env \<Rightarrow> kobject \<Rightarrow> ('s, namespaced_name list) state" where
  "findPipelinesForConfigMap E obj =
     (case asConfigMap obj of
        None \<Rightarrow> State_Monad.return []
      | Some cm \<Rightarrow>
          if \<not> HasSuffix (Name (cm_Meta cm)) pipelinesConfigMapSuffix then State_Monad.return []
          else do {
            r \<leftarrow> listAs E asPipeline KPipeline (Namespace (cm_Meta cm)) fmempty;
            State_Monad.return
              (case r of
                 Inl err \<Rightarrow> []
               | Inr items \<Rightarrow>
                   requestsFor (TrimSuffix (Name (cm_Meta cm)) pipelinesConfigMapSuffix) items) })"

definition findPipelinesForCluster :: "'s env \<Rightarrow> kobject \<Rightarrow> ('s, namespaced_name list) state" where
  "findPipelinesForCluster E obj =
     (case asCluster obj of
        None \<Rightarrow> State_Monad.return []
      | Some cluster \<Rightarrow> do {
          r \<leftarrow> listAs E asPipeline KPipeline (Namespace (c_Meta cluster)) fmempty;
          State_Monad.return
            (case r of
               Inl err \<Rightarrow> []
             | Inr items \<Rightarrow> requestsFor (Name (c_Meta cluster)) items) })"

end
