(* ===== verification/Pipeline_Merge.thy ===== *)
theory Pipeline_Merge
  imports Pipeline_Controller "HOL-Library.Multiset"
begin

text \<open>
  What rebuilding a cluster's configuration achieves. \<open>merged\<close> is the abstract specification of the
  collecting loop: a relation between a set of pipelines and the map of their definitions, with no
  order in it. \<open>rebuilt\<close> is the specification of \<^verbatim>\<open>rebuildClusterConfig\<close> over the stored objects.
\<close>

section \<open>The abstract merge\<close>

definition contributes :: "'s env \<Rightarrow> string \<Rightarrow> string \<Rightarrow> DataPrepperPipeline \<Rightarrow> bool" where
  "contributes E ref excl p \<longleftrightarrow>
     Name (p_Meta p) \<noteq> excl \<and> ps_ClusterRef (p_Spec p) = ref \<and> IsZero E (DeletionTimestamp (p_Meta p))"

definition mergeable :: "DataPrepperPipeline \<Rightarrow> bool" where
  "mergeable p \<longleftrightarrow>
     TrimSpace (ps_YAMLKey (p_Spec p)) \<noteq> [] \<and>
     (case Unmarshal (ps_Pipeline (p_Spec p)) of Inl e \<Rightarrow> False | Inr ks \<Rightarrow> ks \<noteq> [])"

abbreviation yaml_key :: "DataPrepperPipeline \<Rightarrow> string" where
  "yaml_key p \<equiv> ps_YAMLKey (p_Spec p)"

definition merged :: "DataPrepperPipeline set \<Rightarrow> strmap \<Rightarrow> bool" where
  "merged C ds \<longleftrightarrow>
     (\<forall>p\<in>C. mergeable p) \<and> inj_on yaml_key C \<and>
     (\<forall>k raw. fmlookup ds k = Some raw \<longleftrightarrow> (\<exists>p\<in>C. yaml_key p = k \<and> ps_Pipeline (p_Spec p) = raw))"

lemma merged_unique:
  assumes "merged C ds" "merged C ds'"
  shows "ds = ds'"
proof (rule fmap_ext)
  fix k
  have "fmlookup ds k = Some raw \<longleftrightarrow> fmlookup ds' k = Some raw" for raw
    using assms by (simp add: merged_def)
  then show "fmlookup ds k = fmlookup ds' k"
    by (metis not_None_eq)
qed

lemma merged_empty: "merged {} fmempty"
  by (simp add: merged_def)

section \<open>The collecting loop computes the merge\<close>

abbreviation sources :: "'s env \<Rightarrow> string \<Rightarrow> string \<Rightarrow> DataPrepperPipeline list \<Rightarrow> DataPrepperPipeline list" where
  "sources E ref excl items \<equiv> filter (contributes E ref excl) items"

fun insertAll :: "DataPrepperPipeline list \<Rightarrow> strmap \<Rightarrow> strmap" where
  "insertAll [] ds = ds"
| "insertAll (p # ps) ds = insertAll ps (fmupd (yaml_key p) (ps_Pipeline (p_Spec p)) ds)"

lemma collect_iff:
  "collectDefinitions E ref excl items acc = Inr ds \<longleftrightarrow>
     (\<forall>p\<in>set (sources E ref excl items). mergeable p \<and> fmlookup acc (yaml_key p) = None) \<and>
     distinct (map yaml_key (sources E ref excl items)) \<and> ds = insertAll (sources E ref excl items) acc"
proof (induction items arbitrary: acc)
  case Nil
  then show ?case by auto
next
  case (Cons p items)
  consider (skip) "\<not> contributes E ref excl p" | (bad) "contributes E ref excl p" "\<not> mergeable p"
    | (dup) "contributes E ref excl p" "mergeable p" "fmlookup acc (yaml_key p) \<noteq> None"
    | (ok) "contributes E ref excl p" "mergeable p" "fmlookup acc (yaml_key p) = None"
    by blast
  then show ?case
  proof cases
    case skip
    then have "collectDefinitions E ref excl (p # items) acc = collectDefinitions E ref excl items acc"
      by (auto simp: contributes_def)
    with skip show ?thesis by (simp only: Cons.IH filter.simps if_False)
  next
    case bad
    then have "\<exists>e. collectDefinitions E ref excl (p # items) acc = Inl e"
      by (auto simp: contributes_def mergeable_def split: sum.splits)
    with bad show ?thesis by (auto simp del: collectDefinitions.simps)
  next
    case dup
    then have "\<exists>e. collectDefinitions E ref excl (p # items) acc = Inl e"
      by (simp add: contributes_def mergeable_def)
    with dup show ?thesis by (auto simp del: collectDefinitions.simps)
  next
    case ok
    then obtain ks where ks: "Unmarshal (ps_Pipeline (p_Spec p)) = Inr ks" "ks \<noteq> []"
      by (auto simp: mergeable_def split: sum.splits)
    have "collectDefinitions E ref excl (p # items) acc =
        collectDefinitions E ref excl items (fmupd (yaml_key p) (ps_Pipeline (p_Spec p)) acc)"
      using ok ks by (simp add: contributes_def mergeable_def)
    then show ?thesis using ok by (auto simp: Cons.IH simp del: collectDefinitions.simps)
  qed
qed

lemma lookup_insertAll:
  "distinct (map yaml_key ps) \<Longrightarrow>
     fmlookup (insertAll ps ds) k = Some raw \<longleftrightarrow>
       (\<exists>p\<in>set ps. yaml_key p = k \<and> ps_Pipeline (p_Spec p) = raw) \<or>
       (k \<notin> yaml_key ` set ps \<and> fmlookup ds k = Some raw)"
  by (induction ps arbitrary: ds) (auto simp: image_iff)

lemma merged_insertAll:
  "\<forall>p\<in>set ps. mergeable p \<Longrightarrow> distinct (map yaml_key ps) \<Longrightarrow> merged (set ps) (insertAll ps fmempty)"
  unfolding merged_def by (simp add: lookup_insertAll distinct_map)

lemma collect_merged:
  assumes "distinct items"
  shows "collectDefinitions E ref excl items fmempty = Inr ds \<longleftrightarrow>
           merged {p \<in> set items. contributes E ref excl p} ds"
proof -
  let ?ps = "sources E ref excl items"
  have set_ps: "{p \<in> set items. contributes E ref excl p} = set ?ps" by simp
  have "distinct ?ps" using assms by simp
  then have keys: "distinct (map yaml_key ?ps) \<longleftrightarrow> inj_on yaml_key (set ?ps)"
    by (simp add: distinct_map)
  show ?thesis
  proof
    assume "collectDefinitions E ref excl items fmempty = Inr ds"
    then show "merged {p \<in> set items. contributes E ref excl p} ds"
      unfolding set_ps by (auto simp only: collect_iff intro!: merged_insertAll)
  next
    assume m: "merged {p \<in> set items. contributes E ref excl p} ds"
    then have "\<forall>p\<in>set ?ps. mergeable p" "distinct (map yaml_key ?ps)"
      unfolding set_ps keys merged_def by blast+
    moreover from this have "insertAll ?ps fmempty = ds"
      using merged_insertAll merged_unique m unfolding set_ps by blast
    ultimately show "collectDefinitions E ref excl items fmempty = Inr ds"
      by (simp add: collect_iff)
  qed
qed

lemma distinct_pipeline_names: "distinct (pipeline_names items) \<Longrightarrow> distinct items"
  by (simp add: pipeline_names_def distinct_map)

section \<open>Rebuilding\<close>

abbreviation pipelines_cm :: "string \<Rightarrow> string" where
  "pipelines_cm ref \<equiv> ref @ pipelinesConfigMapSuffix"

definition contributors :: "'s env \<Rightarrow> store \<Rightarrow> string \<Rightarrow> string \<Rightarrow> string \<Rightarrow> DataPrepperPipeline set" where
  "contributors E v ns ref excl = {p \<in> stored_pipelines v ns. contributes E ref excl p}"

text \<open>The content the stored pipelines of a cluster stand for: unique when there is one.\<close>

definition content_of :: "'s env \<Rightarrow> store \<Rightarrow> string \<Rightarrow> string \<Rightarrow> string \<Rightarrow> string \<Rightarrow> bool" where
  "content_of E v ns ref excl content \<longleftrightarrow>
     (\<exists>ds. merged (contributors E v ns ref excl) ds \<and> renderDefinitions E ds = Inr content)"

lemma content_of_unique: "content_of E v ns ref excl c \<Longrightarrow> content_of E v ns ref excl c' \<Longrightarrow> c = c'"
  unfolding content_of_def by (metis merged_unique sum.inject(2))

text \<open>Only the entry \<open>k\<close> of a map changes, and it ends up reading as \<open>x\<close>.\<close>

definition entry_set :: "string \<Rightarrow> string \<Rightarrow> strmap option \<Rightarrow> strmap option \<Rightarrow> bool" where
  "entry_set k x m m' \<longleftrightarrow>
     (\<exists>f f'. m = Some f \<and> m' = Some f' \<and> goget (Some f') k = x \<and> fmdrop k f' = fmdrop k f)"

definition rebuilt ::
  "'s env \<Rightarrow> store \<Rightarrow> string \<Rightarrow> string \<Rightarrow> string \<Rightarrow> store \<Rightarrow> bool" where
  "rebuilt E v ns ref excl w \<longleftrightarrow>
     (\<exists>content. content_of E v ns ref excl content \<and>
        entry_set pipelinesConfigMapKey content
          (config_data v ns (pipelines_cm ref)) (config_data w ns (pipelines_cm ref)) \<and>
        entry_set pipelinesHashAnnotation (content_hash content)
          (pod_annotations v ns ref) (pod_annotations w ns ref))"

definition in_sync :: "'s env \<Rightarrow> store \<Rightarrow> string \<Rightarrow> string \<Rightarrow> string \<Rightarrow> bool" where
  "in_sync E v ns ref excl \<longleftrightarrow>
     (\<exists>content. content_of E v ns ref excl content \<and>
        goget (config_data v ns (pipelines_cm ref)) pipelinesConfigMapKey = content \<and>
        goget (pod_annotations v ns ref) pipelinesHashAnnotation = content_hash content)"

abbreviation quiet :: "call list \<Rightarrow> bool" where
  "quiet cs \<equiv> list_all (\<lambda>c. \<not> is_write c) cs"

lemma goget_entries [simp]: "goget (Some (entries m)) k = goget m k"
  by (cases m) simp_all

lemma collect_traced:
  "collectDefinitions (traced E) ref excl items acc = collectDefinitions E ref excl items acc"
  by (induction items arbitrary: acc) (auto split: sum.splits)

lemma Unmarshal_error: "Unmarshal raw = Inl e \<Longrightarrow> e = JSONSyntaxError \<or> e = JSONTypeError"
  by (auto simp: Unmarshal_def split: if_splits list.splits)

lemma render_traced: "renderDefinitions (traced E) ds = renderDefinitions E ds"
  by (simp add: renderDefinitions_def)

lemma ensureMap_simps [simp]:
  "ensureMap m \<noteq> None" "entries (ensureMap m) = entries m" "goget (ensureMap m) k = goget m k"
  by (cases m; simp add: ensureMap_def goget_def)+

lemma mapWrite_ensured: "mapWrite (ensureMap m) k x = returnE (Some (fmupd k x (entries m)))"
  by (cases m) (simp_all add: ensureMap_def mapWrite_def)

lemma entry_set_same: "goget m k = x \<Longrightarrow> entry_set k x (Some (entries m)) (Some (entries m))"
  by (cases m) (auto simp: entry_set_def)

lemma entry_set_upd: "entry_set k x (Some f) (Some (fmupd k x f))"
  by (auto simp: entry_set_def intro: fmap_ext)

text \<open>The two writes, each on a settled store.\<close>

lemma config_update_post:
  assumes "update_effect (ConfigMapObj (cm\<lparr>cm_Data := Some f\<rparr>)) v w" "settled v"
    "v (KConfigMap, ns, n) = Some (ConfigMapObj cm)" "obj_key (ConfigMapObj cm) = (KConfigMap, ns, n)"
  shows "config_data w ns n = Some f"
proof -
  from assms obtain ob' where "stored_as (ConfigMapObj (cm\<lparr>cm_Data := Some f\<rparr>)) ob'"
    "w = v((KConfigMap, ns, n) \<mapsto> ob')"
    by (auto elim!: update_keptE)
  then show ?thesis by (auto simp: stored_as_def config_data_def)
qed

lemma annotation_update_post:
  assumes "update_effect (DeploymentObj (d\<lparr>d_Template := (d_Template d)\<lparr>pt_Annotations := Some f\<rparr>\<rparr>)) v w"
    "settled v" "v (KDeployment, ns, n) = Some (DeploymentObj d)"
    "obj_key (DeploymentObj d) = (KDeployment, ns, n)"
  shows "pod_annotations w ns n = Some f"
proof -
  from assms obtain ob' where
    "stored_as (DeploymentObj (d\<lparr>d_Template := (d_Template d)\<lparr>pt_Annotations := Some f\<rparr>\<rparr>)) ob'"
    "w = v((KDeployment, ns, n) \<mapsto> ob')"
    by (auto elim!: update_keptE)
  then show ?thesis by (auto simp: stored_as_def pod_annotations_def template_kept_def)
qed

text \<open>The two halves of \<^verbatim>\<open>rebuildClusterConfig\<close>, after the content is known.\<close>

definition writeContent :: "'s env \<Rightarrow> string \<Rightarrow> string \<Rightarrow> string \<Rightarrow> ('s, goerror + unit) state" where
  "writeContent E ns ref content =
     bindE (getAs E asConfigMap KConfigMap (ns, pipelines_cm ref)) (\<lambda>cm.
     if goget (cm_Data cm) pipelinesConfigMapKey \<noteq> content
     then Update E (ConfigMapObj
            (cm\<lparr>cm_Data := Some (fmupd pipelinesConfigMapKey content (entries (cm_Data cm)))\<rparr>))
     else returnE ())"

definition stampHash :: "'s env \<Rightarrow> string \<Rightarrow> string \<Rightarrow> string \<Rightarrow> ('s, goerror + unit) state" where
  "stampHash E ns ref content =
     bindE (getAs E asDeployment KDeployment (ns, ref)) (\<lambda>d.
     if goget (pt_Annotations (d_Template d)) pipelinesHashAnnotation = content_hash content then returnE ()
     else Update E (DeploymentObj (d\<lparr>d_Template := (d_Template d)\<lparr>pt_Annotations :=
            Some (fmupd pipelinesHashAnnotation (content_hash content)
                    (entries (pt_Annotations (d_Template d))))\<rparr>\<rparr>)))"

lemma rebuild_parts:
  "rebuildClusterConfig E ns ref excl =
     bindE (listAs E asPipeline KPipeline ns fmempty) (\<lambda>items.
     bindE (liftE (collectDefinitions E ref excl items fmempty)) (\<lambda>ds.
     bindE (liftE (renderDefinitions E ds)) (\<lambda>content.
     bindE (writeContent E ns ref content) (\<lambda>_. stampHash E ns ref content))))"
  unfolding rebuildClusterConfig_def writeContent_def stampHash_def Let_def
  by (simp add: mapWrite_ensured bindE_assoc if_distrib [of "\<lambda>m. bindE m f" for f] cong: if_cong)

lemma config_data_only:
  "only_changes K v w \<Longrightarrow> (KConfigMap, ns, n) \<notin> K \<Longrightarrow> config_data w ns n = config_data v ns n"
  by (simp add: config_data_def only_changesD)

lemma pod_annotations_only:
  "only_changes K v w \<Longrightarrow> (KDeployment, ns, n) \<notin> K \<Longrightarrow> pod_annotations w ns n = pod_annotations v ns n"
  by (simp add: pod_annotations_def only_changesD)

lemma rebuiltI:
  assumes "content_of E v ns ref excl content"
    and "only_changes {(KConfigMap, ns, pipelines_cm ref)} v u" "only_changes {(KDeployment, ns, ref)} u w"
    and "entry_set pipelinesConfigMapKey content
           (config_data v ns (pipelines_cm ref)) (config_data u ns (pipelines_cm ref))"
    and "entry_set pipelinesHashAnnotation (content_hash content) (pod_annotations u ns ref) (pod_annotations w ns ref)"
  shows "rebuilt E v ns ref excl w"
proof -
  have "pod_annotations u ns ref = pod_annotations v ns ref"
    using assms(2) by (rule pod_annotations_only) simp
  moreover have "config_data w ns (pipelines_cm ref) = config_data u ns (pipelines_cm ref)"
    using assms(3) by (rule config_data_only) simp
  ultimately show ?thesis using assms(1,4,5) unfolding rebuilt_def by auto
qed

context apimachinery
begin

lemma not_status_error: "Unwrap e = None \<Longrightarrow> (\<And>msg. e \<noteq> External msg) \<Longrightarrow> \<not> IsNotFound E e"
  using IsNotFound_own by blast

lemma Unmarshal_not_found: "Unmarshal raw = Inl e \<Longrightarrow> \<not> IsNotFound E e"
  using Unmarshal_error not_status_error by fastforce

lemma collect_error: "collectDefinitions E ref excl items acc = Inl e \<Longrightarrow> \<not> IsNotFound E e"
proof (induction items arbitrary: acc)
  case (Cons p items)
  then show ?case
    by (auto split: if_splits sum.splits simp: IsNotFound_wrap [where e = "InvalidPipelineObject n d" for n d]
        not_status_error Unmarshal_not_found)
qed simp

lemma render_error: "renderDefinitions E ds = Inl e \<Longrightarrow> \<not> IsNotFound E e"
  by (auto simp: renderDefinitions_def yamlMarshal_error IsNotFound_wrap [where e = "CouldNotRender d" for d]
      split: if_splits sum.splits)

end

context api_server
begin

lemma writeContent_spec:
  "wpv view (writeContent E ns ref content)
     (\<lambda>r w. only_changes {(KConfigMap, ns, pipelines_cm ref)} v w \<and>
        (settled v \<longrightarrow> settled w \<and>
           (r = Inr () \<longrightarrow> entry_set pipelinesConfigMapKey content
              (config_data v ns (pipelines_cm ref)) (config_data w ns (pipelines_cm ref))))) v"
  unfolding writeContent_def
  by (intro wpv_rules wpv_getConfigMap)
    (auto intro!: wpv_rules wpv_Update entry_set_same dest: writes_only writes_settled
      simp: entry_set_upd config_update_post)

lemma stampHash_spec:
  "wpv view (stampHash E ns ref content)
     (\<lambda>r w. only_changes {(KDeployment, ns, ref)} v w \<and>
        (settled v \<longrightarrow> settled w \<and>
           (r = Inr () \<longrightarrow> entry_set pipelinesHashAnnotation (content_hash content)
              (pod_annotations v ns ref) (pod_annotations w ns ref)))) v"
  unfolding stampHash_def
  by (intro wpv_rules wpv_getDeployment)
    (auto intro!: wpv_rules wpv_Update entry_set_same dest: writes_only writes_settled
      simp: entry_set_upd annotation_update_post)

lemma listed_content:
  assumes "set items = stored_pipelines v ns" "distinct (pipeline_names items)"
  shows "content_of E v ns ref excl content \<longleftrightarrow>
           (\<exists>ds. collectDefinitions E ref excl items fmempty = Inr ds \<and> renderDefinitions E ds = Inr content)"
  using assms by (simp add: collect_merged distinct_pipeline_names content_of_def contributors_def)

lemma wpv_rebuild:
  assumes err: "\<And>e. Q (Inl e) v"
    and ok: "\<And>content. content_of E v ns ref excl content \<Longrightarrow>
      wpv view (bindE (writeContent E ns ref content) (\<lambda>_. stampHash E ns ref content)) Q v"
  shows "wpv view (rebuildClusterConfig E ns ref excl) Q v"
proof -
  have "wpv view (bindE (liftE (collectDefinitions E ref excl items fmempty)) (\<lambda>ds.
     bindE (liftE (renderDefinitions E ds)) (\<lambda>content.
     bindE (writeContent E ns ref content) (\<lambda>_. stampHash E ns ref content)))) Q v"
    if "set items = stored_pipelines v ns" "distinct (pipeline_names items)" for items
    unfolding bindE_liftE
    by (intro wpv_case_sum wpv_throwE err) (auto intro!: ok simp: listed_content [OF that])
  then show ?thesis unfolding rebuild_parts
    by (intro wpv_bindE wpv_listPipelines) (simp_all add: err)
qed

lemma rebuild_frame:
  "wpv view (rebuildClusterConfig E ns ref excl)
     (\<lambda>r w. only_changes {(KConfigMap, ns, pipelines_cm ref), (KDeployment, ns, ref)} v w) v"
  by (rule wpv_rebuild, simp, rule wpv_bindE, rule wpv_mono [OF writeContent_spec])
    (auto split: sum.splits intro!: wpv_mono [OF stampHash_spec]
      intro: only_changes_mono dest: only_changes_trans)

lemma rebuild_spec:
  assumes "settled v"
  shows "wpv view (rebuildClusterConfig E ns ref excl)
     (\<lambda>r w. settled w \<and> (r = Inr () \<longrightarrow> rebuilt E v ns ref excl w)) v"
  by (rule wpv_rebuild, simp add: assms, rule wpv_bindE, rule wpv_mono [OF writeContent_spec])
    (auto split: sum.splits simp: assms intro!: wpv_mono [OF stampHash_spec] intro: rebuiltI)

text \<open>In a store that is in sync, rebuilding makes no write, whatever the calls return.\<close>

lemma rebuild_quiet:
  assumes sync: "in_sync E v ns ref excl"
  shows "wpt view (rebuildClusterConfig (traced E) ns ref excl) (\<lambda>r w cs. w = v \<and> quiet cs) v"
proof -
  have quiet_parts: "wpt view (bindE (writeContent (traced E) ns ref content)
      (\<lambda>_. stampHash (traced E) ns ref content)) (\<lambda>r w cs. w = v \<and> quiet cs) v"
    if "content_of E v ns ref excl content" for content
  proof -
    from sync content_of_unique [OF that]
    have cm: "goget (config_data v ns (pipelines_cm ref)) pipelinesConfigMapKey = content"
      and d: "goget (pod_annotations v ns ref) pipelinesHashAnnotation = content_hash content"
      unfolding in_sync_def by blast+
    show ?thesis
      unfolding writeContent_def stampHash_def getAs_traced
      by (intro wpt_bindE wpt_record wpv_getConfigMap)
        (use cm d in \<open>auto split: sum.splits intro!: wpt_returnE wpt_bindE wpt_record wpv_getDeployment\<close>)
  qed
  have "wpt view (bindE (liftE (collectDefinitions (traced E) ref excl items fmempty)) (\<lambda>ds.
     bindE (liftE (renderDefinitions (traced E) ds)) (\<lambda>content.
     bindE (writeContent (traced E) ns ref content) (\<lambda>_. stampHash (traced E) ns ref content))))
     (\<lambda>r w cs. w = v \<and> quiet cs) v"
    if "set items = stored_pipelines v ns" "distinct (pipeline_names items)" for items
    unfolding bindE_liftE collect_traced render_traced
    using quiet_parts listed_content [OF that, of ref excl]
    by (auto split: sum.splits intro: wpt_throwE)
  then show ?thesis unfolding rebuild_parts listAs_traced
    by (intro wpt_bindE wpt_record wpv_listPipelines) simp_all
qed

end

context available_server
begin

lemma writeContent_up:
  assumes "installed KConfigMap"
  shows "wpv view (writeContent E ns ref content)
           (\<lambda>r w. (case r of Inr _ \<Rightarrow> config_data v ns (pipelines_cm ref) \<noteq> None
                   | Inl e \<Rightarrow> IsNotFound E e \<and> config_data v ns (pipelines_cm ref) = None)) v"
  unfolding writeContent_def
  by (intro wpv_rules up_getConfigMap assms)
    (auto simp: config_data_def assms intro!: wpv_rules up_Update)

lemma stampHash_up:
  assumes "installed KDeployment"
  shows "wpv view (stampHash E ns ref content)
           (\<lambda>r w. (case r of Inr _ \<Rightarrow> pod_annotations v ns ref \<noteq> None
                   | Inl e \<Rightarrow> IsNotFound E e \<and> pod_annotations v ns ref = None)) v"
  unfolding stampHash_def
  by (intro wpv_rules up_getDeployment assms)
    (auto simp: pod_annotations_def assms intro!: wpv_rules up_Update)

lemma rebuild_up:
  assumes "installed KPipeline" "installed KConfigMap" "installed KDeployment"
  shows "wpv view (rebuildClusterConfig E ns ref excl)
     (\<lambda>r w. (r = Inr () \<longleftrightarrow> (\<exists>content. content_of E v ns ref excl content) \<and>
               config_data v ns (pipelines_cm ref) \<noteq> None \<and> pod_annotations v ns ref \<noteq> None) \<and>
            (\<forall>e. r = Inl e \<longrightarrow> (IsNotFound E e \<longleftrightarrow> (\<exists>content. content_of E v ns ref excl content)))) v"
proof -
  let ?ok = "config_data v ns (pipelines_cm ref) \<noteq> None \<and> pod_annotations v ns ref \<noteq> None"
  let ?Q = "\<lambda>r w. (r = Inr () \<longleftrightarrow> (\<exists>content. content_of E v ns ref excl content) \<and> ?ok) \<and>
                 (\<forall>e. r = Inl e \<longrightarrow> (IsNotFound E e \<longleftrightarrow> (\<exists>content. content_of E v ns ref excl content)))"
  have parts: "wpv view (bindE (writeContent E ns ref content) (\<lambda>_. stampHash E ns ref content)) ?Q v"
    if "content_of E v ns ref excl content" for content
    by (rule wpv_bindE, rule wpv_mono [OF wpv_conj [OF writeContent_up [OF assms(2)] writeContent_spec]])
      (use that in \<open>auto split: sum.splits intro!: wpv_mono [OF stampHash_up [OF assms(3)]]
         dest!: pod_annotations_only [where n = ref and ns = ns]\<close>)
  have "wpv view (bindE (liftE (collectDefinitions E ref excl items fmempty)) (\<lambda>ds.
     bindE (liftE (renderDefinitions E ds)) (\<lambda>content.
     bindE (writeContent E ns ref content) (\<lambda>_. stampHash E ns ref content)))) ?Q v"
    if "set items = stored_pipelines v ns" "distinct (pipeline_names items)" for items
    unfolding bindE_liftE
    using parts listed_content [OF that, of ref excl]
    by (auto split: sum.splits intro!: wpv_throwE dest: collect_error render_error)
  then show ?thesis unfolding rebuild_parts
    by (intro wpv_bindE up_listPipelines assms) simp
qed

end

section \<open>A concrete cluster\<close>

definition demoStore :: mem where
  "demoStore = mem_of [PipelineObj (demoPipeline ''one'' ''logs''), PipelineObj (demoPipeline ''two'' ''traces''),
                       ConfigMapObj demoConfigMap, DeploymentObj demoDeployment]"

lemma settled_mem_of:
  "list_all (\<lambda>ob. DeletionTimestamp (obj_meta ob) \<noteq> None \<longrightarrow> Finalizers (obj_meta ob) \<noteq> []) obs \<Longrightarrow>
     settled (mem_view (mem_of obs))"
  by (auto simp: settled_def mem_view_def mem_of_def list_all_iff dest!: find_SomeD)

lemma demoStore_settled: "settled (mem_view demoStore)"
  unfolding demoStore_def by (rule settled_mem_of) (simp add: demo_defs)

lemma demoStore_pipelines:
  "stored_pipelines (mem_view demoStore) ''default'' = {demoPipeline ''one'' ''logs'', demoPipeline ''two'' ''traces''}"
  by (auto simp: stored_pipelines_def demoStore_def mem_view_def demo_defs)

lemma demo_contributes:
  "contributes (mem_env inst) ''prepper'' [] (demoPipeline n k) \<longleftrightarrow> n \<noteq> []"
  by (simp add: contributes_def demo_defs)

lemma demo_mergeable: "TrimSpace k \<noteq> [] \<Longrightarrow> mergeable (demoPipeline n k)"
  by (simp add: mergeable_def demoPipeline_def demoRaw_keys)

lemma mem_renders: "\<exists>content. renderDefinitions (mem_env inst) ds = Inr content"
  by (simp add: renderDefinitions_def)

lemma demoStore_content:
  "\<exists>content. content_of (mem_env inst) (mem_view demoStore) ''default'' ''prepper'' [] content"
proof -
  let ?ps = "[demoPipeline ''one'' ''logs'', demoPipeline ''two'' ''traces'']"
  have "contributors (mem_env inst) (mem_view demoStore) ''default'' ''prepper'' [] = set ?ps"
    by (auto simp: contributors_def demoStore_pipelines demo_contributes)
  moreover have "merged (set ?ps) (insertAll ?ps fmempty)"
    by (rule merged_insertAll) (simp_all add: demo_mergeable demo_key_nonblank, simp add: demoPipeline_def)
  ultimately show ?thesis unfolding content_of_def using mem_renders by metis
qed

lemma demoStore_rebuild:
  obtains s' where
    "run_state (rebuildClusterConfig (mem_env all_kinds) ''default'' ''prepper'' []) demoStore = (Inr (), s')"
proof -
  let ?run = "run_state (rebuildClusterConfig (mem_env all_kinds) ''default'' ''prepper'' []) demoStore"
  obtain r s' where run: "?run = (r, s')" by (cases ?run)
  have "config_data (mem_view demoStore) ''default'' (pipelines_cm ''prepper'') \<noteq> None"
    "pod_annotations (mem_view demoStore) ''default'' ''prepper'' \<noteq> None"
    by (simp_all add: config_data_def pod_annotations_def demoStore_def mem_view_def demo_defs
        pipelinesConfigMapSuffix_def)
  then have "r = Inr ()"
    using mem.rebuild_up [THEN wpvD, OF _ _ _ refl run] demoStore_content by blast
  with run that show ?thesis by blast
qed

section \<open>Properties\<close>

lemma content_of_only:
  "only_changes {(KConfigMap, a, b), (KDeployment, c, d)} v w \<Longrightarrow>
     content_of E w ns ref excl content \<longleftrightarrow> content_of E v ns ref excl content"
  by (simp add: content_of_def contributors_def stored_pipelines_def only_changesD)

lemma rebuilt_in_sync:
  "rebuilt E v ns ref excl w \<Longrightarrow>
   only_changes {(KConfigMap, ns, pipelines_cm ref), (KDeployment, ns, ref)} v w \<Longrightarrow> in_sync E w ns ref excl"
  by (auto simp: rebuilt_def in_sync_def content_of_only entry_set_def)

text \<open>
  C20: the loop that collects the definitions of a cluster computes exactly the abstract merge: it
  succeeds with a map when, and only when, every contributing pipeline has a non-blank key and a
  non-empty JSON object, their keys are pairwise different, and the map holds exactly their definitions.
\<close>

theorem collect_computes_merge:
  assumes "distinct items"
  shows "collectDefinitions E ref excl items fmempty = Inr ds \<longleftrightarrow>
           merged {p \<in> set items. contributes E ref excl p} ds"
  using assms by (rule collect_merged)

theorem collect_computes_merge_witness:
  "\<exists>ds. collectDefinitions (mem_env all_kinds) ''prepper'' []
          [demoPipeline ''one'' ''logs'', demoPipeline ''two'' ''traces''] fmempty = Inr ds \<and>
        fmlookup ds ''logs'' = Some demoRaw \<and> fmlookup ds ''metrics'' = None"
proof -
  let ?ps = "[demoPipeline ''one'' ''logs'', demoPipeline ''two'' ''traces'']"
  have ps: "{p \<in> set ?ps. contributes (mem_env all_kinds) ''prepper'' [] p} = set ?ps"
    by (auto simp: demo_contributes)
  have m: "merged (set ?ps) (insertAll ?ps fmempty)"
    by (rule merged_insertAll) (simp_all add: demo_mergeable demo_key_nonblank, simp add: demoPipeline_def)
  have "distinct ?ps" by (simp add: demoPipeline_def)
  then have "collectDefinitions (mem_env all_kinds) ''prepper'' [] ?ps fmempty = Inr (insertAll ?ps fmempty)"
    using collect_computes_merge [of ?ps "mem_env all_kinds" "''prepper''" "[]" "insertAll ?ps fmempty"] m
    unfolding ps by blast
  then show ?thesis by (simp add: demoPipeline_def)
qed

text \<open>
  The collected map does not depend on the order in which the API server lists the pipelines.
\<close>

theorem collect_order_irrelevant:
  assumes "mset items = mset items'"
  shows "collectDefinitions E ref excl items fmempty = Inr ds \<longleftrightarrow>
         collectDefinitions E ref excl items' fmempty = Inr ds"
proof -
  let ?ps = "sources E ref excl items" and ?qs = "sources E ref excl items'"
  have "mset ?ps = mset ?qs" using assms by simp
  then have sets: "set ?ps = set ?qs" and "mset (map yaml_key ?ps) = mset (map yaml_key ?qs)"
    by (metis mset_eq_setD) (simp add: assms)
  then have keys: "distinct (map yaml_key ?ps) \<longleftrightarrow> distinct (map yaml_key ?qs)"
    by (rule_tac mset_eq_imp_distinct_iff)
  have "insertAll ?ps fmempty = insertAll ?qs fmempty"
    if "\<forall>p\<in>set ?qs. mergeable p" "distinct (map yaml_key ?qs)"
    using that keys sets merged_insertAll merged_unique by metis
  then show ?thesis unfolding collect_iff sets keys by auto
qed

theorem collect_order_irrelevant_witness:
  "\<forall>ds. collectDefinitions (mem_env all_kinds) ''prepper'' []
     [demoPipeline ''one'' ''logs'', demoPipeline ''two'' ''traces''] fmempty = Inr ds \<longleftrightarrow>
   collectDefinitions (mem_env all_kinds) ''prepper'' []
     [demoPipeline ''two'' ''traces'', demoPipeline ''one'' ''logs''] fmempty = Inr ds"
  by (rule allI, rule collect_order_irrelevant) simp

text \<open>
  C2: when rebuilding a cluster's configuration succeeds, the ConfigMap's pipelines.yaml is the
  rendering of the merge of the stored pipelines of the cluster, the Deployment's pod template is
  annotated with the hash of that content, and the other entries of both maps are unchanged.
\<close>

theorem rebuild_refines_merge:
  assumes "api_server E view" "settled (view s)"
    and "run_state (rebuildClusterConfig E ns ref excl) s = (Inr (), s')"
  shows "rebuilt E (view s) ns ref excl (view s')"
  using api_server.rebuild_spec [OF assms(1,2), THEN wpvD, OF refl assms(3)] by simp

theorem rebuild_refines_merge_witness:
  "\<exists>s'. rebuilt (mem_env all_kinds) (mem_view demoStore) ''default'' ''prepper'' [] (mem_view s')"
  by (rule demoStore_rebuild) (blast intro: rebuild_refines_merge [OF mem.api_server_axioms demoStore_settled])

text \<open>
  Whatever it returns, rebuilding a cluster's configuration changes no stored object other than
  that cluster's pipelines ConfigMap and its Deployment.
\<close>

theorem rebuild_touches_only_its_objects:
  assumes "api_server E view" "run_state (rebuildClusterConfig E ns ref excl) s = (r, s')"
    and "key \<noteq> (KConfigMap, ns, ref @ pipelinesConfigMapSuffix)" "key \<noteq> (KDeployment, ns, ref)"
  shows "view s' key = view s key"
  using api_server.rebuild_frame [OF assms(1), THEN wpvD, OF refl assms(2)] assms(3,4)
  by (auto dest: only_changesD)

theorem rebuild_touches_only_its_objects_witness:
  "\<exists>s'. run_state (rebuildClusterConfig (mem_env all_kinds) ''default'' ''prepper'' []) demoStore = (Inr (), s') \<and>
     mem_view s' (KPipeline, ''default'', ''one'') = Some (PipelineObj (demoPipeline ''one'' ''logs''))"
proof -
  obtain s' where run: "run_state (rebuildClusterConfig (mem_env all_kinds) ''default'' ''prepper'' []) demoStore
      = (Inr (), s')" by (rule demoStore_rebuild)
  have "mem_view s' (KPipeline, ''default'', ''one'') = mem_view demoStore (KPipeline, ''default'', ''one'')"
    by (rule rebuild_touches_only_its_objects [OF mem.api_server_axioms run]) simp_all
  then show ?thesis using run by (simp add: demoStore_def mem_view_def demo_defs)
qed

text \<open>
  Rebuilding is idempotent: run again after a success, with nothing else changed, it issues no
  write, so it does not trigger the watches that would reconcile once more.
\<close>

theorem rebuild_idempotent:
  assumes "api_server E view" "settled (view s)"
    and "run_state (rebuildClusterConfig E ns ref excl) s = (Inr (), s1)"
    and "run_state (rebuildClusterConfig (traced E) ns ref excl) (s1, tr) = (r, s2, tr')"
  shows "view s2 = view s1 \<and> (\<exists>cs. tr' = tr @ cs \<and> quiet cs)"
proof -
  have "rebuilt E (view s) ns ref excl (view s1)"
    using api_server.rebuild_spec [OF assms(1,2), THEN wpvD, OF refl assms(3)] by simp
  then have "in_sync E (view s1) ns ref excl"
    using api_server.rebuild_frame [OF assms(1), THEN wpvD, OF refl assms(3)] by (rule rebuilt_in_sync)
  then show ?thesis
    using wptD [OF api_server.rebuild_quiet [OF assms(1)] refl assms(4)] by blast
qed

theorem rebuild_idempotent_witness:
  "\<exists>s1 r s2 cs. run_state (rebuildClusterConfig (traced (mem_env all_kinds)) ''default'' ''prepper'' []) (s1, [])
       = (r, s2, cs) \<and> quiet cs \<and>
     run_state (rebuildClusterConfig (mem_env all_kinds) ''default'' ''prepper'' []) demoStore = (Inr (), s1)"
proof -
  obtain s1 where run: "run_state (rebuildClusterConfig (mem_env all_kinds) ''default'' ''prepper'' []) demoStore
      = (Inr (), s1)" by (rule demoStore_rebuild)
  obtain r s2 cs where again:
    "run_state (rebuildClusterConfig (traced (mem_env all_kinds)) ''default'' ''prepper'' []) (s1, []) = (r, s2, cs)"
    by (metis prod.exhaust)
  show ?thesis
    using rebuild_idempotent [OF mem.api_server_axioms demoStore_settled run again] run again by auto
qed

text \<open>
  Against a server that answers, rebuilding succeeds exactly when the cluster's pipelines can be
  merged and rendered and its ConfigMap and Deployment exist.
\<close>

theorem rebuild_succeeds_iff:
  assumes "available_server E view installed"
    and "installed KPipeline" "installed KConfigMap" "installed KDeployment"
    and "run_state (rebuildClusterConfig E ns ref excl) s = (r, s')"
  shows "r = Inr () \<longleftrightarrow>
    (\<exists>ds content. merged (contributors E (view s) ns ref excl) ds \<and> renderDefinitions E ds = Inr content) \<and>
    config_data (view s) ns (ref @ pipelinesConfigMapSuffix) \<noteq> None \<and> pod_annotations (view s) ns ref \<noteq> None"
  using available_server.rebuild_up [OF assms(1-4), THEN wpvD, OF refl assms(5)]
  by (auto simp: content_of_def)

theorem rebuild_succeeds_iff_witness:
  "fst (run_state (rebuildClusterConfig (mem_env all_kinds) ''default'' ''prepper'' []) demoStore) = Inr () \<and>
   fst (run_state (rebuildClusterConfig (mem_env all_kinds) ''default'' ''absent'' []) demoStore) \<noteq> Inr ()"
proof -
  let ?run = "\<lambda>ref. run_state (rebuildClusterConfig (mem_env all_kinds) ''default'' ref []) demoStore"
  note iff = rebuild_succeeds_iff [OF mem.available_server_axioms, of all_kinds "''default''" _ "[]" demoStore,
      OF _ _ _ surjective_pairing]
  have absent: "config_data (mem_view demoStore) ''default'' (pipelines_cm ''absent'') = None"
    and present: "config_data (mem_view demoStore) ''default'' (pipelines_cm ''prepper'') \<noteq> None"
      "pod_annotations (mem_view demoStore) ''default'' ''prepper'' \<noteq> None"
    by (simp_all add: config_data_def pod_annotations_def demoStore_def mem_view_def demo_defs
        pipelinesConfigMapSuffix_def)
  have "fst (?run ''prepper'') = Inr ()"
    using iff [of "''prepper''"] present demoStore_content [of all_kinds] by (auto simp: content_of_def)
  moreover have "fst (?run ''absent'') \<noteq> Inr ()"
    using iff [of "''absent''"] absent by simp
  ultimately show ?thesis by blast
qed

end
