(* ===== verification/Pipeline_Lifecycle.thy ===== *)
theory Pipeline_Lifecycle
  imports Pipeline_Merge
begin

text \<open>
  The life of a pipeline under \<^verbatim>\<open>DataPrepperPipelineReconciler.Reconcile\<close>: finalizer, status, health
  and deletion, and the watch mappings.
\<close>

section \<open>Pod health\<close>

definition failure_reason :: "container_status \<Rightarrow> string" where
  "failure_reason cs =
     (if cst_Name cs \<noteq> ''data-prepper'' then []
      else if reason_of (cst_Waiting cs) \<noteq> [] then reason_of (cst_Waiting cs)
      else reason_of (cst_Terminated cs))"

text \<open>A pod fails when it is not being deleted and a data-prepper container gives a reason.\<close>

definition pod_fails :: "'s env \<Rightarrow> pod \<Rightarrow> bool" where
  "pod_fails E q \<longleftrightarrow>
     IsZero E (DeletionTimestamp (pod_Meta q)) \<and> (\<exists>cs\<in>set (pod_ContainerStatuses q). failure_reason cs \<noteq> [])"

definition health_ok :: "'s env \<Rightarrow> pod set \<Rightarrow> podHealth \<Rightarrow> bool" where
  "health_ok E pods h \<longleftrightarrow>
     ph_known h \<and> (ph_healthy h \<longleftrightarrow> pods \<noteq> {} \<and> (\<forall>q\<in>pods. \<not> pod_fails E q)) \<and>
     (pods = {} \<longrightarrow> ph_reason h = ''NoPods'') \<and>
     (\<not> ph_healthy h \<longrightarrow> pods \<noteq> {} \<longrightarrow>
        (\<exists>q\<in>pods. pod_fails E q \<and>
           (\<exists>cs\<in>set (pod_ContainerStatuses q). failure_reason cs \<noteq> [] \<and> ph_reason h = failure_reason cs)))"

lemma inspectStatuses_None:
  "inspectStatuses n css = None \<longleftrightarrow> (\<forall>cs\<in>set css. failure_reason cs = [])"
  by (induction css) (auto simp: inspectStatus_def failure_reason_def split: option.splits)

lemma inspectStatuses_Some:
  "inspectStatuses n css = Some h \<Longrightarrow>
     ph_known h \<and> \<not> ph_healthy h \<and> (\<exists>cs\<in>set css. failure_reason cs \<noteq> [] \<and> ph_reason h = failure_reason cs)"
  by (induction css) (auto simp: inspectStatus_def failure_reason_def split: option.splits if_splits)

lemma inspectPods_running:
  "(\<forall>q\<in>set pods. \<not> pod_fails E q) \<Longrightarrow>
     inspectPods E pods = \<lparr>ph_known = True, ph_healthy = True, ph_reason = ''DataPrepperRunning'',
                           ph_message = ''all data-prepper containers running''\<rparr>"
proof (induction pods)
  case (Cons q pods)
  then have "IsZero E (DeletionTimestamp (pod_Meta q)) \<Longrightarrow>
      inspectStatuses (Name (pod_Meta q)) (pod_ContainerStatuses q) = None"
    by (auto simp: pod_fails_def inspectStatuses_None)
  with Cons show ?case by simp
qed simp

lemma inspectPods_failing:
  "\<exists>q\<in>set pods. pod_fails E q \<Longrightarrow>
     ph_known (inspectPods E pods) \<and> \<not> ph_healthy (inspectPods E pods) \<and>
     (\<exists>q\<in>set pods. pod_fails E q \<and>
        (\<exists>cs\<in>set (pod_ContainerStatuses q). failure_reason cs \<noteq> [] \<and>
           ph_reason (inspectPods E pods) = failure_reason cs))"
proof (induction pods)
  case (Cons q pods)
  show ?case
  proof (cases "pod_fails E q")
    case True
    then have "inspectStatuses (Name (pod_Meta q)) (pod_ContainerStatuses q) \<noteq> None"
      unfolding inspectStatuses_None by (auto simp: pod_fails_def)
    then obtain h where h: "inspectStatuses (Name (pod_Meta q)) (pod_ContainerStatuses q) = Some h" by blast
    with True inspectStatuses_Some [OF h] show ?thesis by (auto simp: pod_fails_def)
  next
    case False
    then have "IsZero E (DeletionTimestamp (pod_Meta q)) \<Longrightarrow>
        inspectStatuses (Name (pod_Meta q)) (pod_ContainerStatuses q) = None"
      by (auto simp: pod_fails_def inspectStatuses_None)
    then have "inspectPods E (q # pods) = inspectPods E pods" by simp
    with False Cons show ?thesis by auto
  qed
qed simp

lemma inspectPods_ok:
  assumes "pods \<noteq> []"
  shows "health_ok E (set pods) (inspectPods E pods)"
proof (cases "\<exists>q\<in>set pods. pod_fails E q")
  case True
  with assms inspectPods_failing [OF True] show ?thesis by (simp add: health_ok_def)
next
  case False
  then show ?thesis using assms by (simp add: health_ok_def inspectPods_running)
qed

lemma health_NoPods:
  "health_ok E {} \<lparr>ph_known = True, ph_healthy = False, ph_reason = ''NoPods'', ph_message = msg\<rparr>"
  by (simp add: health_ok_def)

text \<open>What \<^verbatim>\<open>inspectClusterHealth\<close> concludes from the pods it lists.\<close>

definition healthOf :: "'s env \<Rightarrow> pod list \<Rightarrow> podHealth" where
  "healthOf E pods =
     (if length pods = 0
      then \<lparr>ph_known = True, ph_healthy = False, ph_reason = ''NoPods'',
             ph_message = ''no DataPrepper pods are scheduled''\<rparr>
      else inspectPods E pods)"

definition observed_health :: "'s env \<Rightarrow> pod set \<Rightarrow> podHealth \<Rightarrow> bool" where
  "observed_health E pods h \<longleftrightarrow> (\<exists>items. set items = pods \<and> h = healthOf E items)"

lemma observed_health_ok: "observed_health E pods h \<Longrightarrow> health_ok E pods h"
  by (auto simp: observed_health_def healthOf_def health_NoPods intro: inspectPods_ok)

lemma observed_health_unique:
  assumes "\<forall>q\<in>pods. \<not> pod_fails E q" "observed_health E pods h" "observed_health E pods h'"
  shows "h = h'"
proof -
  have "healthOf E items = healthOf E items'" if "set items = pods" "set items' = pods" for items items'
    using assms(1) that by (cases items; cases items') (auto simp: healthOf_def inspectPods_running simp del: inspectPods.simps)
  with assms(2,3) show ?thesis unfolding observed_health_def by metis
qed

lemma inspect_parts:
  "inspectClusterHealth E ns ref = do {
     r \<leftarrow> listAs E asPod KPod ns (fmupd ''app'' ref fmempty);
     State_Monad.return (case r of Inl err \<Rightarrow> zeroPodHealth | Inr pods \<Rightarrow> healthOf E pods) }"
  unfolding inspectClusterHealth_def healthOf_def ..

lemma inspectPods_traced: "inspectPods (traced E) pods = inspectPods E pods"
  by (induction pods) (simp_all split: option.split)

lemma healthOf_traced: "healthOf (traced E) pods = healthOf E pods"
  by (simp add: healthOf_def inspectPods_traced)

abbreviation app_selector :: "string \<Rightarrow> strmap" where
  "app_selector ref \<equiv> fmupd ''app'' ref fmempty"

context available_server
begin

lemma inspect_spec:
  assumes "installed KPod"
  shows "wpv view (inspectClusterHealth E ns ref)
           (\<lambda>h w. w = v \<and> observed_health E (stored_pods v ns (app_selector ref)) h) v"
  unfolding inspect_parts
  by (intro wpv_rules up_listPods assms) (auto simp: observed_health_def)

end

section \<open>Status\<close>

text \<open>What a write to the status subresource leaves alone.\<close>

definition same_core :: "DataPrepperPipeline \<Rightarrow> DataPrepperPipeline \<Rightarrow> bool" where
  "same_core p p' \<longleftrightarrow>
     p_Spec p' = p_Spec p \<and> Name (p_Meta p') = Name (p_Meta p) \<and> Namespace (p_Meta p') = Namespace (p_Meta p) \<and>
     Finalizers (p_Meta p') = Finalizers (p_Meta p) \<and> Generation (p_Meta p') = Generation (p_Meta p) \<and>
     DeletionTimestamp (p_Meta p') = DeletionTimestamp (p_Meta p)"

text \<open>What the merge of a cluster's pipelines depends on.\<close>

definition same_role :: "DataPrepperPipeline \<Rightarrow> DataPrepperPipeline \<Rightarrow> bool" where
  "same_role p p' \<longleftrightarrow>
     p_Spec p' = p_Spec p \<and> Name (p_Meta p') = Name (p_Meta p) \<and> Namespace (p_Meta p') = Namespace (p_Meta p) \<and>
     DeletionTimestamp (p_Meta p') = DeletionTimestamp (p_Meta p)"

lemma same_core_role: "same_core p p' \<Longrightarrow> same_role p p'"
  by (simp add: same_core_def same_role_def)

text \<open>A status that reports a phase and, when it is known, the health of the pods.\<close>

definition reports :: "'s env \<Rightarrow> DataPrepperPipeline \<Rightarrow> string \<Rightarrow> podHealth \<Rightarrow> DataPrepperPipelineStatus \<Rightarrow> bool" where
  "reports E p phase h st \<longleftrightarrow>
     pt_Phase st = phase \<and> pt_ObservedGeneration st = Generation (p_Meta p) \<and>
     holds_condition (pt_Conditions st) (readyCondition E p phase) \<and>
     (ph_known h \<longrightarrow> holds_condition (pt_Conditions st) (healthyCondition p h))"

lemma holds_conditionE:
  "holds_condition cs c \<Longrightarrow> \<exists>d\<in>set cs. c_Type d = c_Type c \<and> c_Status d = c_Status c \<and> c_Reason d = c_Reason c"
  unfolding holds_condition_def by (metis condition.select_convs condition.surjective condition.update_convs(6) find_SomeD)

lemma same_core_refl [simp]: "same_core p p"
  by (simp add: same_core_def)

lemma same_core_conditions:
  "same_core p p' \<Longrightarrow> readyCondition E p' phase = readyCondition E p phase"
  "same_core p p' \<Longrightarrow> healthyCondition p' h = healthyCondition p h"
  by (simp_all add: same_core_def readyCondition_def healthyCondition_def)

lemma condition_types [simp]:
  "c_Type (readyCondition E p phase) = ''Ready''" "c_Type (healthyCondition p h) = ''Healthy''"
  by (simp_all add: readyCondition_def healthyCondition_def)

lemma status_update_core:
  assumes "status_update_effect (PipelineObj q) v w" "v (obj_key (PipelineObj q)) = Some (PipelineObj p)"
  shows "\<exists>p'. w (obj_key (PipelineObj q)) = Some (PipelineObj p') \<and> same_core p p' \<and> p_Stat p' = p_Stat q"
proof -
  from assms obtain ob where ob: "stored_as (PipelineObj p) ob" "status_of ob = status_of (PipelineObj q)"
    "Generation (obj_meta ob) = Generation (p_Meta p)"
    "DeletionTimestamp (obj_meta ob) = DeletionTimestamp (p_Meta p)" "w = v(obj_key (PipelineObj q) \<mapsto> ob)"
    by (auto simp: status_update_effect_def)
  from ob(1) obtain p' where "ob = PipelineObj p'" by (auto simp: stored_as_def)
  with ob show ?thesis by (auto simp: stored_as_def meta_kept_def same_core_def status_of_def)
qed

abbreviation pkey :: "DataPrepperPipeline \<Rightarrow> object_key" where
  "pkey p \<equiv> (KPipeline, Namespace (p_Meta p), Name (p_Meta p))"

definition status_written ::
  "'s env \<Rightarrow> DataPrepperPipeline \<Rightarrow> string \<Rightarrow> podHealth \<Rightarrow> store \<Rightarrow> bool" where
  "status_written E p phase h w \<longleftrightarrow>
     (\<exists>p'. w (pkey p) = Some (PipelineObj p') \<and> same_core p p' \<and> reports E p phase h (p_Stat p'))"

lemma reports_conditions:
  assumes "cs1 = set_condition t1 cs (readyCondition E p phase)"
    and "cs2 = (if ph_known h then set_condition t2 cs1 (healthyCondition p h) else cs1)"
  shows "reports E p phase h \<lparr>pt_Phase = phase, pt_ObservedGeneration = Generation (p_Meta p), pt_Conditions = cs2\<rparr>"
  using assms by (auto simp: reports_def holds_set_condition holds_condition_other)

text \<open>The last step of \<^verbatim>\<open>setStatus\<close>: write the status unless it is already there.\<close>

definition writeStatus :: "'s env \<Rightarrow> DataPrepperPipeline \<Rightarrow> string \<Rightarrow> condition list \<Rightarrow> ('s, goerror + unit) state" where
  "writeStatus E p phase cs =
     (if pt_Phase (p_Stat p) = phase \<and> pt_ObservedGeneration (p_Stat p) = Generation (p_Meta p) \<and>
         DeepEqual E (AnyConditions (pt_Conditions (p_Stat p))) (AnyConditions cs)
      then returnE ()
      else StatusUpdate E (PipelineObj (p\<lparr>p_Stat :=
            \<lparr>pt_Phase = phase, pt_ObservedGeneration = Generation (p_Meta p), pt_Conditions = cs\<rparr>\<rparr>)))"

lemma setStatus_parts:
  "setStatus E p phase h = do {
     cs \<leftarrow> SetStatusCondition E (pt_Conditions (p_Stat p)) (readyCondition E p phase);
     cs \<leftarrow> (if ph_known h then SetStatusCondition E cs (healthyCondition p h) else State_Monad.return cs);
     writeStatus E p phase cs }"
  by (simp add: setStatus_def writeStatus_def)

context api_server
begin

lemma setStatus_spec:
  assumes "v (pkey p) = Some (PipelineObj p)"
  shows "wpv view (setStatus E p phase h)
     (\<lambda>r w. only_changes {pkey p} v w \<and> (settled v \<longrightarrow> settled w) \<and> (r = Inr () \<longrightarrow> status_written E p phase h w)) v"
proof -
  have "wpv view (writeStatus E p phase cs2)
     (\<lambda>r w. only_changes {pkey p} v w \<and> (settled v \<longrightarrow> settled w) \<and> (r = Inr () \<longrightarrow> status_written E p phase h w)) v"
    if reps: "reports E p phase h \<lparr>pt_Phase = phase, pt_ObservedGeneration = Generation (p_Meta p), pt_Conditions = cs2\<rparr>"
    for cs2
    unfolding writeStatus_def
  proof (intro wpv_rules wpv_StatusUpdate)
    assume same: "pt_Phase (p_Stat p) = phase \<and> pt_ObservedGeneration (p_Stat p) = Generation (p_Meta p) \<and>
        DeepEqual E (AnyConditions (pt_Conditions (p_Stat p))) (AnyConditions cs2)"
    with reps have "reports E p phase h (p_Stat p)" by (auto simp: DeepEqual reports_def)
    with assms show "only_changes {pkey p} v v \<and> (settled v \<longrightarrow> settled v) \<and>
        (Inr () = Inr () \<longrightarrow> status_written E p phase h v)"
      by (auto simp: status_written_def)
  next
    fix r w
    let ?q = "p\<lparr>p_Stat := \<lparr>pt_Phase = phase, pt_ObservedGeneration = Generation (p_Meta p), pt_Conditions = cs2\<rparr>\<rparr>"
    assume wr: "write_result (status_update_effect (PipelineObj ?q)) v r w"
    have "status_written E p phase h w" if "r = Inr ()"
      using status_update_core [of ?q v w p] wr that assms reps by (auto simp: status_written_def)
    then show "only_changes {pkey p} v w \<and> (settled v \<longrightarrow> settled w) \<and> (r = Inr () \<longrightarrow> status_written E p phase h w)"
      using writes_only(3) [OF wr] writes_settled(3) [OF wr] by auto
  qed
  then show ?thesis
    unfolding setStatus_parts
    by (intro wpv_bind wpv_Condition wpv_if wpv_return) (simp_all add: reports_conditions)
qed

end

section \<open>The reconcile loop\<close>

abbreviation ref_of :: "DataPrepperPipeline \<Rightarrow> string" where
  "ref_of p \<equiv> ps_ClusterRef (p_Spec p)"

abbreviation ns_of :: "DataPrepperPipeline \<Rightarrow> string" where
  "ns_of p \<equiv> Namespace (p_Meta p)"

definition dropFinalizer :: "'s env \<Rightarrow> DataPrepperPipeline \<Rightarrow> ('s, goerror + unit) state" where
  "dropFinalizer E p = Update E (PipelineObj (p\<lparr>p_Meta := RemoveFinalizer E (p_Meta p) pipelineFinalizer\<rparr>))"

definition handleDeleted :: "'s env \<Rightarrow> DataPrepperPipeline \<Rightarrow> ('s, goerror + unit) state" where
  "handleDeleted E p =
     (if ContainsFinalizer E (p_Meta p) pipelineFinalizer then do {
        r \<leftarrow> rebuildClusterConfig E (ns_of p) (ref_of p) (Name (p_Meta p));
        (case r of Inl err \<Rightarrow> if \<not> IsNotFound E err then throwE err else dropFinalizer E p
         | Inr _ \<Rightarrow> dropFinalizer E p) }
      else returnE ())"

definition handleLive :: "'s env \<Rightarrow> DataPrepperPipeline \<Rightarrow> ('s, goerror + unit) state" where
  "handleLive E p = do {
     r \<leftarrow> getAs E asCluster KCluster (ns_of p, ref_of p);
     (case r of
        Inl err \<Rightarrow>
          if IsNotFound E err then setStatus E p DataPrepperPipelinePhasePending zeroPodHealth else throwE err
      | Inr cluster \<Rightarrow>
          bindE (rebuildClusterConfig E (ns_of p) (ref_of p) []) (\<lambda>_. do {
            health \<leftarrow> inspectClusterHealth E (ns_of p) (ref_of p);
            setStatus E p DataPrepperPipelinePhaseApplied health })) }"

definition handleFetched :: "'s env \<Rightarrow> DataPrepperPipeline \<Rightarrow> ('s, goerror + unit) state" where
  "handleFetched E p =
     (if \<not> IsZero E (DeletionTimestamp (p_Meta p)) then handleDeleted E p
      else if \<not> ContainsFinalizer E (p_Meta p) pipelineFinalizer
      then bindE (Update E (PipelineObj (p\<lparr>p_Meta := AddFinalizer E (p_Meta p) pipelineFinalizer\<rparr>))) (\<lambda>_. returnE ())
      else handleLive E p)"

lemma Reconcile_parts:
  "DataPrepperPipelineReconciler_Reconcile E req = do {
     r \<leftarrow> getAs E asPipeline KPipeline req;
     (case r of Inl err \<Rightarrow> if IsNotFound E err then returnE () else throwE err
      | Inr p \<Rightarrow> handleFetched E p) }"
  unfolding DataPrepperPipelineReconciler_Reconcile_def handleFetched_def handleDeleted_def handleLive_def
    dropFinalizer_def Let_def ..

definition footprint :: "DataPrepperPipeline \<Rightarrow> object_key set" where
  "footprint p = {pkey p, (KConfigMap, ns_of p, pipelines_cm (ref_of p)), (KDeployment, ns_of p, ref_of p)}"

lemma rebuild_frame_footprint:
  "only_changes {(KConfigMap, ns_of p, pipelines_cm (ref_of p)), (KDeployment, ns_of p, ref_of p)} v w \<Longrightarrow>
     only_changes (footprint p) v w"
  by (erule only_changes_mono) (simp add: footprint_def)

lemma own_frame_footprint: "only_changes {pkey p} v w \<Longrightarrow> only_changes (footprint p) v w"
  by (erule only_changes_mono) (simp add: footprint_def)

lemma footprint_rebuild_own:
  "only_changes {(KConfigMap, ns_of p, pipelines_cm (ref_of p)), (KDeployment, ns_of p, ref_of p)} u v \<Longrightarrow>
   only_changes {pkey p} v w \<Longrightarrow> only_changes (footprint p) u w"
  by (drule (1) only_changes_trans) (erule only_changes_mono, simp add: footprint_def)

text \<open>A rebuild leaves the pipelines alone, and a write to the pipeline leaves the rebuilt objects alone.\<close>

lemma rebuild_keeps_pipeline:
  "only_changes {(KConfigMap, a, b), (KDeployment, c, d)} v w \<Longrightarrow> w (pkey p) = v (pkey p)"
  by (erule only_changesD) simp

lemma rebuilt_own_write: "rebuilt E v ns ref excl u \<Longrightarrow> only_changes {pkey p} u w \<Longrightarrow> rebuilt E v ns ref excl w"
  by (simp add: rebuilt_def config_data_only pod_annotations_only)

text \<open>
  When the cluster of a live pipeline exists, its configuration can be applied when the pipelines of
  the cluster merge and the two objects to write are there. Applied means: the configuration is
  rebuilt from all pipelines of the cluster, and the status says so, with the true health of the pods.
\<close>

definition applicable :: "'s env \<Rightarrow> store \<Rightarrow> DataPrepperPipeline \<Rightarrow> bool" where
  "applicable E v p \<longleftrightarrow>
     (\<exists>content. content_of E v (ns_of p) (ref_of p) [] content) \<and>
     config_data v (ns_of p) (pipelines_cm (ref_of p)) \<noteq> None \<and> pod_annotations v (ns_of p) (ref_of p) \<noteq> None"

definition applied :: "'s env \<Rightarrow> store \<Rightarrow> DataPrepperPipeline \<Rightarrow> store \<Rightarrow> bool" where
  "applied E v p w \<longleftrightarrow>
     rebuilt E v (ns_of p) (ref_of p) [] w \<and>
     (\<exists>h. observed_health E (stored_pods v (ns_of p) (app_selector (ref_of p))) h \<and>
          status_written E p DataPrepperPipelinePhaseApplied h w)"

context api_server
begin

lemma wpv_reconcile:
  assumes "v (KPipeline, req) = Some (PipelineObj p)"
    and "\<And>e. \<not> IsNotFound E e \<Longrightarrow> Q (Inl e) v" "pkey p = (KPipeline, req) \<Longrightarrow> wpv view (handleFetched E p) Q v"
  shows "wpv view (DataPrepperPipelineReconciler_Reconcile E req) Q v"
  unfolding Reconcile_parts
  by (intro wpv_bind wpv_getPipeline) (use assms in \<open>auto intro!: wpv_throwE wpv_returnE\<close>)

lemma dropFinalizer_frame:
  "wpv view (dropFinalizer E p) (\<lambda>r w. only_changes {pkey p} v w) v"
  unfolding dropFinalizer_def
  by (rule wpv_Update) (auto simp: RemoveFinalizer dest: writes_only(2))

lemma inspect_frame: "wpv view (inspectClusterHealth E ns ref) (\<lambda>h w. w = v) v"
  unfolding inspectClusterHealth_def by (intro wpv_rules wpv_listPods) auto

lemma handleDeleted_frame: "wpv view (handleDeleted E p) (\<lambda>r w. only_changes (footprint p) v w) v"
  unfolding handleDeleted_def
  by (intro wpv_rules wpv_mono [OF rebuild_frame])
    (auto intro!: wpv_rules wpv_mono [OF dropFinalizer_frame] split: sum.splits
      intro: footprint_rebuild_own rebuild_frame_footprint own_frame_footprint)

lemma handleLive_frame:
  assumes "v (pkey p) = Some (PipelineObj p)"
  shows "wpv view (handleLive E p) (\<lambda>r w. only_changes (footprint p) v w) v"
  unfolding handleLive_def
  by (intro wpv_bind wpv_getCluster)
    (auto intro!: wpv_rules wpv_mono [OF rebuild_frame] wpv_mono [OF inspect_frame] wpv_mono [OF setStatus_spec] assms
      split: sum.splits simp: rebuild_keeps_pipeline
      intro: footprint_rebuild_own rebuild_frame_footprint own_frame_footprint)

lemma reconcile_frame:
  assumes "v (KPipeline, req) = Some (PipelineObj p)"
  shows "wpv view (DataPrepperPipelineReconciler_Reconcile E req) (\<lambda>r w. only_changes (footprint p) v w) v"
proof (rule wpv_reconcile [of v req p, OF assms])
  assume "pkey p = (KPipeline, req)"
  with assms have p: "v (pkey p) = Some (PipelineObj p)" by simp
  show "wpv view (handleFetched E p) (\<lambda>r w. only_changes (footprint p) v w) v"
    unfolding handleFetched_def
    by (intro wpv_if handleDeleted_frame handleLive_frame [of v p, OF p] wpv_bindE wpv_Update)
      (auto split: sum.splits simp: AddFinalizer dest!: writes_only(2) intro!: wpv_returnE own_frame_footprint
        split: if_splits)
qed simp

end

context available_server
begin

lemma setStatus_up:
  assumes "installed KPipeline" "v (pkey p) \<noteq> None"
  shows "wpv view (setStatus E p phase h) (\<lambda>r w. r = Inr ()) v"
  unfolding setStatus_parts writeStatus_def
  by (intro wpv_bind wpv_Condition wpv_if wpv_return wpv_returnE up_Update up_StatusUpdate) (use assms in simp_all)

lemma setStatus_ok:
  assumes "installed KPipeline" "v (pkey p) = Some (PipelineObj p)"
  shows "wpv view (setStatus E p phase h)
           (\<lambda>r w. r = Inr () \<and> only_changes {pkey p} v w \<and> status_written E p phase h w) v"
  by (rule wpv_mono [OF wpv_conj [OF setStatus_up [of v p] setStatus_spec [of v p]]]) (use assms in auto)

lemma handleLive_pending:
  assumes "installed KPipeline" "installed KCluster" "v (pkey p) = Some (PipelineObj p)"
    and "v (KCluster, ns_of p, ref_of p) = None"
  shows "wpv view (handleLive E p) (\<lambda>r w. r = Inr () \<and> only_changes {pkey p} v w \<and>
           status_written E p DataPrepperPipelinePhasePending zeroPodHealth w) v"
  unfolding handleLive_def
  by (intro wpv_bind up_getCluster) (use assms setStatus_ok [of v p] in auto)

lemma handleLive_applied:
  assumes inst: "installed KPipeline" "installed KCluster" "installed KConfigMap" "installed KDeployment" "installed KPod"
    and p: "v (pkey p) = Some (PipelineObj p)" and v: "settled v"
    and cluster: "v (KCluster, ns_of p, ref_of p) \<noteq> None"
  shows "wpv view (handleLive E p)
           (\<lambda>r w. (r = Inr () \<longleftrightarrow> applicable E v p) \<and> (r = Inr () \<longrightarrow> applied E v p w)) v"
proof -
  have after: "wpv view (do { health \<leftarrow> inspectClusterHealth E (ns_of p) (ref_of p);
      setStatus E p DataPrepperPipelinePhaseApplied health }) (\<lambda>r u. r = Inr () \<and> applied E v p u) w"
    if reb: "rebuilt E v (ns_of p) (ref_of p) [] w"
      and w: "only_changes {(KConfigMap, ns_of p, pipelines_cm (ref_of p)), (KDeployment, ns_of p, ref_of p)} v w" for w
  proof -
    have pods: "stored_pods w (ns_of p) sel = stored_pods v (ns_of p) sel" for sel
      by (simp add: stored_pods_def only_changesD [OF w])
    have pw: "w (pkey p) = Some (PipelineObj p)" using p rebuild_keeps_pipeline [OF w] by simp
    show ?thesis
      by (rule wpv_bind, rule wpv_mono [OF inspect_spec [OF inst(5)]], clarify,
          rule wpv_mono [OF setStatus_ok [of w p, OF inst(1) pw]])
        (use reb in \<open>auto simp: applied_def pods dest: rebuilt_own_write\<close>)
  qed
  have "wpv view (bindE (rebuildClusterConfig E (ns_of p) (ref_of p) []) (\<lambda>_. do {
            health \<leftarrow> inspectClusterHealth E (ns_of p) (ref_of p);
            setStatus E p DataPrepperPipelinePhaseApplied health }))
          (\<lambda>r w. (r = Inr () \<longleftrightarrow> applicable E v p) \<and> (r = Inr () \<longrightarrow> applied E v p w)) v"
    by (rule wpv_bindE, rule wpv_mono [OF wpv_conj [OF rebuild_up [OF inst(1,3,4)] wpv_conj [OF rebuild_frame rebuild_spec [OF v]]]])
      (auto split: sum.splits simp: applicable_def intro!: wpv_mono [OF after])
  then show ?thesis unfolding handleLive_def
    by (intro wpv_bind up_getCluster inst) (use cluster in simp_all)
qed

lemma reconcile_applied:
  assumes "list_all installed [KPipeline, KCluster, KConfigMap, KDeployment, KPod]"
    and "v (KPipeline, req) = Some (PipelineObj p)" "pkey p = (KPipeline, req)" "settled v"
    and "IsZero E (DeletionTimestamp (p_Meta p))" "pipelineFinalizer \<in> set (Finalizers (p_Meta p))"
    and "v (KCluster, ns_of p, ref_of p) \<noteq> None"
  shows "wpv view (DataPrepperPipelineReconciler_Reconcile E req)
           (\<lambda>r w. (r = Inr () \<longleftrightarrow> applicable E v p) \<and> (r = Inr () \<longrightarrow> applied E v p w)) v"
proof -
  have "wpv view (handleFetched E p)
      (\<lambda>r w. (r = Inr () \<longleftrightarrow> applicable E v p) \<and> (r = Inr () \<longrightarrow> applied E v p w)) v"
    unfolding handleFetched_def using assms by (simp add: ContainsFinalizer handleLive_applied)
  then show ?thesis unfolding Reconcile_parts
    by (intro wpv_bind up_getPipeline) (use assms in auto)
qed

lemma reconcile_pending:
  assumes "installed KPipeline" "installed KCluster"
    and "v (KPipeline, req) = Some (PipelineObj p)" "pkey p = (KPipeline, req)"
    and "IsZero E (DeletionTimestamp (p_Meta p))" "pipelineFinalizer \<in> set (Finalizers (p_Meta p))"
    and "v (KCluster, ns_of p, ref_of p) = None"
  shows "wpv view (DataPrepperPipelineReconciler_Reconcile E req) (\<lambda>r w. r = Inr () \<and> only_changes {pkey p} v w \<and>
           status_written E p DataPrepperPipelinePhasePending zeroPodHealth w) v"
proof -
  have "wpv view (handleFetched E p) (\<lambda>r w. r = Inr () \<and> only_changes {pkey p} v w \<and>
           status_written E p DataPrepperPipelinePhasePending zeroPodHealth w) v"
    unfolding handleFetched_def
    using handleLive_pending [of v p, OF assms(1,2) _ assms(7)] assms(3-6) by (simp add: ContainsFinalizer)
  then show ?thesis unfolding Reconcile_parts
    by (intro wpv_bind up_getPipeline) (use assms in auto)
qed

lemma reconcile_adds_finalizer:
  assumes "installed KPipeline"
    and "v (KPipeline, req) = Some (PipelineObj p)" "pkey p = (KPipeline, req)"
    and "IsZero E (DeletionTimestamp (p_Meta p))" "pipelineFinalizer \<notin> set (Finalizers (p_Meta p))"
  shows "wpv view (DataPrepperPipelineReconciler_Reconcile E req) (\<lambda>r w. r = Inr () \<and> only_changes {pkey p} v w \<and>
           (\<exists>p'. w (pkey p) = Some (PipelineObj p') \<and> same_role p p' \<and> p_Stat p' = p_Stat p \<and>
             Finalizers (p_Meta p') = Finalizers (p_Meta p) @ [pipelineFinalizer])) v" (is "wpv view _ ?Q v")
proof -
  let ?q = "p\<lparr>p_Meta := (p_Meta p)\<lparr>Finalizers := Finalizers (p_Meta p) @ [pipelineFinalizer]\<rparr>\<rparr>"
  have "?Q (Inr ()) w" if "update_effect (PipelineObj ?q) v w" for w
  proof -
    have "only_changes {pkey p} v w" using update_only [OF that] by simp
    moreover have "\<exists>p'. w (pkey p) = Some (PipelineObj p') \<and> same_role p p' \<and> p_Stat p' = p_Stat p \<and>
        Finalizers (p_Meta p') = Finalizers (p_Meta p) @ [pipelineFinalizer]"
      using that assms(2,3) by (auto simp: update_effect_def stored_as_def meta_kept_def same_role_def status_of_def)
    ultimately show ?thesis by simp
  qed
  then have "wpv view (handleFetched E p) ?Q v"
    unfolding handleFetched_def using assms
    by (auto simp: ContainsFinalizer AddFinalizer intro!: wpv_bindE up_Update wpv_returnE)
  then show ?thesis unfolding Reconcile_parts
    by (intro wpv_bind up_getPipeline) (use assms in auto)
qed

lemma handleDeleted_up:
  assumes inst: "installed KPipeline" "installed KConfigMap" "installed KDeployment"
    and p: "v (pkey p) = Some (PipelineObj p)" and v: "settled v"
    and del: "DeletionTimestamp (p_Meta p) \<noteq> None" "Finalizers (p_Meta p) = [pipelineFinalizer]"
  shows "wpv view (handleDeleted E p) (\<lambda>r w.
      (r = Inr () \<longleftrightarrow> (\<exists>content. content_of E v (ns_of p) (ref_of p) (Name (p_Meta p)) content)) \<and>
      w (pkey p) = (if r = Inr () then None else Some (PipelineObj p)) \<and>
      (r = Inr () \<longrightarrow> config_data v (ns_of p) (pipelines_cm (ref_of p)) \<noteq> None \<longrightarrow>
         pod_annotations v (ns_of p) (ref_of p) \<noteq> None \<longrightarrow>
         rebuilt E v (ns_of p) (ref_of p) (Name (p_Meta p)) w)) v"
proof -
  have drop: "wpv view (dropFinalizer E p) (\<lambda>r u. r = Inr () \<and> u (pkey p) = None \<and> only_changes {pkey p} w u) w"
    if "w (pkey p) = Some (PipelineObj p)" for w
    unfolding dropFinalizer_def
    by (rule up_Update)
      (use inst that del in \<open>auto simp: RemoveFinalizer update_effect_def only_changes_def\<close>)
  show ?thesis
    unfolding handleDeleted_def
    apply (rule wpv_if [OF wpv_bind])
     apply (rule wpv_mono [OF wpv_conj [OF rebuild_up [OF inst] wpv_conj [OF rebuild_frame rebuild_spec [OF v]]]])
     apply (auto split: sum.splits intro!: wpv_rules wpv_mono [OF drop] simp: p rebuild_keeps_pipeline
       ContainsFinalizer del dest: rebuilt_own_write)
    done
qed

lemma reconcile_deleted:
  assumes "installed KPipeline" "installed KConfigMap" "installed KDeployment"
    and "v (KPipeline, req) = Some (PipelineObj p)" "pkey p = (KPipeline, req)" "settled v"
    and "\<not> IsZero E (DeletionTimestamp (p_Meta p))" "Finalizers (p_Meta p) = [pipelineFinalizer]"
  shows "wpv view (DataPrepperPipelineReconciler_Reconcile E req) (\<lambda>r w.
      (r = Inr () \<longleftrightarrow> (\<exists>content. content_of E v (ns_of p) (ref_of p) (Name (p_Meta p)) content)) \<and>
      w (pkey p) = (if r = Inr () then None else Some (PipelineObj p)) \<and>
      (r = Inr () \<longrightarrow> config_data v (ns_of p) (pipelines_cm (ref_of p)) \<noteq> None \<longrightarrow>
         pod_annotations v (ns_of p) (ref_of p) \<noteq> None \<longrightarrow>
         rebuilt E v (ns_of p) (ref_of p) (Name (p_Meta p)) w)) v" (is "wpv view _ ?Q v")
proof -
  have del: "DeletionTimestamp (p_Meta p) \<noteq> None" using assms(7) IsZero_nil by metis
  have p: "v (pkey p) = Some (PipelineObj p)" using assms(4,5) by simp
  have "wpv view (handleFetched E p) ?Q v"
    using handleDeleted_up [of v p, OF assms(1-3) p assms(6) del assms(8)] assms(7) by (simp add: handleFetched_def)
  then show ?thesis unfolding Reconcile_parts
    by (intro wpv_bind up_getPipeline) (use assms in auto)
qed

end

section \<open>Quiescence\<close>

text \<open>A change that keeps the specs of pipelines keeps what they merge to.\<close>

lemma merged_image:
  assumes "inj_on f C" "\<And>p. p \<in> C \<Longrightarrow> p_Spec (f p) = p_Spec p"
  shows "merged (f ` C) ds \<longleftrightarrow> merged C ds"
proof -
  have "mergeable (f p) \<longleftrightarrow> mergeable p" if "p \<in> C" for p
    using assms(2) [OF that] by (simp add: mergeable_def)
  moreover have "inj_on yaml_key (f ` C) \<longleftrightarrow> inj_on yaml_key C"
    using comp_inj_on_iff [OF assms(1), of yaml_key] assms(2) by (simp add: inj_on_def)
  ultimately show ?thesis using assms(2) by (simp add: merged_def)
qed

lemma content_of_status:
  assumes keyed: "\<And>key ob. v key = Some ob \<Longrightarrow> obj_key ob = key"
    and p: "v (pkey p) = Some (PipelineObj p)" "w (pkey p) = Some (PipelineObj p')" "same_role p p'"
    and frame: "only_changes (footprint p) v w"
  shows "content_of E w ns ref excl content \<longleftrightarrow> content_of E v ns ref excl content"
proof -
  let ?f = "\<lambda>q. if q = p then p' else q"
  have names: "q = p" if "v (KPipeline, ns, n) = Some (PipelineObj q)" "Name (p_Meta q) = Name (p_Meta p)"
      "Namespace (p_Meta q) = Namespace (p_Meta p)" for q n
    using keyed [OF that(1)] that p(1) by auto
  have other: "w (KPipeline, a, n) = v (KPipeline, a, n)" if "(KPipeline, a, n) \<noteq> pkey p" for a n
    by (rule only_changesD [OF frame]) (use that in \<open>auto simp: footprint_def\<close>)
  have at: "(q = p) \<longleftrightarrow> (KPipeline, ns, n) = pkey p" if "v (KPipeline, ns, n) = Some (PipelineObj q)" for q n
  proof -
    have "pkey q = (KPipeline, ns, n)" using keyed [OF that] by simp
    with that p(1) show ?thesis by (metis kobject.inject(3) option.inject)
  qed
  have "stored_pipelines w ns = ?f ` stored_pipelines v ns"
  proof (intro set_eqI iffI)
    fix q assume "q \<in> stored_pipelines w ns"
    then obtain n where n: "w (KPipeline, ns, n) = Some (PipelineObj q)" by (auto simp: stored_pipelines_def)
    show "q \<in> ?f ` stored_pipelines v ns"
    proof (cases "(KPipeline, ns, n) = pkey p")
      case True
      then have "p \<in> stored_pipelines v ns" "q = ?f p" using n p by (auto simp: stored_pipelines_def)
      then show ?thesis by blast
    next
      case False
      then have v: "v (KPipeline, ns, n) = Some (PipelineObj q)" using n other by simp
      then have "q \<noteq> p" using at False by blast
      then show ?thesis using v by (auto simp: stored_pipelines_def image_iff)
    qed
  next
    fix q assume "q \<in> ?f ` stored_pipelines v ns"
    then obtain q0 n where q0: "v (KPipeline, ns, n) = Some (PipelineObj q0)" "q = ?f q0"
      by (auto simp: stored_pipelines_def)
    then have "w (KPipeline, ns, n) = Some (PipelineObj q)"
      using at [OF q0(1)] other p(2) by (cases "q0 = p") auto
    then show "q \<in> stored_pipelines w ns" by (auto simp: stored_pipelines_def)
  qed
  then have C: "contributors E w ns ref excl = ?f ` contributors E v ns ref excl"
    using p(3) by (auto simp: contributors_def contributes_def same_role_def)
  have "inj_on ?f (contributors E v ns ref excl)"
    using names p(3) by (auto simp: inj_on_def contributors_def stored_pipelines_def same_role_def)
  then have "merged (contributors E w ns ref excl) ds \<longleftrightarrow> merged (contributors E v ns ref excl) ds" for ds
    unfolding C by (rule merged_image) (use p(3) in \<open>simp add: same_role_def\<close>)
  then show ?thesis by (simp add: content_of_def)
qed

lemma reports_same_core:
  "same_core p p' \<Longrightarrow> reports E p' phase h st = reports E p phase h st"
  by (simp add: reports_def same_core_conditions) (simp add: same_core_def)

lemma readyCondition_traced: "readyCondition (traced E) p phase = readyCondition E p phase"
  by (simp add: readyCondition_def)

context api_server
begin

text \<open>A status that already reports what is to be reported is not written again.\<close>

lemma setStatus_quiet:
  assumes "reports E p phase h (p_Stat p)" "h' = h \<or> \<not> ph_known h'"
  shows "wpt view (setStatus (traced E) p phase h') (\<lambda>r w cs. w = v \<and> cs = []) v"
proof -
  let ?cs = "pt_Conditions (p_Stat p)"
  have ready: "set_condition now ?cs (readyCondition E p phase) = ?cs" for now
    using assms(1) by (simp add: reports_def set_condition_idem)
  have healthy: "set_condition now ?cs (healthyCondition p h') = ?cs" if "ph_known h'" for now
    using assms that by (auto simp: reports_def intro!: set_condition_idem)
  have "wpt view (writeStatus (traced E) p phase ?cs) (\<lambda>r w cs. w = v \<and> cs = []) v"
    using assms(1) by (auto simp: writeStatus_def reports_def DeepEqual intro!: wpt_returnE)
  then show ?thesis
    unfolding setStatus_parts traced_sel readyCondition_traced
    by (intro wpt_bind wpt_silent wpv_Condition)
      (auto simp: ready healthy intro!: wpt_bind wpt_silent wpv_Condition wpt_return)
qed

lemma inspect_quiet:
  "wpt view (inspectClusterHealth (traced E) ns ref)
     (\<lambda>h w cs. w = v \<and> quiet cs \<and> (ph_known h \<longrightarrow> observed_health E (stored_pods v ns (app_selector ref)) h)) v"
  unfolding inspect_parts listAs_traced healthOf_traced
  by (intro wpt_bind wpt_record wpv_listPods)
    (auto intro!: wpt_return simp: zeroPodHealth_def observed_health_def)

lemma handleLive_quiet:
  assumes cluster: "v (KCluster, ns_of p, ref_of p) \<noteq> None"
    and sync: "in_sync E v (ns_of p) (ref_of p) []"
    and rep: "reports E p DataPrepperPipelinePhaseApplied h (p_Stat p)"
    and pods: "observed_health E (stored_pods v (ns_of p) (app_selector (ref_of p))) h"
      "\<forall>q\<in>stored_pods v (ns_of p) (app_selector (ref_of p)). \<not> pod_fails E q"
  shows "wpt view (handleLive (traced E) p) (\<lambda>r w cs. w = v \<and> quiet cs) v"
proof -
  have "wpt view (do { health \<leftarrow> inspectClusterHealth (traced E) (ns_of p) (ref_of p);
      setStatus (traced E) p DataPrepperPipelinePhaseApplied health }) (\<lambda>r w cs. w = v \<and> quiet cs) v"
    by (rule wpt_bind, rule wpt_mono [OF inspect_quiet], clarify, rule wpt_mono [OF setStatus_quiet [OF rep]])
      (use observed_health_unique [OF pods(2)] pods(1) in auto)
  then have "wpt view (bindE (rebuildClusterConfig (traced E) (ns_of p) (ref_of p) []) (\<lambda>_. do {
      health \<leftarrow> inspectClusterHealth (traced E) (ns_of p) (ref_of p);
      setStatus (traced E) p DataPrepperPipelinePhaseApplied health })) (\<lambda>r w cs. w = v \<and> quiet cs) v"
    by (intro wpt_bindE wpt_mono [OF rebuild_quiet [OF sync]])
      (auto split: sum.splits elim!: wpt_mono)
  then show ?thesis
    unfolding handleLive_def getAs_traced
    by (intro wpt_bind wpt_record wpv_getCluster) (use cluster in \<open>auto intro!: wpt_throwE elim!: wpt_mono\<close>)
qed

end

context api_server
begin

lemma reconcile_quiet:
  assumes "v (KPipeline, req) = Some (PipelineObj p)" "IsZero E (DeletionTimestamp (p_Meta p))"
    and "pipelineFinalizer \<in> set (Finalizers (p_Meta p))"
    and "wpt view (handleLive (traced E) p) (\<lambda>r w cs. w = v \<and> quiet cs) v"
  shows "wpt view (DataPrepperPipelineReconciler_Reconcile (traced E) req) (\<lambda>r w cs. w = v \<and> quiet cs) v"
  unfolding Reconcile_parts getAs_traced
  by (intro wpt_bind wpt_record wpv_getPipeline)
    (use assms in \<open>auto simp: handleFetched_def ContainsFinalizer intro!: wpt_throwE elim!: wpt_mono\<close>)

lemma reconcile_new:
  assumes "v (KPipeline, req) = Some (PipelineObj p)" "IsZero E (DeletionTimestamp (p_Meta p))"
    and "pipelineFinalizer \<notin> set (Finalizers (p_Meta p))"
  shows "wpt view (DataPrepperPipelineReconciler_Reconcile (traced E) req)
    (\<lambda>r w cs. filter is_write cs \<in> {[], [CUpdate (PipelineObj
      (p\<lparr>p_Meta := (p_Meta p)\<lparr>Finalizers := Finalizers (p_Meta p) @ [pipelineFinalizer]\<rparr>\<rparr>))]}) v"
  unfolding Reconcile_parts getAs_traced
  by (intro wpt_bind wpt_record wpv_getPipeline)
    (use assms in \<open>auto simp: handleFetched_def ContainsFinalizer AddFinalizer split: sum.splits
       intro!: wpt_throwE wpt_returnE wpt_bindE wpt_record wpv_Update\<close>)

end

text \<open>What an applied pipeline leaves behind makes the next reconcile quiet.\<close>

context available_server
begin

lemma applied_in_sync:
  assumes app: "applied E (view s) p (view s')" and p: "view s (pkey p) = Some (PipelineObj p)"
    and frame: "only_changes (footprint p) (view s) (view s')"
  shows "in_sync E (view s') (ns_of p) (ref_of p) []"
proof -
  from app obtain p' where p': "view s' (pkey p) = Some (PipelineObj p')" "same_core p p'"
    and reb: "rebuilt E (view s) (ns_of p) (ref_of p) [] (view s')"
    unfolding applied_def status_written_def by blast
  have "content_of E (view s') (ns_of p) (ref_of p) [] c \<longleftrightarrow> content_of E (view s) (ns_of p) (ref_of p) [] c" for c
    by (rule content_of_status [of "view s" p "view s'" p', OF _ p p'(1) same_core_role [OF p'(2)] frame]) (rule view_key)
  with reb show ?thesis unfolding rebuilt_def in_sync_def entry_set_def by metis
qed

lemma applied_quiet:
  assumes app: "applied E (view s) p (view s')" and p: "view s (pkey p) = Some (PipelineObj p)"
    and frame: "only_changes (footprint p) (view s) (view s')"
    and live: "IsZero E (DeletionTimestamp (p_Meta p))" "pipelineFinalizer \<in> set (Finalizers (p_Meta p))"
    and cluster: "view s (KCluster, ns_of p, ref_of p) \<noteq> None"
    and pods: "\<forall>q\<in>stored_pods (view s) (ns_of p) (app_selector (ref_of p)). \<not> pod_fails E q"
  shows "wpt view (DataPrepperPipelineReconciler_Reconcile (traced E) (ns_of p, Name (p_Meta p)))
           (\<lambda>r w cs. w = view s' \<and> quiet cs) (view s')"
proof -
  from app obtain h p' where h: "observed_health E (stored_pods (view s) (ns_of p) (app_selector (ref_of p))) h"
    and p': "view s' (pkey p) = Some (PipelineObj p')" "same_core p p'"
      "reports E p DataPrepperPipelinePhaseApplied h (p_Stat p')"
    unfolding applied_def status_written_def by blast
  have core: "ns_of p' = ns_of p" "ref_of p' = ref_of p" using p'(2) by (simp_all add: same_core_def)
  have "stored_pods (view s') (ns_of p) sel = stored_pods (view s) (ns_of p) sel" for sel
    using only_changesD [OF frame] by (simp add: stored_pods_def footprint_def)
  moreover have "view s' (KCluster, ns_of p, ref_of p) = view s (KCluster, ns_of p, ref_of p)"
    using only_changesD [OF frame] by (simp add: footprint_def)
  moreover have "in_sync E (view s') (ns_of p) (ref_of p) []" by (rule applied_in_sync [OF app p frame])
  moreover have "reports E p' DataPrepperPipelinePhaseApplied h (p_Stat p')"
    using p'(3) by (simp only: reports_same_core [OF p'(2)])
  ultimately have "wpt view (handleLive (traced E) p') (\<lambda>r w cs. w = view s' \<and> quiet cs) (view s')"
    using cluster pods h
    by (intro handleLive_quiet) (simp_all add: core)
  then show ?thesis
    by (intro reconcile_quiet [of _ _ p']) (use p' live in \<open>auto simp: same_core_def\<close>)
qed

end

section \<open>Watch events\<close>

lemma set_requestsFor:
  "set (requestsFor ref items) = (\<lambda>p. (ns_of p, Name (p_Meta p))) ` {p \<in> set items. ref_of p = ref}"
  by (induction items) auto

context available_server
begin

lemma findForConfigMap_spec:
  assumes "installed KPipeline"
  shows "wpv view (findPipelinesForConfigMap E (ConfigMapObj cm))
     (\<lambda>reqs w. w = v \<and> set reqs =
        (\<lambda>p. (ns_of p, Name (p_Meta p))) `
          {p \<in> stored_pipelines v (Namespace (cm_Meta cm)). Name (cm_Meta cm) = pipelines_cm (ref_of p)}) v"
proof (cases "HasSuffix (Name (cm_Meta cm)) pipelinesConfigMapSuffix")
  case False
  then have "Name (cm_Meta cm) \<noteq> pipelines_cm r" for r by auto
  with False show ?thesis by (auto simp: findPipelinesForConfigMap_def intro: wpv_return)
next
  case True
  then have "Name (cm_Meta cm) = pipelines_cm r \<longleftrightarrow>
      r = TrimSuffix (Name (cm_Meta cm)) pipelinesConfigMapSuffix" for r
    by (metis HasSuffix_iff TrimSuffix_append)
  with True show ?thesis
    by (auto simp: findPipelinesForConfigMap_def set_requestsFor
        intro!: wpv_bind up_listPipelines assms wpv_return)
qed

end

section \<open>Concrete pipelines\<close>

definition finalized :: "DataPrepperPipeline \<Rightarrow> DataPrepperPipeline" where
  "finalized p = p\<lparr>p_Meta := (p_Meta p)\<lparr>Finalizers := [pipelineFinalizer]\<rparr>\<rparr>"

definition deleting :: "DataPrepperPipeline \<Rightarrow> DataPrepperPipeline" where
  "deleting p = p\<lparr>p_Meta := (p_Meta p)\<lparr>Finalizers := [pipelineFinalizer], DeletionTimestamp := Some 5\<rparr>\<rparr>"

definition demoPod :: pod where
  "demoPod = \<lparr>pod_Meta = (demoMeta ''prepper-0'')\<lparr>MetaLabels := Some (app_selector ''prepper'')\<rparr>,
              pod_ContainerStatuses = [\<lparr>cst_Name = ''data-prepper'', cst_Waiting = None, cst_Terminated = None\<rparr>]\<rparr>"

text \<open>A cluster with one more pipeline besides \<open>p\<close>.\<close>

definition demoWith :: "DataPrepperPipeline \<Rightarrow> mem" where
  "demoWith p = mem_of [PipelineObj p, PipelineObj (finalized (demoPipeline ''two'' ''traces'')),
                        ClusterObj demoCluster, ConfigMapObj demoConfigMap, DeploymentObj demoDeployment,
                        PodObj demoPod]"

definition demoOne :: "DataPrepperPipeline \<Rightarrow> bool" where
  "demoOne p \<longleftrightarrow> p = demoPipeline ''one'' ''logs'' \<or> p = finalized (demoPipeline ''one'' ''logs'') \<or>
                 p = deleting (demoPipeline ''one'' ''logs'')"

lemma demoOne_facts:
  assumes "demoOne p"
  shows "Name (p_Meta p) = ''one''" "Namespace (p_Meta p) = ''default''"
    "p_Spec p = \<lparr>ps_ClusterRef = ''prepper'', ps_YAMLKey = ''logs'', ps_Pipeline = demoRaw\<rparr>"
    "DeletionTimestamp (p_Meta p) \<noteq> None \<longrightarrow> Finalizers (p_Meta p) \<noteq> []"
  using assms by (auto simp: demoOne_def finalized_def deleting_def demo_defs)

lemma demoTwo_facts:
  "Name (p_Meta (finalized (demoPipeline ''two'' ''traces''))) = ''two''"
  "Namespace (p_Meta (finalized (demoPipeline ''two'' ''traces''))) = ''default''"
  "DeletionTimestamp (p_Meta (finalized (demoPipeline ''two'' ''traces''))) = None"
  "p_Spec (finalized (demoPipeline ''two'' ''traces'')) =
     \<lparr>ps_ClusterRef = ''prepper'', ps_YAMLKey = ''traces'', ps_Pipeline = demoRaw\<rparr>"
  by (simp_all add: finalized_def demoPipeline_def demoMeta_def object_meta_def)

lemma demo_metas:
  "c_Meta demoCluster = demoMeta ''prepper''" "cm_Meta demoConfigMap = demoMeta ''prepper-pipelines''"
  "d_Meta demoDeployment = demoMeta ''prepper''" "Name (demoMeta n) = n" "Namespace (demoMeta n) = ''default''"
  "DeletionTimestamp (demoMeta n) = None" "Name (pod_Meta demoPod) = ''prepper-0''"
  "Namespace (pod_Meta demoPod) = ''default''" "DeletionTimestamp (pod_Meta demoPod) = None"
  by (simp_all add: demoCluster_def demoConfigMap_def demoDeployment_def demoMeta_def object_meta_def demoPod_def)

lemmas demoWith_eval = demoWith_def mem_of_def mem_view_def demoOne_facts(1,2) demoTwo_facts demo_metas

lemma two_keys:
  "a \<noteq> b \<Longrightarrow> (\<exists>n. (if n = a then Some x else if n = b then Some y else None) = Some z) \<longleftrightarrow> x = z \<or> y = z"
  by auto

lemma demoWith_view:
  assumes p: "demoOne p"
  shows "mem_view (demoWith p) (KPipeline, ''default'', ''one'') = Some (PipelineObj p)"
    and "mem_view (demoWith p) (KCluster, ''default'', ''prepper'') = Some (ClusterObj demoCluster)"
    and "stored_pipelines (mem_view (demoWith p)) ''default'' = {p, finalized (demoPipeline ''two'' ''traces'')}"
    and "config_data (mem_view (demoWith p)) ''default'' (pipelines_cm ''prepper'') \<noteq> None"
    and "pod_annotations (mem_view (demoWith p)) ''default'' ''prepper'' \<noteq> None"
proof -
  show "mem_view (demoWith p) (KPipeline, ''default'', ''one'') = Some (PipelineObj p)"
    "mem_view (demoWith p) (KCluster, ''default'', ''prepper'') = Some (ClusterObj demoCluster)"
    using p by (simp_all add: demoWith_eval)
  show "stored_pipelines (mem_view (demoWith p)) ''default'' = {p, finalized (demoPipeline ''two'' ''traces'')}"
  proof -
    have view: "mem_view (demoWith p) (KPipeline, ''default'', n) =
        (if n = ''one'' then Some (PipelineObj p)
         else if n = ''two'' then Some (PipelineObj (finalized (demoPipeline ''two'' ''traces''))) else None)" for n
      using p by (simp add: demoWith_eval eq_commute [of _ n])
    have "q \<in> stored_pipelines (mem_view (demoWith p)) ''default'' \<longleftrightarrow>
        p = q \<or> finalized (demoPipeline ''two'' ''traces'') = q" for q
      unfolding stored_pipelines_def mem_Collect_eq view
      by (subst two_keys) (simp, simp only: kobject.inject)
    then show ?thesis by (intro set_eqI) (simp only: insert_iff empty_iff eq_commute simp_thms)
  qed
  show "config_data (mem_view (demoWith p)) ''default'' (pipelines_cm ''prepper'') \<noteq> None"
    using p by (simp add: demoWith_eval config_data_def pipelinesConfigMapSuffix_def)
  show "pod_annotations (mem_view (demoWith p)) ''default'' ''prepper'' \<noteq> None"
    using p by (simp add: demoWith_eval pod_annotations_def)
qed

lemma demoWith_settled: "demoOne p \<Longrightarrow> settled (mem_view (demoWith p))"
  unfolding demoWith_def by (rule settled_mem_of) (simp add: demoOne_facts(4) demoTwo_facts demo_metas)

lemma demo_pods:
  assumes "demoOne p"
  shows "\<forall>q\<in>stored_pods (mem_view (demoWith p)) ''default'' (app_selector ''prepper''). \<not> pod_fails E q"
proof -
  have "\<not> pod_fails E demoPod"
    by (simp add: demoPod_def pod_fails_def failure_reason_def reason_of_def)
  moreover have "q = demoPod" if "mem_view (demoWith p) (KPod, ''default'', n) = Some (PodObj q)" for q n
    using that assms by (simp add: demoWith_eval split: if_splits)
  ultimately show ?thesis by (auto simp: stored_pods_def)
qed

lemma demoWith_content:
  assumes "demoOne p"
  shows "\<exists>content. content_of (mem_env inst) (mem_view (demoWith p)) ''default'' ''prepper'' excl content"
proof -
  let ?q = "finalized (demoPipeline ''two'' ''traces'')"
  let ?ps = "filter (contributes (mem_env inst) ''prepper'' excl) [p, ?q]"
  have C: "contributors (mem_env inst) (mem_view (demoWith p)) ''default'' ''prepper'' excl = set ?ps"
    unfolding contributors_def demoWith_view(3) [OF assms] by auto
  have "mergeable p" "mergeable ?q" "yaml_key p \<noteq> yaml_key ?q"
    using demo_key_nonblank by (simp_all add: mergeable_def demoOne_facts(3) [OF assms] demoTwo_facts demoRaw_keys)
  then have "merged (set ?ps) (insertAll ?ps fmempty)"
    by (intro merged_insertAll) auto
  then show ?thesis unfolding content_of_def C using mem_renders by metis
qed

section \<open>Properties\<close>

text \<open>
  C16: a pipeline without the finalizer is given it before any work is done for it: the only write the
  reconciler can make for such a pipeline is the update of the pipeline itself that adds the finalizer.
\<close>

theorem pipeline_finalizer_first:
  assumes "api_server E view" "view s (KPipeline, req) = Some (PipelineObj p)"
    and "IsZero E (DeletionTimestamp (p_Meta p))" "pipelineFinalizer \<notin> set (Finalizers (p_Meta p))"
    and "run_state (DataPrepperPipelineReconciler_Reconcile (traced E) req) (s, tr) = (r, s', tr')"
  shows "\<exists>cs. tr' = tr @ cs \<and>
    filter is_write cs \<in> {[], [CUpdate (PipelineObj
      (p\<lparr>p_Meta := (p_Meta p)\<lparr>Finalizers := Finalizers (p_Meta p) @ [pipelineFinalizer]\<rparr>\<rparr>))]}"
  using wptD [OF api_server.reconcile_new [of E view "view s" req p, OF assms(1-4)] refl assms(5)] .

theorem pipeline_finalizer_first_witness:
  "\<exists>r s' cs. run_state (DataPrepperPipelineReconciler_Reconcile (traced (mem_env all_kinds)) (''default'', ''one''))
      (demoWith (demoPipeline ''one'' ''logs''), []) = (r, s', cs) \<and>
    filter is_write cs \<in> {[], [CUpdate (PipelineObj (finalized (demoPipeline ''one'' ''logs'')))]}"
proof -
  let ?p = "demoPipeline ''one'' ''logs''"
  have p: "demoOne ?p" by (simp add: demoOne_def)
  obtain r s' cs where run: "run_state (DataPrepperPipelineReconciler_Reconcile (traced (mem_env all_kinds))
      (''default'', ''one'')) (demoWith ?p, []) = (r, s', cs)" by (metis prod.exhaust)
  have "IsZero (mem_env all_kinds) (DeletionTimestamp (p_Meta ?p))" "Finalizers (p_Meta ?p) = []"
    by (simp_all add: demoPipeline_def demoMeta_def object_meta_def)
  then show ?thesis
    using pipeline_finalizer_first [OF mem.api_server_axioms demoWith_view(1) [OF p] _ _ run] run
    by (auto simp: finalized_def)
qed


lemma demo_live:
  "IsZero (mem_env inst) (DeletionTimestamp (p_Meta (finalized (demoPipeline n k))))"
  "pipelineFinalizer \<in> set (Finalizers (p_Meta (finalized (demoPipeline n k))))"
  by (simp_all add: finalized_def demoPipeline_def demoMeta_def object_meta_def)

lemma demo_applicable:
  assumes "demoOne p"
  shows "applicable (mem_env inst) (mem_view (demoWith p)) p"
  using demoWith_content [OF assms] demoWith_view(4,5) [OF assms]
  by (simp add: applicable_def demoOne_facts [OF assms])


text \<open>
  C14: reconciling is quiescent: after a live pipeline that has the finalizer, with no failing pods, has been applied, another
  reconcile of it, with nothing else changed, makes no write: neither ConfigMap, Deployment nor status.
\<close>

theorem pipeline_reconcile_quiescent:
  assumes "available_server E view installed" "list_all installed [KPipeline, KCluster, KConfigMap, KDeployment, KPod]"
    and "view s (KPipeline, ns, n) = Some (PipelineObj p)" "settled (view s)"
    and "IsZero E (DeletionTimestamp (p_Meta p))" "pipelineFinalizer \<in> set (Finalizers (p_Meta p))"
    and "view s (KCluster, ns, ref_of p) \<noteq> None"
    and "\<forall>q\<in>stored_pods (view s) ns (app_selector (ref_of p)). \<not> pod_fails E q"
    and "run_state (DataPrepperPipelineReconciler_Reconcile E (ns, n)) s = (Inr (), s1)"
    and "run_state (DataPrepperPipelineReconciler_Reconcile (traced E) (ns, n)) (s1, tr) = (r, s2, tr')"
  shows "view s2 = view s1 \<and> (\<exists>cs. tr' = tr @ cs \<and> quiet cs)"
proof -
  note server = available_server.axioms(1) [OF assms(1)]
  have key: "ns_of p = ns" "Name (p_Meta p) = n" using api_server.view_key [OF server assms(3)] by simp_all
  have "wpv view (DataPrepperPipelineReconciler_Reconcile E (ns, n))
      (\<lambda>r w. (r = Inr () \<longleftrightarrow> applicable E (view s) p) \<and> (r = Inr () \<longrightarrow> applied E (view s) p w)) (view s)"
    by (rule available_server.reconcile_applied [OF assms(1)]) (use assms key in auto)
  from wpvD [OF this refl assms(9)] have "applied E (view s) p (view s1)" by simp
  moreover have "only_changes (footprint p) (view s) (view s1)"
    using wpvD [OF api_server.reconcile_frame [of E view "view s" "(ns, n)" p, OF server assms(3)] refl assms(9)] .
  ultimately have "wpt view (DataPrepperPipelineReconciler_Reconcile (traced E) (ns_of p, Name (p_Meta p)))
      (\<lambda>r w cs. w = view s1 \<and> quiet cs) (view s1)"
    by (intro available_server.applied_quiet [OF assms(1), of s p s1]) (use assms key in auto)
  from wptD [OF this refl, unfolded key, OF assms(10)] show ?thesis by blast
qed

theorem pipeline_reconcile_quiescent_witness:
  "\<exists>s1 r s2 cs. run_state (DataPrepperPipelineReconciler_Reconcile (mem_env all_kinds) (''default'', ''one''))
      (demoWith (finalized (demoPipeline ''one'' ''logs''))) = (Inr (), s1) \<and>
    run_state (DataPrepperPipelineReconciler_Reconcile (traced (mem_env all_kinds)) (''default'', ''one'')) (s1, [])
      = (r, s2, cs) \<and> quiet cs"
proof -
  let ?p = "finalized (demoPipeline ''one'' ''logs'')" and ?E = "mem_env all_kinds"
  let ?run = "run_state (DataPrepperPipelineReconciler_Reconcile ?E (''default'', ''one'')) (demoWith ?p)"
  have p: "demoOne ?p" by (simp add: demoOne_def)
  note facts = demoOne_facts [OF p]
  have ref: "ref_of ?p = ''prepper''" by (simp add: facts(3))
  obtain r0 s1 where run: "?run = (r0, s1)" by (cases ?run)
  have "r0 = Inr ()"
    using mem.reconcile_applied [THEN wpvD, OF _ demoWith_view(1) [OF p] _ demoWith_settled [OF p] demo_live _ refl run]
      demoWith_view(2) [OF p] demo_applicable [OF p] by (auto simp: facts ref)
  then have run: "?run = (Inr (), s1)" using run by simp
  obtain r s2 cs where again:
    "run_state (DataPrepperPipelineReconciler_Reconcile (traced ?E) (''default'', ''one'')) (s1, []) = (r, s2, cs)"
    by (metis prod.exhaust)
  have "quiet cs"
    using pipeline_reconcile_quiescent [OF mem.available_server_axioms _ demoWith_view(1) [OF p] demoWith_settled [OF p]
        demo_live _ _ run again] demoWith_view(2) [OF p] demo_pods [OF p, of ?E] by (auto simp: ref)
  then show ?thesis using run again by blast
qed

text \<open>
  C9: against a server that answers, reconciling a pipeline that is being deleted and waits for this
  finalizer only removes it exactly when the remaining pipelines of its cluster merge. It is removed
  only after the configuration was rebuilt without it, unless the ConfigMap or the Deployment is gone;
  otherwise the pipeline stays, with its finalizer.
\<close>

theorem pipeline_deletion:
  assumes "available_server E view installed" "list_all installed [KPipeline, KConfigMap, KDeployment]"
    and "view s (KPipeline, ns, n) = Some (PipelineObj p)" "settled (view s)"
    and "\<not> IsZero E (DeletionTimestamp (p_Meta p))" "Finalizers (p_Meta p) = [pipelineFinalizer]"
    and "run_state (DataPrepperPipelineReconciler_Reconcile E (ns, n)) s = (r, s')"
  shows "(r = Inr () \<longleftrightarrow> (\<exists>content. content_of E (view s) ns (ref_of p) n content)) \<and>
    (r = Inr () \<longrightarrow> view s' (KPipeline, ns, n) = None \<and>
       (config_data (view s) ns (pipelines_cm (ref_of p)) \<noteq> None \<and> pod_annotations (view s) ns (ref_of p) \<noteq> None \<longrightarrow>
          rebuilt E (view s) ns (ref_of p) n (view s'))) \<and>
    (r \<noteq> Inr () \<longrightarrow> view s' (KPipeline, ns, n) = Some (PipelineObj p))"
proof -
  have key: "ns_of p = ns" "Name (p_Meta p) = n"
    using api_server.view_key [OF available_server.axioms(1) [OF assms(1)] assms(3)] by simp_all
  have "view s (KPipeline, ns, n) = Some (PipelineObj p)" "pkey p = (KPipeline, ns, n)" using assms(3) key by simp_all
  from wpvD [OF available_server.reconcile_deleted [OF assms(1) _ _ _ this assms(4-6)] refl assms(7)] assms(2)
  show ?thesis by (simp add: key)
qed

theorem pipeline_deletion_witness:
  "\<exists>s'. run_state (DataPrepperPipelineReconciler_Reconcile (mem_env all_kinds) (''default'', ''one''))
      (demoWith (deleting (demoPipeline ''one'' ''logs''))) = (Inr (), s') \<and>
    mem_view s' (KPipeline, ''default'', ''one'') = None"
proof -
  let ?p = "deleting (demoPipeline ''one'' ''logs'')" and ?E = "mem_env all_kinds"
  let ?run = "run_state (DataPrepperPipelineReconciler_Reconcile ?E (''default'', ''one'')) (demoWith ?p)"
  have p: "demoOne ?p" by (simp add: demoOne_def)
  have ref: "ref_of ?p = ''prepper''" by (simp add: demoOne_facts(3) [OF p])
  have del: "\<not> IsZero ?E (DeletionTimestamp (p_Meta ?p))" "Finalizers (p_Meta ?p) = [pipelineFinalizer]"
    by (simp_all add: deleting_def)
  obtain r s' where run: "?run = (r, s')" by (cases ?run)
  show ?thesis
    using pipeline_deletion [OF mem.available_server_axioms _ demoWith_view(1) [OF p] demoWith_settled [OF p] del run]
      demoWith_content [OF p, of all_kinds "''one''"] run by (simp add: ref)
qed

text \<open>
  C29: against a server that answers, reconciling a live pipeline whose cluster does not exist succeeds
  and changes nothing but the pipeline. If it carries the finalizer already, only its status changes,
  which becomes Pending with the reason ClusterNotFound; otherwise this reconcile only adds the finalizer,
  and the status stays for the next one.
\<close>

theorem pipeline_pending:
  assumes "available_server E view installed" "list_all installed [KPipeline, KCluster]"
    and "view s (KPipeline, ns, n) = Some (PipelineObj p)"
    and "IsZero E (DeletionTimestamp (p_Meta p))" "view s (KCluster, ns, ref_of p) = None"
    and "run_state (DataPrepperPipelineReconciler_Reconcile E (ns, n)) s = (r, s')"
  shows "r = Inr () \<and> only_changes {(KPipeline, ns, n)} (view s) (view s') \<and>
    (\<exists>p'. view s' (KPipeline, ns, n) = Some (PipelineObj p') \<and>
       (if pipelineFinalizer \<in> set (Finalizers (p_Meta p))
        then same_core p p' \<and> pt_Phase (p_Stat p') = ''Pending'' \<and>
          (\<exists>c\<in>set (pt_Conditions (p_Stat p')). c_Type c = ''Ready'' \<and> c_Status c = ConditionFalse \<and> c_Reason c = ''ClusterNotFound'')
        else same_role p p' \<and> p_Stat p' = p_Stat p \<and>
          Finalizers (p_Meta p') = Finalizers (p_Meta p) @ [pipelineFinalizer]))"
proof -
  have key: "ns_of p = ns" "Name (p_Meta p) = n"
    using api_server.view_key [OF available_server.axioms(1) [OF assms(1)] assms(3)] by simp_all
  have stored: "view s (KPipeline, ns, n) = Some (PipelineObj p)" "pkey p = (KPipeline, ns, n)"
    "view s (KCluster, ns_of p, ref_of p) = None" using assms(3,5) key by simp_all
  show ?thesis
  proof (cases "pipelineFinalizer \<in> set (Finalizers (p_Meta p))")
    case True
    from wpvD [OF available_server.reconcile_pending [OF assms(1) _ _ stored(1,2) assms(4) True stored(3)] refl assms(6)] assms(2)
    have "r = Inr ()" "only_changes {(KPipeline, ns, n)} (view s) (view s')"
      "status_written E p DataPrepperPipelinePhasePending zeroPodHealth (view s')" by (simp_all add: key)
    then show ?thesis
      using holds_conditionE True by (fastforce simp: status_written_def reports_def readyCondition_def phase_defs key)
  next
    case False
    from wpvD [OF available_server.reconcile_adds_finalizer [of E view installed "view s" "(ns, n)" p, OF assms(1) _ stored(1,2) assms(4) False] refl assms(6)] assms(2)
    show ?thesis using False by (simp add: key)
  qed
qed

text \<open>A new pipeline without its cluster: the first reconcile adds the finalizer, the second sets the status.\<close>

theorem pipeline_pending_witness:
  "\<exists>s1 s2. run_state (DataPrepperPipelineReconciler_Reconcile (mem_env all_kinds) (''default'', ''one''))
      (mem_of [PipelineObj (demoPipeline ''one'' ''logs'')]) = (Inr (), s1) \<and>
    run_state (DataPrepperPipelineReconciler_Reconcile (mem_env all_kinds) (''default'', ''one'')) s1 = (Inr (), s2) \<and>
    (\<exists>p'. mem_view s2 (KPipeline, ''default'', ''one'') = Some (PipelineObj p') \<and> pt_Phase (p_Stat p') = ''Pending'' \<and>
       Finalizers (p_Meta p') = [pipelineFinalizer])"
proof -
  let ?p = "demoPipeline ''one'' ''logs''" and ?E = "mem_env all_kinds" and ?k = "(KPipeline, ''default'', ''one'')"
  let ?s = "mem_of [PipelineObj ?p]"
  have p: "Finalizers (p_Meta ?p) = []" "DeletionTimestamp (p_Meta ?p) = None" "ref_of ?p = ''prepper''"
    by (simp_all add: demoPipeline_def demoMeta_def object_meta_def)
  have stored: "mem_view ?s ?k = Some (PipelineObj ?p)" and absent: "mem_view ?s (KCluster, ''default'', ref_of ?p) = None"
    by (simp_all add: mem_view_def mem_of_def demoPipeline_def demoMeta_def object_meta_def)
  obtain r1 s1 where one: "run_state (DataPrepperPipelineReconciler_Reconcile ?E (''default'', ''one'')) ?s = (r1, s1)" by (metis surj_pair)
  have live: "IsZero ?E (DeletionTimestamp (p_Meta ?p))" by (simp add: p(2))
  have inst: "list_all all_kinds [KPipeline, KCluster]" by simp
  from pipeline_pending [OF mem.available_server_axioms inst stored live absent one] p(1)
  obtain q where q: "r1 = Inr ()" "only_changes {?k} (mem_view ?s) (mem_view s1)" "mem_view s1 ?k = Some (PipelineObj q)"
    "same_role ?p q" "Finalizers (p_Meta q) = [pipelineFinalizer]" by auto
  have "mem_view s1 (KCluster, ''default'', ref_of q) = None"
    using only_changesD [OF q(2), of "(KCluster, ''default'', ref_of ?p)"] absent q(4) by (simp add: same_role_def)
  moreover have "IsZero ?E (DeletionTimestamp (p_Meta q))" using live q(4) by (simp add: same_role_def)
  moreover obtain r2 s2 where two: "run_state (DataPrepperPipelineReconciler_Reconcile ?E (''default'', ''one'')) s1 = (r2, s2)" by (metis surj_pair)
  ultimately show ?thesis
    using pipeline_pending [OF mem.available_server_axioms inst q(3) _ _ two] q(1,5) one by (auto simp: same_core_def)
qed

text \<open>
  C28: whatever it returns, reconciling a pipeline changes at most that pipeline, the pipelines
  ConfigMap of its cluster and the cluster's Deployment; in particular no other pipeline, no cluster
  and no object of another namespace.
\<close>

theorem pipeline_reconcile_footprint:
  assumes "api_server E view" "view s (KPipeline, ns, n) = Some (PipelineObj p)"
    and "run_state (DataPrepperPipelineReconciler_Reconcile E (ns, n)) s = (r, s')"
    and "view s' key \<noteq> view s key"
  shows "key = (KPipeline, ns, n) \<or> key = (KConfigMap, ns, ref_of p @ pipelinesConfigMapSuffix) \<or>
         key = (KDeployment, ns, ref_of p)"
proof -
  have "pkey p = (KPipeline, ns, n)" using api_server.view_key [OF assms(1,2)] by simp
  moreover have "only_changes (footprint p) (view s) (view s')"
    using wpvD [OF api_server.reconcile_frame [of E view "view s" "(ns, n)" p, OF assms(1,2)] refl assms(3)] .
  ultimately show ?thesis using assms(4) by (auto simp: footprint_def dest: only_changesD)
qed

theorem pipeline_reconcile_footprint_witness:
  "\<exists>r s'. run_state (DataPrepperPipelineReconciler_Reconcile (mem_env all_kinds) (''default'', ''one''))
      (demoWith (deleting (demoPipeline ''one'' ''logs''))) = (r, s') \<and>
    mem_view s' (KCluster, ''default'', ''prepper'') = Some (ClusterObj demoCluster) \<and>
    mem_view s' (KPipeline, ''default'', ''one'') \<noteq>
      mem_view (demoWith (deleting (demoPipeline ''one'' ''logs''))) (KPipeline, ''default'', ''one'')"
proof -
  let ?p = "deleting (demoPipeline ''one'' ''logs'')" and ?E = "mem_env all_kinds"
  let ?run = "run_state (DataPrepperPipelineReconciler_Reconcile ?E (''default'', ''one'')) (demoWith ?p)"
  have p: "demoOne ?p" by (simp add: demoOne_def)
  note facts = demoOne_facts [OF p]
  have del: "\<not> IsZero ?E (DeletionTimestamp (p_Meta ?p))" "Finalizers (p_Meta ?p) = [pipelineFinalizer]"
    by (simp_all add: deleting_def)
  obtain r s' where run: "?run = (r, s')" by (cases ?run)
  have "r = Inr () \<and> mem_view s' (KPipeline, ''default'', ''one'') = None"
    using mem.reconcile_deleted [THEN wpvD, OF _ _ _ demoWith_view(1) [OF p] _ demoWith_settled [OF p] del refl run]
      demoWith_content [OF p] by (auto simp: facts)
  moreover have "mem_view s' (KCluster, ''default'', ''prepper'') = Some (ClusterObj demoCluster)"
    using pipeline_reconcile_footprint [OF mem.api_server_axioms demoWith_view(1) [OF p] run,
        of "(KCluster, ''default'', ''prepper'')"] demoWith_view(2) [OF p] by auto
  ultimately show ?thesis using run demoWith_view(1) [OF p] by auto
qed

text \<open>
  C34: the health the controller derives from the pods of a cluster: known when the server answers,
  healthy exactly when there is a pod and no pod that is not being deleted has a data-prepper container
  with a waiting or terminated reason; the reason reported is NoPods without pods and otherwise the
  reason of such a container.
\<close>

theorem cluster_health_characterised:
  assumes "available_server E view installed" "installed KPod"
    and "run_state (inspectClusterHealth E ns ref) s = (h, s')"
  shows "view s' = view s \<and> health_ok E (stored_pods (view s) ns (fmupd ''app'' ref fmempty)) h"
  using wpvD [OF available_server.inspect_spec [OF assms(1,2)] refl assms(3)] by (simp add: observed_health_ok)

theorem cluster_health_characterised_witness:
  "ph_healthy (fst (run_state (inspectClusterHealth (mem_env all_kinds) ''default'' ''prepper'') (mem_of [PodObj demoPod])))
   \<and> ph_reason (fst (run_state (inspectClusterHealth (mem_env all_kinds) ''default'' ''prepper'') (mem_of []))) = ''NoPods''"
proof -
  let ?E = "mem_env all_kinds"
  note ok = cluster_health_characterised [OF mem.available_server_axioms, OF _ surjective_pairing]
  have "stored_pods (mem_view (mem_of [PodObj demoPod])) ''default'' (app_selector ''prepper'') = {demoPod}"
    by (auto simp: stored_pods_def mem_view_def mem_of_def demo_metas labels_match_def fmpred_iff split: if_splits)
      (auto simp: demoPod_def demoMeta_def split: if_splits)
  moreover have "\<not> pod_fails ?E demoPod"
    by (simp add: demoPod_def pod_fails_def failure_reason_def reason_of_def)
  ultimately have "ph_healthy (fst (run_state (inspectClusterHealth ?E ''default'' ''prepper'') (mem_of [PodObj demoPod])))"
    using ok [of all_kinds "''default''" "''prepper''" "mem_of [PodObj demoPod]"] by (simp add: health_ok_def)
  moreover have "stored_pods (mem_view (mem_of [])) ''default'' (app_selector ''prepper'') = {}"
    by (simp add: stored_pods_def mem_view_def mem_of_def)
  ultimately show ?thesis
    using ok [of all_kinds "''default''" "''prepper''" "mem_of []"] by (simp add: health_ok_def)
qed

text \<open>
  C33: an event on a ConfigMap requests exactly the reconciles of the pipelines that would rebuild it:
  the stored pipelines of its namespace whose cluster's pipelines ConfigMap has that name.
\<close>

theorem configmap_event_requests:
  assumes "available_server E view installed" "installed KPipeline"
    and "run_state (findPipelinesForConfigMap E (ConfigMapObj cm)) s = (reqs, s')"
  shows "view s' = view s \<and>
    set reqs = (\<lambda>p. (Namespace (p_Meta p), Name (p_Meta p))) `
      {p \<in> stored_pipelines (view s) (Namespace (cm_Meta cm)).
         Name (cm_Meta cm) = ps_ClusterRef (p_Spec p) @ pipelinesConfigMapSuffix}"
  using wpvD [OF available_server.findForConfigMap_spec [OF assms(1,2)] refl assms(3)] .

theorem configmap_event_requests_witness:
  "set (fst (run_state (findPipelinesForConfigMap (mem_env all_kinds) (ConfigMapObj demoConfigMap)) demoStore)) =
     {(''default'', ''one''), (''default'', ''two'')}"
proof -
  have "set (fst (run_state (findPipelinesForConfigMap (mem_env all_kinds) (ConfigMapObj demoConfigMap)) demoStore)) =
    (\<lambda>p. (Namespace (p_Meta p), Name (p_Meta p))) ` {p \<in> stored_pipelines (mem_view demoStore) ''default''.
       ''prepper-pipelines'' = ps_ClusterRef (p_Spec p) @ pipelinesConfigMapSuffix}"
    using configmap_event_requests [OF mem.available_server_axioms, of all_kinds demoConfigMap demoStore,
        OF _ surjective_pairing] by (simp add: demo_metas)
  moreover have "{p \<in> stored_pipelines (mem_view demoStore) ''default''.
       ''prepper-pipelines'' = ps_ClusterRef (p_Spec p) @ pipelinesConfigMapSuffix} =
      {demoPipeline ''one'' ''logs'', demoPipeline ''two'' ''traces''}"
    unfolding demoStore_pipelines by (auto simp: demoPipeline_def pipelinesConfigMapSuffix_def)
  ultimately show ?thesis by (simp add: demoPipeline_def demo_metas)
qed

end
