(* ===== verification/Sub_Reconciler.thy ===== *)
theory Sub_Reconciler
  imports Api_Server
begin

text \<open>
  The contract every sub-reconciler of the cluster controller keeps: it owns one object, changes no
  other, keeps the store settled, and when it succeeds the object it owns is related to what it was by
  a postcondition. Clients run sub-reconcilers in sequence and use the contract only.
\<close>

locale sub_reconciler =
  fixes view :: "'s \<Rightarrow> store"
    and step :: "DataPrepperCluster \<Rightarrow> ('s, goerror + 'r) state"
    and own :: "DataPrepperCluster \<Rightarrow> object_key"
    and post :: "DataPrepperCluster \<Rightarrow> 'r \<Rightarrow> kobject option \<Rightarrow> kobject option \<Rightarrow> bool"
  assumes step_frame: "wpv view (step c) (\<lambda>r w. only_changes {own c} v w) v"
    and step_settled: "settled v \<Longrightarrow> wpv view (step c) (\<lambda>r w. settled w) v"
    and step_post: "settled v \<Longrightarrow>
          wpv view (step c) (\<lambda>r w. case r of Inl e \<Rightarrow> True | Inr x \<Rightarrow> post c x (v (own c)) (w (own c))) v"
begin

lemma step_spec:
  assumes "settled v"
  shows "wpv view (step c)
     (\<lambda>r w. only_changes {own c} v w \<and> settled w \<and>
        (case r of Inl e \<Rightarrow> True | Inr x \<Rightarrow> post c x (v (own c)) (w (own c)))) v"
  by (intro wpv_conj step_frame step_settled step_post assms)

text \<open>Running a sub-reconciler before the rest of a reconcile.\<close>

lemma wpv_step:
  assumes "settled v"
    and "\<And>e w. only_changes {own c} v w \<Longrightarrow> settled w \<Longrightarrow> Q (Inl e) w"
    and "\<And>x w. only_changes {own c} v w \<Longrightarrow> settled w \<Longrightarrow> post c x (v (own c)) (w (own c)) \<Longrightarrow>
           wpv view (f x) Q w"
  shows "wpv view (bindE (step c) f) Q v"
  by (rule wpv_bindE, rule wpv_mono [OF step_spec [OF assms(1)]])
    (auto split: sum.splits intro: assms(2,3))

text \<open>A step that owns one of the objects of a cluster, run from a store reached by changing such objects only.\<close>

lemma wpv_step_in:
  assumes "settled u" "only_changes K v u" "own c \<in> K"
    and "\<And>e w. only_changes K v w \<Longrightarrow> settled w \<Longrightarrow> Q (Inl e) w"
    and "\<And>x w. only_changes {own c} u w \<Longrightarrow> only_changes K v w \<Longrightarrow> settled w \<Longrightarrow> post c x (u (own c)) (w (own c)) \<Longrightarrow>
           wpv view (f x) Q w"
  shows "wpv view (bindE (step c) f) Q u"
proof -
  have "only_changes K v w" if "only_changes {own c} u w" for w
    using only_changes_trans [OF assms(2) that] assms(3) by (auto intro: only_changes_mono)
  then show ?thesis by (intro wpv_step [OF assms(1)] assms(4,5))
qed

end

text \<open>Against a server that answers, a sub-reconciler also succeeds, on every object it accepts.\<close>

locale answering_reconciler = sub_reconciler view step own post
  for view :: "'s \<Rightarrow> store"
    and step :: "DataPrepperCluster \<Rightarrow> ('s, goerror + 'r) state"
    and own :: "DataPrepperCluster \<Rightarrow> object_key"
    and post :: "DataPrepperCluster \<Rightarrow> 'r \<Rightarrow> kobject option \<Rightarrow> kobject option \<Rightarrow> bool" +
  fixes accepts :: "kobject option \<Rightarrow> bool"
  assumes step_up: "accepts (v (own c)) \<Longrightarrow> wpv view (step c) (\<lambda>r w. \<exists>x. r = Inr x) v"
begin

lemma wpv_step_up:
  assumes "settled v" "accepts (v (own c))"
    and "\<And>x w. only_changes {own c} v w \<Longrightarrow> settled w \<Longrightarrow> post c x (v (own c)) (w (own c)) \<Longrightarrow>
           wpv view (f x) Q w"
  shows "wpv view (bindE (step c) f) Q v"
  by (rule wpv_bindE, rule wpv_mono [OF wpv_conj [OF step_spec [OF assms(1)] step_up [of v c, OF assms(2)]]])
    (auto intro: assms(3))

end

section \<open>What a write leaves at its key\<close>

lemma create_new: "create_effect ob v w \<Longrightarrow> \<exists>ob'. w (obj_key ob) = Some ob' \<and> stored_as ob ob'"
  by (auto simp: create_effect_def)

lemma update_new:
  assumes "update_effect ob v w" "settled v" "v (obj_key ob) = Some old"
    "Finalizers (obj_meta ob) = Finalizers (obj_meta old)"
  shows "\<exists>ob'. w (obj_key ob) = Some ob' \<and> stored_as ob ob'"
  by (rule update_keptE [OF assms]) auto

lemma delete_new:
  "delete_effect ob v w \<Longrightarrow> v k = Some ob \<Longrightarrow> obj_key ob = k \<Longrightarrow> Finalizers (obj_meta ob) = [] \<Longrightarrow> w k = None"
  by (auto simp: delete_effect_def)

text \<open>Ownership is set before an object is created; it changes the metadata only.\<close>

lemma owned_by_simps [simp]:
  "obj_key (owned_by c ob) = obj_key ob" "kind_of (owned_by c ob) = kind_of ob"
  "OwnerReferences (obj_meta (owned_by c ob)) = [controllerRef c]"
  by (simp_all add: owned_by_def obj_key_def)

lemma stored_as_owner: "stored_as ob ob' \<Longrightarrow> OwnerReferences (obj_meta ob') = OwnerReferences (obj_meta ob)"
  by (simp add: stored_as_def meta_kept_def)

context api_server
begin

text \<open>The frame and the settledness of a step are found by running the rules over its writes.\<close>

lemma frame_Create: "obj_key ob = k \<Longrightarrow> wpv view (Create E ob) (\<lambda>r w. only_changes {k} v w) v"
  by (rule wpv_Create) (auto dest: writes_only)

lemma frame_Update: "obj_key ob = k \<Longrightarrow> wpv view (Update E ob) (\<lambda>r w. only_changes {k} v w) v"
  by (rule wpv_Update) (auto dest: writes_only)

lemma frame_StatusUpdate: "obj_key ob = k \<Longrightarrow> wpv view (StatusUpdate E ob) (\<lambda>r w. only_changes {k} v w) v"
  by (rule wpv_StatusUpdate) (auto dest: writes_only)

lemma frame_Delete: "obj_key ob = k \<Longrightarrow> wpv view (Delete E ob) (\<lambda>r w. only_changes {k} v w) v"
  by (rule wpv_Delete) (auto dest: writes_only)

lemmas frame_writes = frame_Create frame_Update frame_StatusUpdate frame_Delete

lemma settled_writes:
  assumes "settled v"
  shows "wpv view (Create E ob) (\<lambda>r w. settled w) v" "wpv view (Update E ob) (\<lambda>r w. settled w) v"
    "wpv view (StatusUpdate E ob) (\<lambda>r w. settled w) v" "wpv view (Delete E ob) (\<lambda>r w. settled w) v"
  by (rule wpv_Create wpv_Update wpv_StatusUpdate wpv_Delete, use assms in \<open>auto dest: writes_settled\<close>)+

end

end
