(* ===== verification/Cluster_Config.thy ===== *)
theory Cluster_Config
  imports Demo Sha256
begin

text \<open>
  internal/controller/datapreppercluster\_controller.go, first part: the effective configuration
  (class defaults overlaid by the cluster), the merged string maps, the probes, the names of the
  generated objects and the peer-forwarder configuration.
\<close>

section \<open>Definitions\<close>

record resolvedConfig =
  rc_Image :: string
  rc_Resources :: resource_requirements
  rc_EnvFrom :: "env_from_source list"
  rc_NodeSelector :: gomap
  rc_Tolerations :: "toleration list"
  rc_PodLabels :: gomap
  rc_PodAnnotations :: gomap

definition isEmptyResources :: "resource_requirements \<Rightarrow> bool" where
  "isEmptyResources r \<longleftrightarrow> Requests r = fmempty \<and> Limits r = fmempty \<and> length (Claims r) = 0"

text \<open>The overlay of the class by the cluster, once the class has been fetched.\<close>

definition overlayClass :: "resolvedConfig \<Rightarrow> DataPrepperClassSpec \<Rightarrow> resolvedConfig" where
  "overlayClass cfg class =
     cfg\<lparr>rc_Image := (if rc_Image cfg = [] then ks_Image class else rc_Image cfg),
         rc_Resources := (if isEmptyResources (rc_Resources cfg) then ks_Resources class else rc_Resources cfg),
         rc_EnvFrom := (if length (rc_EnvFrom cfg) = 0 then ks_EnvFrom class else rc_EnvFrom cfg),
         rc_NodeSelector := ks_NodeSelector class,
         rc_Tolerations := ks_Tolerations class,
         rc_PodLabels := ks_PodLabels class,
         rc_PodAnnotations := ks_PodAnnotations class\<rparr>"

definition resolveConfig :: "'s env \<Rightarrow> DataPrepperCluster \<Rightarrow> ('s, goerror + resolvedConfig) state" where
  "resolveConfig E cluster =
     (let cfg = \<lparr>rc_Image = cs_Image (c_Spec cluster), rc_Resources = cs_Resources (c_Spec cluster),
                 rc_EnvFrom = cs_EnvFrom (c_Spec cluster), rc_NodeSelector = None, rc_Tolerations = [],
                 rc_PodLabels = None, rc_PodAnnotations = None\<rparr> in
      bindE
        (if cs_ClassRef (c_Spec cluster) \<noteq> [] then do {
           r \<leftarrow> getAs E asClass KClass ([], cs_ClassRef (c_Spec cluster));
           (case r of
              Inl err \<Rightarrow> throwE (FailedToGetClass (cs_ClassRef (c_Spec cluster)) err)
            | Inr class \<Rightarrow> returnE (overlayClass cfg (k_Spec class))) }
         else returnE cfg)
        (\<lambda>cfg. if rc_Image cfg = [] then throwE ImageOrClassRefUnset else returnE cfg))"

text \<open>The loops \<^verbatim>\<open>for k, v := range m { out[k] = v }\<close>: every entry overwrites.\<close>

definition mergeStringMap :: "gomap \<Rightarrow> gomap \<Rightarrow> gomap" where
  "mergeStringMap base overrides = Some (fmempty ++\<^sub>f entries base ++\<^sub>f entries overrides)"

definition tcpProbe :: "int \<Rightarrow> int \<Rightarrow> int \<Rightarrow> probe" where
  "tcpProbe initialDelay period failureThreshold =
     \<lparr>pr_TCPSocketPort = FromString ''http'', pr_InitialDelaySeconds = initialDelay,
      pr_PeriodSeconds = period, pr_FailureThreshold = failureThreshold\<rparr>"

definition peerConfigHashAnnotation :: string where
  "peerConfigHashAnnotation = ''dataprepper.gabia.com/peer-config-hash''"

definition peerConfigMapName :: "DataPrepperCluster \<Rightarrow> string" where
  "peerConfigMapName cluster = Name (c_Meta cluster) @ ''-peer-config''"

definition headlessServiceName :: "DataPrepperCluster \<Rightarrow> string" where
  "headlessServiceName cluster = Name (c_Meta cluster) @ ''-headless''"

definition nl :: string where
  "nl = [CHR 0x0A]"

definition renderPeerConfig :: "DataPrepperCluster \<Rightarrow> string" where
  "renderPeerConfig cluster =
     (if cs_Replicas (c_Spec cluster) \<le> 1
      then ''ssl: false'' @ nl @ ''peer_forwarder:'' @ nl @ ''  discovery_mode: local_node'' @ nl
      else
        let domain = headlessServiceName cluster @ ''.'' @ Namespace (c_Meta cluster) @ ''.svc.cluster.local''
        in ''ssl: false'' @ nl @ ''peer_forwarder:'' @ nl @ ''  discovery_mode: dns'' @ nl @
           ''  domain_name: '' @ domain @ nl @ ''  ssl: false'' @ nl)"

section \<open>The effective configuration\<close>

definition class_of :: "store \<Rightarrow> DataPrepperCluster \<Rightarrow> DataPrepperClassSpec option" where
  "class_of v c = map_option k_Spec (Option.bind (v (KClass, [], cs_ClassRef (c_Spec c))) asClass)"

text \<open>Image, resources and environment of the cluster win where set; placement and pod metadata come from the class.\<close>

definition inherits :: "DataPrepperCluster \<Rightarrow> DataPrepperClassSpec \<Rightarrow> resolvedConfig \<Rightarrow> bool" where
  "inherits c k cfg \<longleftrightarrow>
     rc_Image cfg = (if cs_Image (c_Spec c) \<noteq> [] then cs_Image (c_Spec c) else ks_Image k) \<and>
     rc_Resources cfg = (if isEmptyResources (cs_Resources (c_Spec c)) then ks_Resources k else cs_Resources (c_Spec c)) \<and>
     rc_EnvFrom cfg = (if cs_EnvFrom (c_Spec c) \<noteq> [] then cs_EnvFrom (c_Spec c) else ks_EnvFrom k) \<and>
     rc_NodeSelector cfg = ks_NodeSelector k \<and> rc_Tolerations cfg = ks_Tolerations k \<and>
     rc_PodLabels cfg = ks_PodLabels k \<and> rc_PodAnnotations cfg = ks_PodAnnotations k"

definition standalone :: "DataPrepperCluster \<Rightarrow> resolvedConfig \<Rightarrow> bool" where
  "standalone c cfg \<longleftrightarrow>
     rc_Image cfg = cs_Image (c_Spec c) \<and> rc_Resources cfg = cs_Resources (c_Spec c) \<and>
     rc_EnvFrom cfg = cs_EnvFrom (c_Spec c) \<and> rc_NodeSelector cfg = None \<and> rc_Tolerations cfg = [] \<and>
     rc_PodLabels cfg = None \<and> rc_PodAnnotations cfg = None"

text \<open>The outcome of \<^verbatim>\<open>resolveConfig\<close> against a server that answers.\<close>

definition resolves :: "'s env \<Rightarrow> store \<Rightarrow> DataPrepperCluster \<Rightarrow> goerror + resolvedConfig \<Rightarrow> bool" where
  "resolves E v c r \<longleftrightarrow>
     (if cs_ClassRef (c_Spec c) = [] then
        (if cs_Image (c_Spec c) = [] then r = Inl ImageOrClassRefUnset else \<exists>cfg. r = Inr cfg \<and> standalone c cfg)
      else (case class_of v c of
              None \<Rightarrow> \<exists>e. r = Inl (FailedToGetClass (cs_ClassRef (c_Spec c)) e) \<and> IsNotFound E e
            | Some k \<Rightarrow>
                if cs_Image (c_Spec c) = [] \<and> ks_Image k = [] then r = Inl ImageOrClassRefUnset
                else \<exists>cfg. r = Inr cfg \<and> inherits c k cfg))"

context api_server
begin

lemma resolve_frame: "wpv view (resolveConfig E c) (\<lambda>r w. w = v) v"
  unfolding resolveConfig_def Let_def
  by (intro wpv_bindE wpv_if wpv_bind wpv_getClass wpv_returnE) (auto intro!: wpv_rules)

end

context available_server
begin

lemma resolve_up:
  assumes "installed KClass"
  shows "wpv view (resolveConfig E c) (\<lambda>r w. w = v \<and> resolves E v c r) v"
  unfolding resolveConfig_def Let_def
  by (intro wpv_bindE wpv_if wpv_bind up_getClass assms wpv_returnE)
    (auto intro!: wpv_rules simp: resolves_def class_of_def standalone_def inherits_def overlayClass_def)

end

text \<open>
  C23: against a server that answers, the effective configuration of a cluster is what the class
  reference means: without one the cluster's own values, with one the cluster's image, resources and
  environment where set and otherwise the class's, plus the class's placement and pod metadata. It
  fails exactly for a missing class and for an empty image.
\<close>

theorem resolve_config_spec:
  assumes "available_server E view installed" "installed KClass" "run_state (resolveConfig E c) s = (r, s')"
  shows "view s' = view s \<and> resolves E (view s) c r"
  using wpvD [OF available_server.resolve_up [OF assms(1,2)] refl assms(3)] .

theorem resolve_config_spec_witness:
  "\<exists>cfg s'. run_state (resolveConfig (mem_env all_kinds) demoCluster) (mem_of [ClassObj demoClass]) = (Inr cfg, s') \<and>
     rc_Image cfg = ''data-prepper:2.15.0''"
proof -
  let ?s = "mem_of [ClassObj demoClass]"
  let ?run = "run_state (resolveConfig (mem_env all_kinds) demoCluster) ?s"
  obtain r s' where run: "?run = (r, s')" by (cases ?run)
  have "class_of (mem_view ?s) demoCluster = Some (k_Spec demoClass)"
    by (simp add: class_of_def mem_view_def demo_defs)
  then show ?thesis
    using resolve_config_spec [OF mem.available_server_axioms _ run] run
    by (auto simp: resolves_def inherits_def demoCluster_def demoSpec_def demoClass_def)
qed

end
