(* ===== verification/Cluster_Workload.thy ===== *)
theory Cluster_Workload
  imports Sub_Reconciler Cluster_Config Pipeline_Merge
begin

text \<open>
  internal/controller/datapreppercluster\_controller.go, second part: the pipelines ConfigMap, the
  operator-owned peer configuration and the Deployment.
\<close>

section \<open>Definitions\<close>

definition configMap :: "string \<Rightarrow> string \<Rightarrow> strmap \<Rightarrow> kobject" where
  "configMap n ns dat = ConfigMapObj \<lparr>cm_Meta = object_meta n ns, cm_Data = Some dat, cm_Other = []\<rparr>"

definition reconcileConfigMap :: "'s env \<Rightarrow> DataPrepperCluster \<Rightarrow> ('s, goerror + unit) state" where
  "reconcileConfigMap E cluster = do {
     let cmName = Name (c_Meta cluster) @ ''-pipelines'';
     r \<leftarrow> getAs E asConfigMap KConfigMap (Namespace (c_Meta cluster), cmName);
     (case r of
        Inr existing \<Rightarrow> returnE ()
      | Inl err \<Rightarrow>
          if \<not> IsNotFound E err then throwE err
          else
            bindE (liftE (SetControllerReference E cluster
                (configMap cmName (Namespace (c_Meta cluster))
                   (fmupd ''pipelines.yaml'' defaultPipelineYaml fmempty)))) (\<lambda>desired.
            Create E desired)) }"

definition reconcilePeerConfig :: "'s env \<Rightarrow> DataPrepperCluster \<Rightarrow> ('s, goerror + string) state" where
  "reconcilePeerConfig E cluster = do {
     let cmName = peerConfigMapName cluster;
     r \<leftarrow> getAs E asConfigMap KConfigMap (Namespace (c_Meta cluster), cmName);
     if cs_ServerConfigMap (c_Spec cluster) \<noteq> [] then
       (case r of
          Inl getErr \<Rightarrow> if IsNotFound E getErr then returnE [] else throwE getErr
        | Inr existing \<Rightarrow> bindE (Delete E (ConfigMapObj existing)) (\<lambda>_. returnE []))
     else do {
       let content = renderPeerConfig cluster;
       let hashStr = content_hash content;
       let dat = fmupd ''data-prepper-config.yaml'' content fmempty;
       bindE (liftE (SetControllerReference E cluster (configMap cmName (Namespace (c_Meta cluster)) dat)))
         (\<lambda>desired.
          case r of
            Inl getErr \<Rightarrow>
              if IsNotFound E getErr then bindE (Create E desired) (\<lambda>_. returnE hashStr)
              else throwE getErr
          | Inr existing \<Rightarrow>
              if goget (cm_Data existing) ''data-prepper-config.yaml'' = content then returnE hashStr
              else bindE (Update E (ConfigMapObj (existing\<lparr>cm_Data := Some dat\<rparr>))) (\<lambda>_. returnE hashStr)) } }"

definition configMapVolume :: "string \<Rightarrow> string \<Rightarrow> volume" where
  "configMapVolume n cm = \<lparr>v_Name = n, v_Source = ConfigMapVolumeSource cm\<rparr>"

definition volumeMount :: "string \<Rightarrow> string \<Rightarrow> string \<Rightarrow> volume_mount" where
  "volumeMount n path sub = \<lparr>vm_Name = n, vm_MountPath = path, vm_SubPath = sub, vm_Other = []\<rparr>"

definition deploymentVolumes :: "DataPrepperCluster \<Rightarrow> volume list" where
  "deploymentVolumes cluster =
     (let serverConfigMapName =
            (if cs_ServerConfigMap (c_Spec cluster) = [] then peerConfigMapName cluster
             else cs_ServerConfigMap (c_Spec cluster)) in
      [configMapVolume ''pipelines'' (Name (c_Meta cluster) @ ''-pipelines'')] @
      (if cs_AssetsConfigMap (c_Spec cluster) \<noteq> []
       then [configMapVolume ''assets'' (cs_AssetsConfigMap (c_Spec cluster))] else []) @
      [configMapVolume ''server-config'' serverConfigMapName] @
      cs_ExtraVolumes (c_Spec cluster))"

definition deploymentVolumeMounts :: "DataPrepperCluster \<Rightarrow> volume_mount list" where
  "deploymentVolumeMounts cluster =
     [volumeMount ''pipelines'' ''/usr/share/data-prepper/pipelines'' []] @
     (if cs_AssetsConfigMap (c_Spec cluster) \<noteq> []
      then [volumeMount ''assets'' ''/usr/share/data-prepper/assets'' []] else []) @
     [volumeMount ''server-config'' ''/usr/share/data-prepper/config/data-prepper-config.yaml''
        ''data-prepper-config.yaml''] @
     cs_ExtraVolumeMounts (c_Spec cluster)"

definition deploymentPorts :: "DataPrepperCluster \<Rightarrow> container_port list" where
  "deploymentPorts cluster =
     [\<lparr>cp_Name = ''http'', cp_ContainerPort = 4900, cp_Protocol = [], cp_Other = []\<rparr>] @
     cs_ExtraPorts (c_Spec cluster)"

definition desiredContainer :: "DataPrepperCluster \<Rightarrow> resolvedConfig \<Rightarrow> container" where
  "desiredContainer cluster cfg =
     \<lparr>ct_Name = ''data-prepper'', ct_Image = rc_Image cfg, ct_Resources = rc_Resources cfg,
      ct_Ports = deploymentPorts cluster, ct_VolumeMounts = deploymentVolumeMounts cluster,
      ct_EnvFrom = rc_EnvFrom cfg, ct_StartupProbe = Some (tcpProbe 0 10 30),
      ct_LivenessProbe = Some (tcpProbe 0 20 3), ct_ReadinessProbe = Some (tcpProbe 5 10 3),
      ct_Other = []\<rparr>"

definition appLabel :: "DataPrepperCluster \<Rightarrow> gomap" where
  "appLabel cluster = Some (fmupd ''app'' (Name (c_Meta cluster)) fmempty)"

definition desiredTemplate :: "DataPrepperCluster \<Rightarrow> resolvedConfig \<Rightarrow> gomap \<Rightarrow> pod_template" where
  "desiredTemplate cluster cfg podAnnotations =
     \<lparr>pt_Labels = mergeStringMap (rc_PodLabels cfg) (appLabel cluster),
      pt_Annotations = podAnnotations, pt_NodeSelector = rc_NodeSelector cfg,
      pt_Tolerations = rc_Tolerations cfg, pt_Containers = [desiredContainer cluster cfg],
      pt_Volumes = deploymentVolumes cluster, pt_Other = []\<rparr>"

definition desiredDeployment :: "DataPrepperCluster \<Rightarrow> resolvedConfig \<Rightarrow> gomap \<Rightarrow> deployment" where
  "desiredDeployment cluster cfg podAnnotations =
     \<lparr>d_Meta = object_meta (Name (c_Meta cluster)) (Namespace (c_Meta cluster)),
      d_Replicas = Some (cs_Replicas (c_Spec cluster)), d_Selector = appLabel cluster,
      d_Template = desiredTemplate cluster cfg podAnnotations, d_SpecOther = [],
      d_Status = \<lparr>ds_ReadyReplicas = 0, ds_UnavailableReplicas = 0, ds_UpdatedReplicas = 0,
                  ds_ObservedGeneration = 0\<rparr>\<rparr>"

text \<open>The assignments to the fetched Deployment's first container, from the desired one.\<close>

definition patchContainer :: "container \<Rightarrow> container \<Rightarrow> container" where
  "patchContainer c desired =
     c\<lparr>ct_Image := ct_Image desired, ct_Resources := ct_Resources desired, ct_Ports := ct_Ports desired,
       ct_VolumeMounts := ct_VolumeMounts desired, ct_EnvFrom := ct_EnvFrom desired,
       ct_StartupProbe := ct_StartupProbe desired, ct_LivenessProbe := ct_LivenessProbe desired,
       ct_ReadinessProbe := ct_ReadinessProbe desired\<rparr>"

definition reconcileDeployment ::
  "'s env \<Rightarrow> DataPrepperCluster \<Rightarrow> resolvedConfig \<Rightarrow> string \<Rightarrow> ('s, goerror + unit) state" where
  "reconcileDeployment E cluster cfg peerHash =
     bindE
       (let podAnnotations = mergeStringMap (rc_PodAnnotations cfg) None in
        if peerHash \<noteq> [] then mapWrite podAnnotations peerConfigHashAnnotation peerHash
        else returnE podAnnotations) (\<lambda>podAnnotations.
     let desired = desiredDeployment cluster cfg podAnnotations in
     bindE (liftE (SetControllerReference E cluster (DeploymentObj desired))) (\<lambda>owned. do {
     r \<leftarrow> getAs E asDeployment KDeployment (Namespace (d_Meta desired), Name (d_Meta desired));
     (case r of
        Inl err \<Rightarrow> if IsNotFound E err then Create E owned else throwE err
      | Inr existing \<Rightarrow>
          let replicas = (case cs_Autoscaling (c_Spec cluster) of
                            None \<Rightarrow> d_Replicas desired | Some as \<Rightarrow> d_Replicas existing);
              template = d_Template existing;
              preservedPipelinesHash = goget (pt_Annotations template) pipelinesHashAnnotation
          in
          bindE
            (if preservedPipelinesHash \<noteq> []
             then mapWrite (ensureMap (pt_Annotations (d_Template desired))) pipelinesHashAnnotation
                    preservedPipelinesHash
             else returnE (pt_Annotations (d_Template desired))) (\<lambda>annotations.
          case pt_Containers template of
            [] \<Rightarrow> throwE (Panic ''index out of range'')
          | container # others \<Rightarrow>
              Update E (DeploymentObj (existing\<lparr>d_Replicas := replicas, d_Template :=
                template\<lparr>pt_Labels := pt_Labels (d_Template desired),
                         pt_Annotations := annotations,
                         pt_NodeSelector := pt_NodeSelector (d_Template desired),
                         pt_Tolerations := pt_Tolerations (d_Template desired),
                         pt_Containers := patchContainer container (desiredContainer cluster cfg) # others,
                         pt_Volumes := pt_Volumes (d_Template desired)\<rparr>\<rparr>)))) }))"

section \<open>The pipelines ConfigMap\<close>

abbreviation cname :: "DataPrepperCluster \<Rightarrow> string" where
  "cname c \<equiv> Name (c_Meta c)"

abbreviation cns :: "DataPrepperCluster \<Rightarrow> string" where
  "cns c \<equiv> Namespace (c_Meta c)"

abbreviation pipelinesKey :: "DataPrepperCluster \<Rightarrow> object_key" where
  "pipelinesKey c \<equiv> (KConfigMap, cns c, cname c @ ''-pipelines'')"

text \<open>An existing ConfigMap is left to the pipeline controller; a new one holds the placeholder and is owned.\<close>

definition pipelines_config_post :: "DataPrepperCluster \<Rightarrow> unit \<Rightarrow> kobject option \<Rightarrow> kobject option \<Rightarrow> bool" where
  "pipelines_config_post c u old new \<longleftrightarrow>
     (case old of
        Some ob \<Rightarrow> new = Some ob
      | None \<Rightarrow> \<exists>cm. new = Some (ConfigMapObj cm) \<and> OwnerReferences (cm_Meta cm) = [controllerRef c] \<and>
                entries (cm_Data cm) = fmupd ''pipelines.yaml'' defaultPipelineYaml fmempty)"

lemma configMap_simps [simp]:
  "obj_key (configMap n ns dat) = (KConfigMap, ns, n)" "Namespace (obj_meta (configMap n ns dat)) = ns"
  "OwnerReferences (obj_meta (configMap n ns dat)) = []" "kind_of (configMap n ns dat) = KConfigMap"
  by (simp_all add: configMap_def object_meta_def)

lemma owned_configMap:
  "owned_by c (configMap n ns dat) =
     ConfigMapObj \<lparr>cm_Meta = (object_meta n ns)\<lparr>OwnerReferences := [controllerRef c]\<rparr>, cm_Data = Some dat, cm_Other = []\<rparr>"
  by (simp add: owned_by_def configMap_def)

lemma stored_configMap:
  "stored_as (owned_by c (configMap n ns dat)) ob \<Longrightarrow>
     \<exists>cm. ob = ConfigMapObj cm \<and> OwnerReferences (cm_Meta cm) = [controllerRef c] \<and> entries (cm_Data cm) = dat"
  by (auto simp: owned_configMap stored_as_def meta_kept_def)

sublocale api_server < pipelines_config:
  sub_reconciler view "reconcileConfigMap E" pipelinesKey pipelines_config_post
proof (unfold_locales, goal_cases)
  case (1 c v)
  then show ?case unfolding reconcileConfigMap_def Let_def
    by (intro wpv_bind wpv_getConfigMap) (auto simp: SetControllerReference intro!: wpv_rules frame_writes)
next
  case (2 v c)
  then show ?case unfolding reconcileConfigMap_def Let_def
    by (intro wpv_bind wpv_getConfigMap) (auto simp: SetControllerReference intro!: wpv_rules settled_writes)
next
  case (3 v c)
  then show ?case unfolding reconcileConfigMap_def Let_def
    by (intro wpv_bind wpv_getConfigMap)
      (auto simp: SetControllerReference pipelines_config_post_def split: sum.splits
        intro!: wpv_rules wpv_Create dest!: create_new stored_configMap)
qed

section \<open>The peer configuration\<close>

abbreviation peerKey :: "DataPrepperCluster \<Rightarrow> object_key" where
  "peerKey c \<equiv> (KConfigMap, cns c, peerConfigMapName c)"

text \<open>
  Without a user-supplied server configuration the ConfigMap holds the rendered peer configuration and
  the result is its hash; with one, the ConfigMap is deleted and the result is empty.
\<close>

definition peer_config_post :: "DataPrepperCluster \<Rightarrow> string \<Rightarrow> kobject option \<Rightarrow> kobject option \<Rightarrow> bool" where
  "peer_config_post c h old new \<longleftrightarrow>
     (if cs_ServerConfigMap (c_Spec c) \<noteq> [] then
        h = [] \<and> (case old of None \<Rightarrow> new = None | Some ob \<Rightarrow> Finalizers (obj_meta ob) = [] \<longrightarrow> new = None)
      else h = content_hash (renderPeerConfig c) \<and>
        (\<exists>cm. new = Some (ConfigMapObj cm) \<and>
           goget (cm_Data cm) ''data-prepper-config.yaml'' = renderPeerConfig c \<and>
           (old = None \<longrightarrow> OwnerReferences (cm_Meta cm) = [controllerRef c])))"

lemma goget_cong: "entries m = entries m' \<Longrightarrow> goget m k = goget m' k"
  by (simp add: goget_def)

lemma peer_update_new:
  assumes "update_effect (ConfigMapObj (cm\<lparr>cm_Data := Some dat\<rparr>)) v w" "settled v"
    "v (KConfigMap, Namespace (cm_Meta cm), Name (cm_Meta cm)) = Some (ConfigMapObj cm)"
  shows "\<exists>cm'. w (KConfigMap, Namespace (cm_Meta cm), Name (cm_Meta cm)) = Some (ConfigMapObj cm') \<and>
           entries (cm_Data cm') = dat"
  using update_new [OF assms(1,2)] assms(3) by (auto simp: stored_as_def)

lemma goget_entries_eq: "entries m = fmupd k x f \<Longrightarrow> goget m k = x"
  by (simp add: goget_def)

sublocale api_server < peer_config: sub_reconciler view "reconcilePeerConfig E" peerKey peer_config_post
proof (unfold_locales, goal_cases)
  case (1 c v)
  then show ?case unfolding reconcilePeerConfig_def Let_def
    by (intro wpv_bind wpv_getConfigMap)
      (auto simp: SetControllerReference split: sum.splits
        intro!: wpv_rules wpv_Create wpv_Update wpv_Delete dest!: writes_only)
next
  case (2 v c)
  then show ?case unfolding reconcilePeerConfig_def Let_def
    by (intro wpv_bind wpv_getConfigMap)
      (auto simp: SetControllerReference split: sum.splits
        intro!: wpv_rules wpv_Create wpv_Update wpv_Delete dest: writes_settled)
next
  case (3 v c)
  then show ?case unfolding reconcilePeerConfig_def Let_def
    by (intro wpv_bind wpv_getConfigMap)
      (auto simp: SetControllerReference peer_config_post_def goget_entries_eq split: sum.splits
        intro!: wpv_rules wpv_Create wpv_Update wpv_Delete
        simp: delete_effect_def dest!: create_new stored_configMap peer_update_new)
qed

section \<open>The Deployment\<close>

abbreviation deploymentKey :: "DataPrepperCluster \<Rightarrow> object_key" where
  "deploymentKey c \<equiv> (KDeployment, cns c, cname c)"

text \<open>What the Deployment of a cluster must say: its first container's image, resources, environment, mounts,
  ports and probes, the pod's labels, placement and volumes, and the hash of the peer configuration.\<close>

definition runs_cluster :: "DataPrepperCluster \<Rightarrow> resolvedConfig \<Rightarrow> string \<Rightarrow> deployment \<Rightarrow> bool" where
  "runs_cluster c cfg peerHash d \<longleftrightarrow>
     (\<exists>ct cts. pt_Containers (d_Template d) = ct # cts \<and> ct_Image ct = rc_Image cfg \<and>
        ct_Resources ct = rc_Resources cfg \<and> ct_EnvFrom ct = rc_EnvFrom cfg \<and>
        ct_VolumeMounts ct = deploymentVolumeMounts c \<and> ct_StartupProbe ct = Some (tcpProbe 0 10 30) \<and>
        ct_LivenessProbe ct = Some (tcpProbe 0 20 3) \<and> ct_ReadinessProbe ct = Some (tcpProbe 5 10 3) \<and>
        map (\<lambda>p. (cp_Name p, cp_ContainerPort p)) (ct_Ports ct) =
          map (\<lambda>p. (cp_Name p, cp_ContainerPort p)) (deploymentPorts c)) \<and>
     pt_Volumes (d_Template d) = deploymentVolumes c \<and>
     entries (pt_Labels (d_Template d)) = entries (mergeStringMap (rc_PodLabels cfg) (appLabel c)) \<and>
     entries (pt_NodeSelector (d_Template d)) = entries (rc_NodeSelector cfg) \<and>
     pt_Tolerations (d_Template d) = rc_Tolerations cfg \<and>
     (peerHash \<noteq> [] \<longrightarrow> goget (pt_Annotations (d_Template d)) peerConfigHashAnnotation = peerHash)"

text \<open>
  The pod annotations are those of the class, but for two keys: the hash of the peer configuration, when
  there is one, and the stamp of the pipeline controller, when the Deployment had one.
\<close>

definition stamp_before :: "kobject option \<Rightarrow> string" where
  "stamp_before old =
     (case old of Some (DeploymentObj d) \<Rightarrow> goget (pt_Annotations (d_Template d)) pipelinesHashAnnotation | _ \<Rightarrow> [])"

definition annotated :: "resolvedConfig \<Rightarrow> string \<Rightarrow> string \<Rightarrow> gomap \<Rightarrow> bool" where
  "annotated cfg peerHash stamp an \<longleftrightarrow>
     (\<forall>k. fmlookup (entries an) k =
        (if k = pipelinesHashAnnotation \<and> stamp \<noteq> [] then Some stamp
         else if k = peerConfigHashAnnotation \<and> peerHash \<noteq> [] then Some peerHash
         else fmlookup (entries (rc_PodAnnotations cfg)) k))"

text \<open>
  A new Deployment has one container, data-prepper, has the replicas of the cluster and is owned by it.
  An existing one keeps its replicas when the autoscaler governs them, its selector, the names of its
  containers, its further containers, and the hash the pipeline controller stamped on it.
\<close>

definition deployment_post ::
  "resolvedConfig \<Rightarrow> string \<Rightarrow> DataPrepperCluster \<Rightarrow> unit \<Rightarrow> kobject option \<Rightarrow> kobject option \<Rightarrow> bool" where
  "deployment_post cfg peerHash c u old new \<longleftrightarrow>
     (\<exists>d. new = Some (DeploymentObj d) \<and> runs_cluster c cfg peerHash d \<and>
        annotated cfg peerHash (stamp_before old) (pt_Annotations (d_Template d)) \<and>
        (old = None \<or> cs_Autoscaling (c_Spec c) = None \<longrightarrow> d_Replicas d = Some (cs_Replicas (c_Spec c))) \<and>
        (old = None \<longrightarrow> OwnerReferences (d_Meta d) = [controllerRef c] \<and> entries (d_Selector d) = entries (appLabel c) \<and>
           map ct_Name (pt_Containers (d_Template d)) = [''data-prepper'']) \<and>
        (\<forall>d0. old = Some (DeploymentObj d0) \<longrightarrow>
           (cs_Autoscaling (c_Spec c) \<noteq> None \<and> d_Replicas d0 \<noteq> None \<longrightarrow> d_Replicas d = d_Replicas d0) \<and>
           entries (d_Selector d) = entries (d_Selector d0) \<and>
           map ct_Name (pt_Containers (d_Template d)) = map ct_Name (pt_Containers (d_Template d0)) \<and>
           list_all2 container_kept (tl (pt_Containers (d_Template d0))) (tl (pt_Containers (d_Template d))) \<and>
           (goget (pt_Annotations (d_Template d0)) pipelinesHashAnnotation \<noteq> [] \<longrightarrow>
              goget (pt_Annotations (d_Template d)) pipelinesHashAnnotation =
              goget (pt_Annotations (d_Template d0)) pipelinesHashAnnotation)))"

lemma annotation_names: "peerConfigHashAnnotation \<noteq> pipelinesHashAnnotation"
  by (simp add: peerConfigHashAnnotation_def pipelinesHashAnnotation_def)

lemma mapWrite_Some: "mapWrite (Some f) k x = returnE (Some (fmupd k x f))"
  by (simp add: mapWrite_def)

definition withHash :: "string \<Rightarrow> string \<Rightarrow> strmap \<Rightarrow> strmap" where
  "withHash k h f = (if h = [] then f else fmupd k h f)"

lemma goget_withHash:
  "goget (Some (withHash k h f)) k' = (if k' = k \<and> h \<noteq> [] then h else goget (Some f) k')"
  by (simp add: withHash_def)

text \<open>The pod annotations of the class with the peer hash, and the Deployment an update sends.\<close>

definition classAnnotations :: "resolvedConfig \<Rightarrow> string \<Rightarrow> strmap" where
  "classAnnotations cfg peerHash = withHash peerConfigHashAnnotation peerHash (entries (rc_PodAnnotations cfg))"

definition patchedDeployment :: "DataPrepperCluster \<Rightarrow> resolvedConfig \<Rightarrow> string \<Rightarrow> deployment \<Rightarrow> container \<Rightarrow> container list \<Rightarrow> deployment" where
  "patchedDeployment c cfg peerHash d ct cts =
     (let t = d_Template d in
      d\<lparr>d_Replicas := (case cs_Autoscaling (c_Spec c) of None \<Rightarrow> Some (cs_Replicas (c_Spec c)) | Some as \<Rightarrow> d_Replicas d),
        d_Template := t\<lparr>
          pt_Labels := mergeStringMap (rc_PodLabels cfg) (appLabel c),
          pt_Annotations := Some (withHash pipelinesHashAnnotation (goget (pt_Annotations t) pipelinesHashAnnotation)
                                    (classAnnotations cfg peerHash)),
          pt_NodeSelector := rc_NodeSelector cfg, pt_Tolerations := rc_Tolerations cfg,
          pt_Containers := patchContainer ct (desiredContainer c cfg) # cts,
          pt_Volumes := deploymentVolumes c\<rparr>\<rparr>)"

lemma mergeStringMap_None: "mergeStringMap m None = Some (entries m)"
  by (simp add: mergeStringMap_def)

lemma desired_meta [simp]:
  "Namespace (d_Meta (desiredDeployment c cfg an)) = cns c" "Name (d_Meta (desiredDeployment c cfg an)) = cname c"
  "OwnerReferences (d_Meta (desiredDeployment c cfg an)) = []"
  by (simp_all add: desiredDeployment_def object_meta_def)

context apimachinery
begin

lemma reconcileDeployment_parts:
  "reconcileDeployment E c cfg peerHash = do {
     r \<leftarrow> getAs E asDeployment KDeployment (cns c, cname c);
     (case r of
        Inl err \<Rightarrow>
          if IsNotFound E err
          then Create E (owned_by c (DeploymentObj (desiredDeployment c cfg (Some (classAnnotations cfg peerHash)))))
          else throwE err
      | Inr d \<Rightarrow>
          (case pt_Containers (d_Template d) of
             [] \<Rightarrow> throwE (Panic ''index out of range'')
           | ct # cts \<Rightarrow> Update E (DeploymentObj (patchedDeployment c cfg peerHash d ct cts)))) }"
proof -
  have an: "(if peerHash \<noteq> [] then mapWrite (mergeStringMap (rc_PodAnnotations cfg) None) peerConfigHashAnnotation peerHash
      else returnE (mergeStringMap (rc_PodAnnotations cfg) None)) = returnE (Some (classAnnotations cfg peerHash))"
    by (simp add: mergeStringMap_None mapWrite_Some classAnnotations_def withHash_def)
  have keep: "(if h \<noteq> [] then mapWrite (ensureMap (Some f)) pipelinesHashAnnotation h else returnE (Some f)) =
      returnE (Some (withHash pipelinesHashAnnotation h f))" for h f
    by (simp add: ensureMap_def mapWrite_Some withHash_def)
  have proj: "pt_Annotations (d_Template (desiredDeployment c cfg an)) = an"
    "pt_Labels (d_Template (desiredDeployment c cfg an)) = mergeStringMap (rc_PodLabels cfg) (appLabel c)"
    "pt_NodeSelector (d_Template (desiredDeployment c cfg an)) = rc_NodeSelector cfg"
    "pt_Tolerations (d_Template (desiredDeployment c cfg an)) = rc_Tolerations cfg"
    "pt_Volumes (d_Template (desiredDeployment c cfg an)) = deploymentVolumes c"
    "d_Replicas (desiredDeployment c cfg an) = Some (cs_Replicas (c_Spec c))" for an
    by (simp_all add: desiredDeployment_def desiredTemplate_def)
  show ?thesis
    unfolding reconcileDeployment_def Let_def an bindE_returnE proj keep patchedDeployment_def
    by (simp add: SetControllerReference)
qed

end

text \<open>What the server stores for a new and for a patched Deployment meets the postcondition.\<close>

lemma annotated_withHash:
  "entries an = withHash pipelinesHashAnnotation stamp (classAnnotations cfg h) \<Longrightarrow> annotated cfg h stamp an"
  by (simp add: annotated_def withHash_def classAnnotations_def)

lemma probe_kept_Some:
  "probe_kept (Some (tcpProbe i p t)) x \<Longrightarrow> p \<noteq> 0 \<Longrightarrow> t \<noteq> 0 \<Longrightarrow> x = Some (tcpProbe i p t)"
  by (auto simp: probe_kept_def tcpProbe_def)

lemma containers_kept_names: "list_all2 container_kept cts cts' \<Longrightarrow> map ct_Name cts' = map ct_Name cts"
  by (induction rule: list_all2_induct) (simp_all add: container_kept_def)

lemma container_kept_desired:
  assumes "container_kept (desiredContainer c cfg) ct \<or> container_kept (patchContainer ct0 (desiredContainer c cfg)) ct"
  shows "ct_Image ct = rc_Image cfg \<and> ct_Resources ct = rc_Resources cfg \<and> ct_EnvFrom ct = rc_EnvFrom cfg \<and>
    ct_VolumeMounts ct = deploymentVolumeMounts c \<and> ct_StartupProbe ct = Some (tcpProbe 0 10 30) \<and>
    ct_LivenessProbe ct = Some (tcpProbe 0 20 3) \<and> ct_ReadinessProbe ct = Some (tcpProbe 5 10 3) \<and>
    map (\<lambda>p. (cp_Name p, cp_ContainerPort p)) (ct_Ports ct) = map (\<lambda>p. (cp_Name p, cp_ContainerPort p)) (deploymentPorts c)"
  using assms by (auto simp: container_kept_def desiredContainer_def patchContainer_def dest!: probe_kept_Some)

lemma stored_desired:
  assumes "stored_as (owned_by c (DeploymentObj (desiredDeployment c cfg (Some (classAnnotations cfg h))))) ob"
  shows "deployment_post cfg h c u None (Some ob)"
proof -
  from assms obtain d ct where d: "ob = DeploymentObj d" "OwnerReferences (d_Meta d) = [controllerRef c]"
    "d_Replicas d = Some (cs_Replicas (c_Spec c))" "entries (d_Selector d) = entries (appLabel c)"
    "template_kept (desiredTemplate c cfg (Some (classAnnotations cfg h))) (d_Template d)"
    by (auto simp: owned_by_def stored_as_def meta_kept_def desiredDeployment_def)
  from d(5) obtain ct where ct: "pt_Containers (d_Template d) = [ct]" "container_kept (desiredContainer c cfg) ct"
    by (auto simp: template_kept_def desiredTemplate_def list_all2_Cons1)
  then have name: "ct_Name ct = ''data-prepper''" by (simp add: container_kept_def desiredContainer_def)
  have an: "annotated cfg h (stamp_before None) (pt_Annotations (d_Template d))"
    by (rule annotated_withHash) (use d(5) in \<open>simp add: template_kept_def desiredTemplate_def stamp_before_def withHash_def\<close>)
  have "goget (pt_Annotations (d_Template d)) k = goget (Some (classAnnotations cfg h)) k" for k
    using d(5) by (intro goget_cong) (simp add: template_kept_def desiredTemplate_def)
  with d ct name an container_kept_desired [of c cfg ct] show ?thesis
    by (simp add: deployment_post_def runs_cluster_def template_kept_def desiredTemplate_def classAnnotations_def
        goget_withHash)
qed

lemma stored_patched:
  assumes "stored_as (DeploymentObj (patchedDeployment c cfg h d0 ct0 cts0)) ob"
    and "pt_Containers (d_Template d0) = ct0 # cts0"
  shows "deployment_post cfg h c u (Some (DeploymentObj d0)) (Some ob)"
proof -
  let ?p = "patchedDeployment c cfg h d0 ct0 cts0"
  from assms obtain d where d: "ob = DeploymentObj d"
    "d_Replicas ?p \<noteq> None \<longrightarrow> d_Replicas d = d_Replicas ?p" "entries (d_Selector d) = entries (d_Selector d0)"
    "template_kept (d_Template ?p) (d_Template d)"
    by (auto simp: stored_as_def patchedDeployment_def Let_def)
  from d(4) obtain ct cts where ct: "pt_Containers (d_Template d) = ct # cts"
    "container_kept (patchContainer ct0 (desiredContainer c cfg)) ct" "list_all2 container_kept cts0 cts"
    by (auto simp: template_kept_def patchedDeployment_def Let_def list_all2_Cons1)
  have names: "map ct_Name (ct # cts) = map ct_Name (ct0 # cts0)"
    using ct(2) containers_kept_names [OF ct(3)] by (simp add: container_kept_def patchContainer_def)
  have anns: "annotated cfg h (stamp_before (Some (DeploymentObj d0))) (pt_Annotations (d_Template d))"
    by (rule annotated_withHash) (use d(4) in \<open>simp add: template_kept_def patchedDeployment_def Let_def stamp_before_def\<close>)
  have an: "goget (pt_Annotations (d_Template d)) k = goget (pt_Annotations (d_Template ?p)) k" for k
    using d(4) by (intro goget_cong) (simp add: template_kept_def)
  have hashes: "goget (pt_Annotations (d_Template ?p)) pipelinesHashAnnotation =
      goget (pt_Annotations (d_Template d0)) pipelinesHashAnnotation"
    if "goget (pt_Annotations (d_Template d0)) pipelinesHashAnnotation \<noteq> []"
    using that by (simp add: patchedDeployment_def Let_def goget_withHash)
  have "goget (pt_Annotations (d_Template ?p)) peerConfigHashAnnotation = h" if "h \<noteq> []"
    using that annotation_names by (simp add: patchedDeployment_def Let_def goget_withHash classAnnotations_def)
  with hashes names anns container_kept_desired [of c cfg ct ct0] ct d an assms(2) show ?thesis
    by (auto simp: deployment_post_def runs_cluster_def template_kept_def patchedDeployment_def Let_def)
qed

lemma patched_meta [simp]: "d_Meta (patchedDeployment c cfg h d ct cts) = d_Meta d"
  by (simp add: patchedDeployment_def Let_def)

lemma deployment_created:
  "create_effect (owned_by c (DeploymentObj (desiredDeployment c cfg (Some (classAnnotations cfg h))))) v w \<Longrightarrow>
     deployment_post cfg h c u None (w (deploymentKey c))"
  by (drule create_new) (auto simp: stored_desired)

lemma deployment_updated:
  assumes "update_effect (DeploymentObj (patchedDeployment c cfg h d ct cts)) v w" "settled v"
    and "v (deploymentKey c) = Some (DeploymentObj d)" "Namespace (d_Meta d) = cns c" "Name (d_Meta d) = cname c"
    and "pt_Containers (d_Template d) = ct # cts"
  shows "deployment_post cfg h c u (Some (DeploymentObj d)) (w (deploymentKey c))"
  using update_new [OF assms(1,2), of "DeploymentObj d"] assms(3-5) stored_patched [OF _ assms(6)] by auto

sublocale api_server < deployment:
  sub_reconciler view "\<lambda>c. reconcileDeployment E c cfg peerHash" deploymentKey "deployment_post cfg peerHash"
  for cfg peerHash
proof (unfold_locales, goal_cases)
  case (1 c v)
  then show ?case unfolding reconcileDeployment_parts
    by (intro wpv_bind wpv_getDeployment) (auto intro!: wpv_rules frame_writes split: list.split)
next
  case (2 v c)
  then show ?case unfolding reconcileDeployment_parts
    by (intro wpv_bind wpv_getDeployment) (auto intro!: wpv_rules settled_writes split: list.split)
next
  case (3 v c)
  then show ?case unfolding reconcileDeployment_parts
    by (intro wpv_bind wpv_getDeployment)
      (auto intro!: wpv_rules wpv_Create wpv_Update split: list.split sum.splits
        intro: deployment_created deployment_updated)
qed


section \<open>Against a server that answers\<close>

sublocale available_server < pipelines_config_up:
  answering_reconciler view "reconcileConfigMap E" pipelinesKey pipelines_config_post "\<lambda>_. installed KConfigMap"
proof (unfold_locales, goal_cases)
  case (1 v c)
  then show ?case unfolding reconcileConfigMap_def Let_def
    by (intro wpv_bind up_getConfigMap) (auto simp: SetControllerReference intro!: wpv_rules up_Create)
qed

sublocale available_server < peer_config_up:
  answering_reconciler view "reconcilePeerConfig E" peerKey peer_config_post "\<lambda>_. installed KConfigMap"
proof (unfold_locales, goal_cases)
  case (1 v c)
  then show ?case unfolding reconcilePeerConfig_def Let_def
    by (intro wpv_bind up_getConfigMap)
      (auto simp: SetControllerReference intro!: wpv_rules up_Create up_Update up_Delete)
qed

text \<open>
  The one thing that stops the Deployment's reconcile is a stored Deployment without containers, whose
  first container the code indexes.
\<close>

definition has_container :: "kobject option \<Rightarrow> bool" where
  "has_container old \<longleftrightarrow> (\<forall>d. old = Some (DeploymentObj d) \<longrightarrow> pt_Containers (d_Template d) \<noteq> [])"

context available_server
begin

lemma deployment_result:
  assumes "installed KDeployment"
  shows "wpv view (reconcileDeployment E c cfg peerHash)
           (\<lambda>r w. if has_container (v (deploymentKey c)) then r = Inr ()
                 else r = Inl (Panic ''index out of range'') \<and> w = v) v"
  unfolding reconcileDeployment_parts
  by (intro wpv_bind up_getDeployment assms)
    (auto simp: has_container_def assms intro!: wpv_rules up_Create up_Update split: list.split)

end

sublocale available_server < deployment_up:
  answering_reconciler view "\<lambda>c. reconcileDeployment E c cfg peerHash" deploymentKey "deployment_post cfg peerHash"
    "\<lambda>old. installed KDeployment \<and> has_container old"
  for cfg peerHash
proof (unfold_locales, goal_cases)
  case (1 v c)
  then show ?case by (auto intro!: wpv_mono [OF deployment_result] split: if_splits)
qed

section \<open>Properties\<close>

context available_server
begin

lemmas pipelines_config_ok = pipelines_config_up.step_up
lemmas peer_config_ok = peer_config_up.step_up

end

context api_server
begin

lemmas pipelines_config_spec = pipelines_config.step_spec
lemmas peer_config_spec = peer_config.step_spec
lemmas deployment_spec = deployment.step_spec

end

text \<open>
  C10: after a successful reconcile of the Deployment no other object has changed and the Deployment
  runs the effective configuration: image, resources, environment, mounts, ports (names and numbers),
  probes, labels, annotations, placement, volumes and peer-configuration hash. A new one has the one
  container data-prepper, is owned by the cluster and has its replicas; an existing one keeps its
  selector, its further containers, its replicas when an autoscaler governs them, and the hash the
  pipeline controller stamped on its pods.
\<close>

theorem deployment_reconciled:
  assumes "api_server E view" "settled (view s)"
    and "run_state (reconcileDeployment E c cfg peerHash) s = (Inr (), s')"
  shows "only_changes {deploymentKey c} (view s) (view s') \<and>
    deployment_post cfg peerHash c () (view s (deploymentKey c)) (view s' (deploymentKey c))"
  using wpvD [OF api_server.deployment_spec [OF assms(1,2)] refl assms(3)] by simp

definition demoConfig :: resolvedConfig where
  "demoConfig =
     \<lparr>rc_Image = ''data-prepper:2.15.0'', rc_Resources = \<lparr>Requests = fmupd ''cpu'' ''2'' fmempty, Limits = fmempty, Claims = []\<rparr>,
      rc_EnvFrom = [], rc_NodeSelector = None, rc_Tolerations = [], rc_PodLabels = Some (fmupd ''app'' ''other'' fmempty),
      rc_PodAnnotations = Some (fmupd ''team'' ''logs'' fmempty)\<rparr>"

lemma demo_deployment_run:
  "\<exists>s'. run_state (reconcileDeployment (mem_env all_kinds) demoCluster demoConfig ''ab'') (mem_of [DeploymentObj demoDeployment]) = (Inr (), s')"
  by (simp add: memlib.reconcileDeployment_parts mem_eval demo_defs patchedDeployment_def Let_def)

theorem deployment_reconciled_witness:
  "\<exists>s' d. run_state (reconcileDeployment (mem_env all_kinds) demoCluster demoConfig ''ab'')
            (mem_of [DeploymentObj demoDeployment]) = (Inr (), s') \<and>
     mem_view s' (deploymentKey demoCluster) = Some (DeploymentObj d) \<and>
     d_Replicas d = Some 3 \<and> runs_cluster demoCluster demoConfig ''ab'' d \<and>
     goget (pt_Annotations (d_Template d)) ''team'' = ''logs'' \<and>
     goget (pt_Annotations (d_Template d)) pipelinesHashAnnotation = ''0123456789abcdef''"
proof -
  let ?s = "mem_of [DeploymentObj demoDeployment]"
  obtain s' where run: "run_state (reconcileDeployment (mem_env all_kinds) demoCluster demoConfig ''ab'') ?s = (Inr (), s')"
    using demo_deployment_run by blast
  have old: "mem_view ?s (deploymentKey demoCluster) = Some (DeploymentObj demoDeployment)"
    by (simp add: mem_view_def demo_defs)
  have hash: "goget (pt_Annotations (d_Template demoDeployment)) pipelinesHashAnnotation = ''0123456789abcdef''"
    by (simp add: demoDeployment_def pipelinesHashAnnotation_def)
  have "settled (mem_view ?s)" by (rule settled_mem_of) (simp add: demo_defs)
  from deployment_reconciled [OF mem.api_server_axioms this run]
  have "deployment_post demoConfig ''ab'' demoCluster () (Some (DeploymentObj demoDeployment)) (mem_view s' (deploymentKey demoCluster))"
    by (simp only: old)
  then obtain d where d: "mem_view s' (deploymentKey demoCluster) = Some (DeploymentObj d)" "d_Replicas d = Some 3"
    "runs_cluster demoCluster demoConfig ''ab'' d" "annotated demoConfig ''ab'' ''0123456789abcdef'' (pt_Annotations (d_Template d))"
    "goget (pt_Annotations (d_Template d)) pipelinesHashAnnotation = ''0123456789abcdef''"
    unfolding deployment_post_def using hash by (auto simp: demoCluster_def demoSpec_def stamp_before_def)
  have "goget (pt_Annotations (d_Template d)) ''team'' = ''logs''"
    using d(4) by (simp add: annotated_def goget_def demoConfig_def pipelinesHashAnnotation_def peerConfigHashAnnotation_def)
  with run d show ?thesis by blast
qed


text \<open>
  C24: a successful reconcile of the peer configuration touches only that ConfigMap. Without a
  user-supplied server configuration the ConfigMap holds the rendered configuration and the result is
  its hash; with one the ConfigMap is gone (unless a finalizer holds it) and the result is empty.
\<close>

theorem peer_config_reconciled:
  assumes "api_server E view" "settled (view s)" "run_state (reconcilePeerConfig E c) s = (Inr h, s')"
  shows "only_changes {peerKey c} (view s) (view s') \<and>
    peer_config_post c h (view s (peerKey c)) (view s' (peerKey c))"
  using wpvD [OF api_server.peer_config_spec [OF assms(1,2)] refl assms(3)] by simp

definition withServerConfig :: "DataPrepperCluster \<Rightarrow> DataPrepperCluster" where
  "withServerConfig c = c\<lparr>c_Spec := (c_Spec c)\<lparr>cs_ServerConfigMap := ''mine''\<rparr>\<rparr>"

text \<open>A first reconcile writes the configuration; after the user supplies one, a second removes it.\<close>

theorem peer_config_reconciled_witness:
  "\<exists>s1 s2. run_state (reconcilePeerConfig (mem_env all_kinds) demoCluster) (mem_of []) =
       (Inr (content_hash (renderPeerConfig demoCluster)), s1) \<and>
     config_data (mem_view s1) ''default'' ''prepper-peer-config'' \<noteq> None \<and>
     run_state (reconcilePeerConfig (mem_env all_kinds) (withServerConfig demoCluster)) s1 = (Inr [], s2) \<and>
     mem_view s2 (peerKey demoCluster) = None"
proof -
  let ?E = "mem_env all_kinds" and ?s = "mem_of []"
  let ?c = "withServerConfig demoCluster"
  have key: "peerKey demoCluster = (KConfigMap, ''default'', ''prepper-peer-config'')" "peerKey ?c = peerKey demoCluster"
    by (simp_all add: demo_defs peerConfigMapName_def withServerConfig_def)
  have "\<exists>h s1. run_state (reconcilePeerConfig ?E demoCluster) ?s = (Inr h, s1) \<and>
      (\<exists>ob. mem_view s1 (peerKey demoCluster) = Some ob \<and> Finalizers (obj_meta ob) = [])"
    unfolding key by (simp add: reconcilePeerConfig_def mem_eval demo_defs configMap_def owned_by_def peerConfigMapName_def Let_def)
  then obtain h s1 ob where one: "run_state (reconcilePeerConfig ?E demoCluster) ?s = (Inr h, s1)"
    and ob: "mem_view s1 (peerKey demoCluster) = Some ob" "Finalizers (obj_meta ob) = []" by blast
  have settled: "settled (mem_view ?s)" by (rule settled_mem_of) simp
  have cm: "peer_config_post demoCluster h (mem_view ?s (peerKey demoCluster)) (mem_view s1 (peerKey demoCluster))"
    using peer_config_reconciled [OF mem.api_server_axioms settled one] by simp
  have settled1: "settled (mem_view s1)"
    using wpvD [OF mem.peer_config_spec [OF settled] refl one] by simp
  obtain m where m: "ob = ConfigMapObj m" using mem_view_key [OF ob(1)] by (cases ob) auto
  obtain h2 s2 where two: "run_state (reconcilePeerConfig ?E ?c) s1 = (Inr h2, s2)"
    using wpv_returns [OF mem.peer_config_ok] by fastforce
  have "peer_config_post ?c h2 (mem_view s1 (peerKey demoCluster)) (mem_view s2 (peerKey demoCluster))"
    using peer_config_reconciled [OF mem.api_server_axioms settled1 two] unfolding key(2) by simp
  then have "h2 = []" "mem_view s2 (peerKey demoCluster) = None"
    using ob by (simp_all add: peer_config_post_def withServerConfig_def)
  moreover have "cs_ServerConfigMap (c_Spec demoCluster) = []" by (simp add: demoCluster_def demoSpec_def)
  with cm have "h = content_hash (renderPeerConfig demoCluster)" by (simp add: peer_config_post_def)
  moreover have "config_data (mem_view s1) ''default'' ''prepper-peer-config'' \<noteq> None"
    using ob(1) m by (simp add: config_data_def key(1))
  ultimately show ?thesis using one two by blast
qed


text \<open>
  The cluster controller never overwrites the pipelines: an existing pipelines ConfigMap is left
  exactly as it is, and a missing one is created with the placeholder pipeline, owned by the cluster.
\<close>

theorem pipelines_config_created_once:
  assumes "api_server E view" "settled (view s)" "run_state (reconcileConfigMap E c) s = (Inr (), s')"
  shows "if view s (pipelinesKey c) = None
         then only_changes {pipelinesKey c} (view s) (view s') \<and>
              config_data (view s') (cns c) (cname c @ ''-pipelines'') =
                Some (fmupd ''pipelines.yaml'' defaultPipelineYaml fmempty)
         else view s' = view s"
proof -
  have spec: "only_changes {pipelinesKey c} (view s) (view s')"
    "pipelines_config_post c () (view s (pipelinesKey c)) (view s' (pipelinesKey c))"
    using wpvD [OF api_server.pipelines_config_spec [OF assms(1,2)] refl assms(3)] by simp_all
  show ?thesis
  proof (cases "view s (pipelinesKey c)")
    case None
    with spec show ?thesis by (auto simp: pipelines_config_post_def)
  next
    case (Some ob)
    with spec(2) have "view s' (pipelinesKey c) = view s (pipelinesKey c)" by (simp add: pipelines_config_post_def)
    with spec(1) have "view s' key = view s key" for key by (cases "key = pipelinesKey c") (auto dest: only_changesD)
    with Some show ?thesis by auto
  qed
qed

theorem pipelines_config_created_once_witness:
  "\<exists>s1 s2. run_state (reconcileConfigMap (mem_env all_kinds) demoCluster) (mem_of []) = (Inr (), s1) \<and>
     config_data (mem_view s1) ''default'' ''prepper-pipelines'' =
       Some (fmupd ''pipelines.yaml'' defaultPipelineYaml fmempty) \<and>
     run_state (reconcileConfigMap (mem_env all_kinds) demoCluster) s1 = (Inr (), s2) \<and> mem_view s2 = mem_view s1"
proof -
  let ?E = "mem_env all_kinds" and ?s = "mem_of []"
  have key: "pipelinesKey demoCluster = (KConfigMap, ''default'', ''prepper-pipelines'')" by (simp add: demo_defs)
  obtain s1 where one: "run_state (reconcileConfigMap ?E demoCluster) ?s = (Inr (), s1)"
    using wpv_returns [OF mem.pipelines_config_ok] by fastforce
  obtain s2 where two: "run_state (reconcileConfigMap ?E demoCluster) s1 = (Inr (), s2)"
    using wpv_returns [OF mem.pipelines_config_ok] by fastforce
  have settled: "settled (mem_view ?s)" by (rule settled_mem_of) simp
  then have settled1: "settled (mem_view s1)"
    using wpvD [OF mem.pipelines_config_spec [OF settled] refl one] by simp
  have "mem_view ?s (pipelinesKey demoCluster) = None" by (simp add: mem_view_def mem_of_def)
  then have data: "config_data (mem_view s1) ''default'' ''prepper-pipelines'' =
       Some (fmupd ''pipelines.yaml'' defaultPipelineYaml fmempty)"
    using pipelines_config_created_once [OF mem.api_server_axioms settled one] by (simp add: demo_defs)
  then have "mem_view s1 (pipelinesKey demoCluster) \<noteq> None" by (cases "mem_view s1 (pipelinesKey demoCluster)") (simp_all add: config_data_def key)
  then have "mem_view s2 = mem_view s1"
    using pipelines_config_created_once [OF mem.api_server_axioms settled1 two] by simp
  with one two data show ?thesis by blast
qed

text \<open>
  C30: against a server that answers, the Deployment's reconcile fails for one reason only, a stored
  Deployment whose pod template has no container: then the index into its containers panics and
  nothing is written.
\<close>

theorem deployment_panics_iff:
  assumes "available_server E view installed" "installed KDeployment"
    and "run_state (reconcileDeployment E c cfg peerHash) s = (r, s')"
  shows "if has_container (view s (deploymentKey c)) then r = Inr ()
         else r = Inl (Panic ''index out of range'') \<and> view s' = view s"
  using wpvD [OF available_server.deployment_result [OF assms(1,2)] refl assms(3)] .

theorem deployment_panics_iff_witness:
  "fst (run_state (reconcileDeployment (mem_env all_kinds) demoCluster demoConfig [])
      (mem_of [DeploymentObj (demoDeployment\<lparr>d_Template := (d_Template demoDeployment)\<lparr>pt_Containers := []\<rparr>\<rparr>)])) =
    Inl (Panic ''index out of range'') \<and>
   fst (run_state (reconcileDeployment (mem_env all_kinds) demoCluster demoConfig [])
      (mem_of [DeploymentObj demoDeployment])) = Inr ()"
proof -
  have "\<not> has_container (mem_view (mem_of [DeploymentObj (demoDeployment\<lparr>d_Template := (d_Template demoDeployment)\<lparr>pt_Containers := []\<rparr>\<rparr>)])
      (deploymentKey demoCluster))" "has_container (mem_view (mem_of [DeploymentObj demoDeployment]) (deploymentKey demoCluster))"
    by (simp_all add: has_container_def mem_view_def demo_defs)
  then show ?thesis
    using deployment_panics_iff [OF mem.available_server_axioms _ surjective_pairing, of all_kinds] by auto
qed

end
