(* ===== verification/Cluster_Network.thy ===== *)
theory Cluster_Network
  imports Cluster_Workload
begin

text \<open>
  internal/controller/datapreppercluster\_controller.go, third part: the client-facing Service, the
  headless Service, the HorizontalPodAutoscaler and the ServiceMonitor.
\<close>

section \<open>Definitions\<close>

definition extraServicePort :: "container_port \<Rightarrow> service_port" where
  "extraServicePort p =
     \<lparr>sp_Name = cp_Name p, sp_Port = cp_ContainerPort p, sp_TargetPort = FromInt32 (cp_ContainerPort p),
      sp_Protocol = cp_Protocol p, sp_Other = []\<rparr>"

definition servicePorts :: "DataPrepperCluster \<Rightarrow> service_port list" where
  "servicePorts cluster =
     \<lparr>sp_Name = ''http'', sp_Port = 4900, sp_TargetPort = FromString ''http'', sp_Protocol = [], sp_Other = []\<rparr>
     # map extraServicePort (cs_ExtraPorts (c_Spec cluster))"

definition desiredService :: "DataPrepperCluster \<Rightarrow> service" where
  "desiredService cluster =
     \<lparr>sv_Meta = object_meta (Name (c_Meta cluster)) (Namespace (c_Meta cluster)),
      sv_Selector = appLabel cluster, sv_Ports = servicePorts cluster, sv_ClusterIP = [],
      sv_PublishNotReadyAddresses = False, sv_Other = []\<rparr>"

definition reconcileService :: "'s env \<Rightarrow> DataPrepperCluster \<Rightarrow> ('s, goerror + unit) state" where
  "reconcileService E cluster =
     (let desired = desiredService cluster in
      bindE (liftE (SetControllerReference E cluster (ServiceObj desired))) (\<lambda>owned. do {
      r \<leftarrow> getAs E asService KService (Namespace (sv_Meta desired), Name (sv_Meta desired));
      (case r of
         Inl err \<Rightarrow> if IsNotFound E err then Create E owned else throwE err
       | Inr existing \<Rightarrow>
           if \<not> DeepEqual E (AnyPorts (sv_Ports existing)) (AnyPorts (sv_Ports desired)) \<or>
              \<not> DeepEqual E (AnyStringMap (sv_Selector existing)) (AnyStringMap (sv_Selector desired))
           then Update E (ServiceObj
                  (existing\<lparr>sv_Ports := sv_Ports desired, sv_Selector := sv_Selector desired\<rparr>))
           else returnE ()) }))"

definition desiredHeadless :: "DataPrepperCluster \<Rightarrow> service" where
  "desiredHeadless cluster =
     \<lparr>sv_Meta = object_meta (headlessServiceName cluster) (Namespace (c_Meta cluster)),
      sv_Selector = appLabel cluster, sv_Ports = [], sv_ClusterIP = ''None'',
      sv_PublishNotReadyAddresses = True, sv_Other = []\<rparr>"

definition reconcileHeadlessService :: "'s env \<Rightarrow> DataPrepperCluster \<Rightarrow> ('s, goerror + unit) state" where
  "reconcileHeadlessService E cluster =
     (let desired = desiredHeadless cluster in
      bindE (liftE (SetControllerReference E cluster (ServiceObj desired))) (\<lambda>owned. do {
      r \<leftarrow> getAs E asService KService (Namespace (sv_Meta desired), Name (sv_Meta desired));
      (case r of
         Inl err \<Rightarrow> if IsNotFound E err then Create E owned else throwE err
       | Inr existing \<Rightarrow>
           if sv_ClusterIP existing = ''None'' \<and>
              sv_PublishNotReadyAddresses existing = sv_PublishNotReadyAddresses desired \<and>
              DeepEqual E (AnyStringMap (sv_Selector existing)) (AnyStringMap (sv_Selector desired))
           then returnE ()
           else Update E (ServiceObj
                  (existing\<lparr>sv_PublishNotReadyAddresses := sv_PublishNotReadyAddresses desired,
                            sv_Selector := sv_Selector desired\<rparr>))) }))"

definition desiredHPASpec :: "DataPrepperCluster \<Rightarrow> AutoscalingSpec \<Rightarrow> hpa_spec" where
  "desiredHPASpec cluster as =
     (let cpuTarget = (case as_TargetCPUUtilizationPercentage as of None \<Rightarrow> 70 | Some t \<Rightarrow> t) in
      \<lparr>hs_ScaleTargetRef =
         \<lparr>cv_APIVersion = ''apps/v1'', cv_Kind = ''Deployment'', cv_Name = Name (c_Meta cluster)\<rparr>,
       hs_MinReplicas = as_MinReplicas as, hs_MaxReplicas = as_MaxReplicas as,
       hs_Metrics = [ResourceMetric ''cpu'' ''Utilization'' (Some cpuTarget)], hs_Behavior = None\<rparr>)"

definition reconcileHPA :: "'s env \<Rightarrow> DataPrepperCluster \<Rightarrow> ('s, goerror + unit) state" where
  "reconcileHPA E cluster = do {
     r \<leftarrow> getAs E asHPA KHPA (Namespace (c_Meta cluster), Name (c_Meta cluster));
     (case cs_Autoscaling (c_Spec cluster) of
        None \<Rightarrow>
          (case r of
             Inl getErr \<Rightarrow> if IsNotFound E getErr then returnE () else throwE getErr
           | Inr existing \<Rightarrow> Delete E (HPAObj existing))
      | Some as \<Rightarrow>
          let desired = \<lparr>hp_Meta = object_meta (Name (c_Meta cluster)) (Namespace (c_Meta cluster)),
                         hp_Spec = desiredHPASpec cluster as, hp_Other = []\<rparr> in
          bindE (liftE (SetControllerReference E cluster (HPAObj desired))) (\<lambda>owned.
          case r of
            Inl getErr \<Rightarrow> if IsNotFound E getErr then Create E owned else throwE getErr
          | Inr existing \<Rightarrow>
              if DeepEqual E (AnyHPASpec (hp_Spec existing)) (AnyHPASpec (hp_Spec desired))
              then returnE ()
              else Update E (HPAObj (existing\<lparr>hp_Spec := hp_Spec desired\<rparr>)))) }"

definition serviceMonitorSpec :: "DataPrepperCluster \<Rightarrow> uvalue" where
  "serviceMonitorSpec cluster =
     UMap [(''selector'', UMap [(''matchLabels'', UMap [(''app'', UString (Name (c_Meta cluster)))])]),
           (''endpoints'', UList [UMap [(''port'', UString ''http''),
                                        (''path'', UString ''/metrics/prometheus'')]])]"

definition wantServiceMonitor :: "DataPrepperCluster \<Rightarrow> bool" where
  "wantServiceMonitor cluster =
     (case cs_Metrics (c_Spec cluster) of None \<Rightarrow> False | Some m \<Rightarrow> ms_ServiceMonitor m)"

definition reconcileServiceMonitor :: "'s env \<Rightarrow> DataPrepperCluster \<Rightarrow> ('s, goerror + unit) state" where
  "reconcileServiceMonitor E cluster = do {
     let want = wantServiceMonitor cluster;
     let desired = \<lparr>sm_Meta = object_meta (Name (c_Meta cluster)) (Namespace (c_Meta cluster)),
                    sm_Spec = None, sm_Other = []\<rparr>;
     r \<leftarrow> getAs E asServiceMonitor KServiceMonitor (Namespace (sm_Meta desired), Name (sm_Meta desired));
     if (case r of Inl getErr \<Rightarrow> IsNoMatchError E getErr | Inr existing \<Rightarrow> False) then returnE ()
     else if \<not> want then
       (case r of
          Inl getErr \<Rightarrow> if IsNotFound E getErr then returnE () else throwE getErr
        | Inr existing \<Rightarrow> Delete E (ServiceMonitorObj existing))
     else do {
       let spec = serviceMonitorSpec cluster;
       bindE (liftE (SetNestedMap E desired spec [''spec''])) (\<lambda>desired.
       bindE (liftE (SetControllerReference E cluster (ServiceMonitorObj desired))) (\<lambda>owned.
       case r of
         Inl getErr \<Rightarrow>
           if IsNotFound E getErr then do {
             c \<leftarrow> Create E owned;
             (case c of
                Inl err \<Rightarrow> if IsNoMatchError E err then returnE () else throwE err
              | Inr _ \<Rightarrow> returnE ()) }
           else throwE getErr
       | Inr existing \<Rightarrow>
           if DeepEqual E (AnyUnstructured (NestedMap E existing [''spec''])) (AnyUnstructured (Some spec))
           then returnE ()
           else bindE (liftE (SetNestedMap E existing spec [''spec''])) (\<lambda>updated.
                Update E (ServiceMonitorObj updated)))) } }"


section \<open>The Services\<close>

abbreviation serviceKey :: "DataPrepperCluster \<Rightarrow> object_key" where
  "serviceKey c \<equiv> (KService, cns c, cname c)"

abbreviation headlessKey :: "DataPrepperCluster \<Rightarrow> object_key" where
  "headlessKey c \<equiv> (KService, cns c, headlessServiceName c)"

definition keeps_address :: "service \<Rightarrow> kobject option \<Rightarrow> bool" where
  "keeps_address sv old \<longleftrightarrow>
     (\<forall>sv0. old = Some (ServiceObj sv0) \<longrightarrow> sv_ClusterIP sv0 \<noteq> [] \<longrightarrow> sv_ClusterIP sv = sv_ClusterIP sv0)"

text \<open>The client-facing Service selects the cluster's pods, serves the named ports and keeps its address.\<close>

definition service_post :: "DataPrepperCluster \<Rightarrow> unit \<Rightarrow> kobject option \<Rightarrow> kobject option \<Rightarrow> bool" where
  "service_post c u old new \<longleftrightarrow>
     (\<exists>sv. new = Some (ServiceObj sv) \<and> entries (sv_Selector sv) = entries (appLabel c) \<and>
        map (\<lambda>p. (sp_Name p, sp_Port p)) (sv_Ports sv) = map (\<lambda>p. (sp_Name p, sp_Port p)) (servicePorts c) \<and>
        keeps_address sv old \<and> (old = None \<longrightarrow> OwnerReferences (sv_Meta sv) = [controllerRef c]))"

text \<open>
  The headless Service selects the same pods, ready or not. A new one has no address; the address of an
  existing one is not changed.
\<close>

definition headless_post :: "DataPrepperCluster \<Rightarrow> unit \<Rightarrow> kobject option \<Rightarrow> kobject option \<Rightarrow> bool" where
  "headless_post c u old new \<longleftrightarrow>
     (\<exists>sv. new = Some (ServiceObj sv) \<and> entries (sv_Selector sv) = entries (appLabel c) \<and>
        sv_PublishNotReadyAddresses sv \<and> keeps_address sv old \<and>
        (old = None \<longrightarrow> sv_ClusterIP sv = ''None'' \<and> OwnerReferences (sv_Meta sv) = [controllerRef c]))"

lemma desired_service_simps [simp]:
  "Namespace (sv_Meta (desiredService c)) = cns c" "Name (sv_Meta (desiredService c)) = cname c"
  "OwnerReferences (sv_Meta (desiredService c)) = []"
  "sv_Selector (desiredService c) = appLabel c" "sv_Ports (desiredService c) = servicePorts c"
  "Namespace (sv_Meta (desiredHeadless c)) = cns c" "Name (sv_Meta (desiredHeadless c)) = headlessServiceName c"
  "OwnerReferences (sv_Meta (desiredHeadless c)) = []" "sv_ClusterIP (desiredHeadless c) = ''None''"
  "sv_Selector (desiredHeadless c) = appLabel c" "sv_PublishNotReadyAddresses (desiredHeadless c)"
  by (simp_all add: desiredService_def desiredHeadless_def object_meta_def)

lemma stored_service:
  "stored_as (ServiceObj sv) ob \<Longrightarrow>
     \<exists>sv'. ob = ServiceObj sv' \<and> OwnerReferences (sv_Meta sv') = OwnerReferences (sv_Meta sv) \<and>
       entries (sv_Selector sv') = entries (sv_Selector sv) \<and>
       map (\<lambda>p. (sp_Name p, sp_Port p)) (sv_Ports sv') = map (\<lambda>p. (sp_Name p, sp_Port p)) (sv_Ports sv) \<and>
       (sv_ClusterIP sv \<noteq> [] \<longrightarrow> sv_ClusterIP sv' = sv_ClusterIP sv) \<and>
       sv_PublishNotReadyAddresses sv' = sv_PublishNotReadyAddresses sv"
  by (auto simp: stored_as_def meta_kept_def)

lemma owned_service:
  "owned_by c (ServiceObj sv) = ServiceObj (sv\<lparr>sv_Meta := (sv_Meta sv)\<lparr>OwnerReferences := [controllerRef c]\<rparr>\<rparr>)"
  by (simp add: owned_by_def)

lemma service_created:
  assumes "create_effect (owned_by c (ServiceObj sv)) v w"
  shows "\<exists>sv'. w (KService, Namespace (sv_Meta sv), Name (sv_Meta sv)) = Some (ServiceObj sv') \<and>
     OwnerReferences (sv_Meta sv') = [controllerRef c] \<and> entries (sv_Selector sv') = entries (sv_Selector sv) \<and>
     map (\<lambda>p. (sp_Name p, sp_Port p)) (sv_Ports sv') = map (\<lambda>p. (sp_Name p, sp_Port p)) (sv_Ports sv) \<and>
     (sv_ClusterIP sv \<noteq> [] \<longrightarrow> sv_ClusterIP sv' = sv_ClusterIP sv) \<and>
     sv_PublishNotReadyAddresses sv' = sv_PublishNotReadyAddresses sv"
  using create_new [OF assms] stored_service unfolding owned_service by fastforce

lemma service_updated:
  assumes "update_effect (ServiceObj sv) v w" "settled v"
    and "v (KService, Namespace (sv_Meta sv), Name (sv_Meta sv)) = Some (ServiceObj sv0)" "sv_Meta sv = sv_Meta sv0"
  shows "\<exists>sv'. w (KService, Namespace (sv_Meta sv), Name (sv_Meta sv)) = Some (ServiceObj sv') \<and>
     entries (sv_Selector sv') = entries (sv_Selector sv) \<and>
     map (\<lambda>p. (sp_Name p, sp_Port p)) (sv_Ports sv') = map (\<lambda>p. (sp_Name p, sp_Port p)) (sv_Ports sv) \<and>
     (sv_ClusterIP sv \<noteq> [] \<longrightarrow> sv_ClusterIP sv' = sv_ClusterIP sv) \<and>
     sv_PublishNotReadyAddresses sv' = sv_PublishNotReadyAddresses sv"
  using update_new [OF assms(1,2), of "ServiceObj sv0"] assms(3,4) by (auto dest!: stored_service)

context apimachinery
begin

lemma reconcileService_parts:
  "reconcileService E c = do {
     r \<leftarrow> getAs E asService KService (cns c, cname c);
     (case r of
        Inl err \<Rightarrow> if IsNotFound E err then Create E (owned_by c (ServiceObj (desiredService c))) else throwE err
      | Inr sv \<Rightarrow>
          if sv_Ports sv = servicePorts c \<and> entries (sv_Selector sv) = entries (appLabel c) then returnE ()
          else Update E (ServiceObj (sv\<lparr>sv_Ports := servicePorts c, sv_Selector := appLabel c\<rparr>))) }"
  unfolding reconcileService_def Let_def
  by (simp add: SetControllerReference DeepEqual cong: sum.case_cong if_cong)
    (rule arg_cong [where f = "State_Monad.bind _"], auto simp: fun_eq_iff split: sum.split)

lemma reconcileHeadless_parts:
  "reconcileHeadlessService E c = do {
     r \<leftarrow> getAs E asService KService (cns c, headlessServiceName c);
     (case r of
        Inl err \<Rightarrow> if IsNotFound E err then Create E (owned_by c (ServiceObj (desiredHeadless c))) else throwE err
      | Inr sv \<Rightarrow>
          if sv_ClusterIP sv = ''None'' \<and> sv_PublishNotReadyAddresses sv \<and> entries (sv_Selector sv) = entries (appLabel c)
          then returnE ()
          else Update E (ServiceObj (sv\<lparr>sv_PublishNotReadyAddresses := True, sv_Selector := appLabel c\<rparr>))) }"
  unfolding reconcileHeadlessService_def Let_def
  by (simp add: SetControllerReference DeepEqual cong: sum.case_cong if_cong)

end

sublocale api_server < service: sub_reconciler view "reconcileService E" serviceKey service_post
proof (unfold_locales, goal_cases)
  case (1 c v)
  then show ?case unfolding reconcileService_parts
    by (intro wpv_bind wpv_getService) (auto intro!: wpv_rules frame_writes)
next
  case (2 v c)
  then show ?case unfolding reconcileService_parts
    by (intro wpv_bind wpv_getService) (auto intro!: wpv_rules settled_writes)
next
  case (3 v c)
  then show ?case unfolding reconcileService_parts
    by (intro wpv_bind wpv_getService)
      (auto simp: service_post_def keeps_address_def intro!: wpv_rules wpv_Create wpv_Update split: sum.splits
        dest!: service_created service_updated)
qed


sublocale api_server < headless: sub_reconciler view "reconcileHeadlessService E" headlessKey headless_post
proof (unfold_locales, goal_cases)
  case (1 c v)
  then show ?case unfolding reconcileHeadless_parts
    by (intro wpv_bind wpv_getService) (auto intro!: wpv_rules frame_writes)
next
  case (2 v c)
  then show ?case unfolding reconcileHeadless_parts
    by (intro wpv_bind wpv_getService) (auto intro!: wpv_rules settled_writes)
next
  case (3 v c)
  then show ?case unfolding reconcileHeadless_parts
    by (intro wpv_bind wpv_getService)
      (auto simp: headless_post_def keeps_address_def intro!: wpv_rules wpv_Create wpv_Update split: sum.splits
        dest!: service_created service_updated)
qed

sublocale available_server < service_up:
  answering_reconciler view "reconcileService E" serviceKey service_post "\<lambda>_. installed KService"
proof (unfold_locales, goal_cases)
  case (1 v c)
  then show ?case unfolding reconcileService_parts
    by (intro wpv_bind up_getService) (auto intro!: wpv_rules up_Create up_Update)
qed

sublocale available_server < headless_up:
  answering_reconciler view "reconcileHeadlessService E" headlessKey headless_post "\<lambda>_. installed KService"
proof (unfold_locales, goal_cases)
  case (1 v c)
  then show ?case unfolding reconcileHeadless_parts
    by (intro wpv_bind up_getService) (auto intro!: wpv_rules up_Create up_Update)
qed

section \<open>The autoscaler\<close>

abbreviation hpaKey :: "DataPrepperCluster \<Rightarrow> object_key" where
  "hpaKey c \<equiv> (KHPA, cns c, cname c)"

text \<open>The autoscaler scales the cluster's Deployment within the bounds of the spec, at the CPU target or 70.\<close>

definition autoscales :: "DataPrepperCluster \<Rightarrow> AutoscalingSpec \<Rightarrow> hpa_spec \<Rightarrow> bool" where
  "autoscales c as h \<longleftrightarrow>
     hs_ScaleTargetRef h = \<lparr>cv_APIVersion = ''apps/v1'', cv_Kind = ''Deployment'', cv_Name = cname c\<rparr> \<and>
     (as_MinReplicas as \<noteq> None \<longrightarrow> hs_MinReplicas h = as_MinReplicas as) \<and> hs_MaxReplicas h = as_MaxReplicas as \<and>
     hs_Metrics h = [ResourceMetric ''cpu'' ''Utilization''
       (Some (case as_TargetCPUUtilizationPercentage as of None \<Rightarrow> 70 | Some t \<Rightarrow> t))]"

definition removed :: "kobject option \<Rightarrow> kobject option \<Rightarrow> bool" where
  "removed old new \<longleftrightarrow> (case old of None \<Rightarrow> new = None | Some ob \<Rightarrow> Finalizers (obj_meta ob) = [] \<longrightarrow> new = None)"

definition hpa_post :: "DataPrepperCluster \<Rightarrow> unit \<Rightarrow> kobject option \<Rightarrow> kobject option \<Rightarrow> bool" where
  "hpa_post c u old new \<longleftrightarrow>
     (case cs_Autoscaling (c_Spec c) of
        None \<Rightarrow> removed old new
      | Some as \<Rightarrow> \<exists>h. new = Some (HPAObj h) \<and> autoscales c as (hp_Spec h) \<and>
                     (old = None \<longrightarrow> OwnerReferences (hp_Meta h) = [controllerRef c]))"

definition desiredHPA :: "DataPrepperCluster \<Rightarrow> AutoscalingSpec \<Rightarrow> hpa" where
  "desiredHPA c as = \<lparr>hp_Meta = object_meta (cname c) (cns c), hp_Spec = desiredHPASpec c as, hp_Other = []\<rparr>"

lemma desiredHPA_simps [simp]:
  "Namespace (hp_Meta (desiredHPA c as)) = cns c" "Name (hp_Meta (desiredHPA c as)) = cname c"
  "OwnerReferences (hp_Meta (desiredHPA c as)) = []" "hp_Spec (desiredHPA c as) = desiredHPASpec c as"
  by (simp_all add: desiredHPA_def object_meta_def)

lemma autoscales_desired [simp]: "autoscales c as (desiredHPASpec c as)"
  by (simp add: autoscales_def desiredHPASpec_def Let_def)

lemma stored_hpa:
  assumes "stored_as ob ob'" "ob = HPAObj h" "hp_Spec h = desiredHPASpec c as"
  shows "\<exists>h'. ob' = HPAObj h' \<and> autoscales c as (hp_Spec h') \<and> OwnerReferences (hp_Meta h') = OwnerReferences (hp_Meta h)"
  using assms by (auto simp: stored_as_def autoscales_def meta_kept_def desiredHPASpec_def Let_def)

lemma owned_hpa:
  "owned_by c (HPAObj h) = HPAObj (h\<lparr>hp_Meta := (hp_Meta h)\<lparr>OwnerReferences := [controllerRef c]\<rparr>\<rparr>)"
  by (simp add: owned_by_def)

lemma hpa_created:
  assumes "create_effect (owned_by c (HPAObj (desiredHPA c as))) v w"
  shows "\<exists>h. w (hpaKey c) = Some (HPAObj h) \<and> autoscales c as (hp_Spec h) \<and> OwnerReferences (hp_Meta h) = [controllerRef c]"
  using create_new [OF assms] stored_hpa [OF _ owned_hpa] by fastforce

lemma hpa_updated:
  assumes "update_effect (HPAObj (h\<lparr>hp_Spec := desiredHPASpec c as\<rparr>)) v w" "settled v"
    and "v (KHPA, Namespace (hp_Meta h), Name (hp_Meta h)) = Some (HPAObj h)"
  shows "\<exists>h'. w (KHPA, Namespace (hp_Meta h), Name (hp_Meta h)) = Some (HPAObj h') \<and> autoscales c as (hp_Spec h')"
  using update_new [OF assms(1,2), of "HPAObj h"] assms(3) stored_hpa [OF _ refl] by fastforce

lemma removed_simps [simp]: "removed None new \<longleftrightarrow> new = None"
  by (simp add: removed_def)

context apimachinery
begin

lemma reconcileHPA_parts:
  "reconcileHPA E c = do {
     r \<leftarrow> getAs E asHPA KHPA (cns c, cname c);
     (case cs_Autoscaling (c_Spec c) of
        None \<Rightarrow>
          (case r of
             Inl getErr \<Rightarrow> if IsNotFound E getErr then returnE () else throwE getErr
           | Inr existing \<Rightarrow> Delete E (HPAObj existing))
      | Some as \<Rightarrow>
          (case r of
            Inl getErr \<Rightarrow> if IsNotFound E getErr then Create E (owned_by c (HPAObj (desiredHPA c as))) else throwE getErr
          | Inr existing \<Rightarrow>
              if hp_Spec existing = desiredHPASpec c as then returnE ()
              else Update E (HPAObj (existing\<lparr>hp_Spec := desiredHPASpec c as\<rparr>)))) }"
  unfolding reconcileHPA_def Let_def desiredHPA_def [symmetric]
  by (simp add: SetControllerReference DeepEqual cong: sum.case_cong if_cong option.case_cong)

end

sublocale api_server < hpa: sub_reconciler view "reconcileHPA E" hpaKey hpa_post
proof (unfold_locales, goal_cases)
  case (1 c v)
  then show ?case unfolding reconcileHPA_parts
    by (intro wpv_bind wpv_getHPA) (auto intro!: wpv_rules frame_writes)
next
  case (2 v c)
  then show ?case unfolding reconcileHPA_parts
    by (intro wpv_bind wpv_getHPA) (auto intro!: wpv_rules settled_writes)
next
  case (3 v c)
  then show ?case unfolding reconcileHPA_parts
    by (intro wpv_bind wpv_getHPA)
      (auto simp: hpa_post_def removed_def delete_effect_def intro!: wpv_rules wpv_Create wpv_Update wpv_Delete
        split: sum.splits dest!: hpa_created hpa_updated)
qed

sublocale available_server < hpa_up: answering_reconciler view "reconcileHPA E" hpaKey hpa_post "\<lambda>_. installed KHPA"
proof (unfold_locales, goal_cases)
  case (1 v c)
  then show ?case unfolding reconcileHPA_parts
    by (intro wpv_bind up_getHPA) (auto intro!: wpv_rules up_Create up_Update up_Delete)
qed


section \<open>The ServiceMonitor\<close>

abbreviation monitorKey :: "DataPrepperCluster \<Rightarrow> object_key" where
  "monitorKey c \<equiv> (KServiceMonitor, cns c, cname c)"

text \<open>
  Where the ServiceMonitor kind is unknown nothing happens. Otherwise the monitor exists, with a selector for the
  cluster's Service and the Prometheus endpoint, when it is wanted, and is removed when it is not.
\<close>

definition monitor_post :: "bool \<Rightarrow> DataPrepperCluster \<Rightarrow> unit \<Rightarrow> kobject option \<Rightarrow> kobject option \<Rightarrow> bool" where
  "monitor_post known c u old new \<longleftrightarrow>
     (if \<not> known then new = old
      else if wantServiceMonitor c
      then \<exists>m. new = Some (ServiceMonitorObj m) \<and> sm_Spec m = Some (serviceMonitorSpec c) \<and>
                (old = None \<longrightarrow> OwnerReferences (sm_Meta m) = [controllerRef c])
      else removed old new)"

definition desiredMonitor :: "DataPrepperCluster \<Rightarrow> service_monitor" where
  "desiredMonitor c = \<lparr>sm_Meta = object_meta (cname c) (cns c), sm_Spec = Some (serviceMonitorSpec c), sm_Other = []\<rparr>"

lemma desiredMonitor_simps [simp]:
  "Namespace (sm_Meta (desiredMonitor c)) = cns c" "Name (sm_Meta (desiredMonitor c)) = cname c"
  "OwnerReferences (sm_Meta (desiredMonitor c)) = []"
  by (simp_all add: desiredMonitor_def object_meta_def)

lemma owned_monitor:
  "owned_by c (ServiceMonitorObj m) = ServiceMonitorObj (m\<lparr>sm_Meta := (sm_Meta m)\<lparr>OwnerReferences := [controllerRef c]\<rparr>\<rparr>)"
  by (simp add: owned_by_def)

lemma monitor_created:
  assumes "create_effect (owned_by c (ServiceMonitorObj (desiredMonitor c))) v w"
  shows "\<exists>m. w (monitorKey c) = Some (ServiceMonitorObj m) \<and> sm_Spec m = Some (serviceMonitorSpec c) \<and>
           OwnerReferences (sm_Meta m) = [controllerRef c]"
  using create_new [OF assms] unfolding owned_monitor
  by (auto simp: stored_as_def meta_kept_def desiredMonitor_def object_meta_def)

lemma monitor_updated:
  assumes "update_effect (ServiceMonitorObj (m\<lparr>sm_Spec := Some u\<rparr>)) v w" "settled v"
    and "v (KServiceMonitor, Namespace (sm_Meta m), Name (sm_Meta m)) = Some (ServiceMonitorObj m)"
  shows "\<exists>m'. w (KServiceMonitor, Namespace (sm_Meta m), Name (sm_Meta m)) = Some (ServiceMonitorObj m') \<and> sm_Spec m' = Some u"
  using update_new [OF assms(1,2), of "ServiceMonitorObj m"] assms(3) by (auto simp: stored_as_def)

text \<open>Whether the kind is known is not visible in the store.\<close>

definition monitor_outcome :: "DataPrepperCluster \<Rightarrow> unit \<Rightarrow> kobject option \<Rightarrow> kobject option \<Rightarrow> bool" where
  "monitor_outcome c u old new \<longleftrightarrow> (\<exists>known. monitor_post known c u old new)"

lemma monitor_outcome_refl: "monitor_outcome c u old old"
  by (auto simp: monitor_outcome_def monitor_post_def intro: exI [of _ False])

lemma monitor_created_post:
  "create_effect (owned_by c (ServiceMonitorObj (desiredMonitor c))) v w \<Longrightarrow> new = w (monitorKey c) \<Longrightarrow>
     wantServiceMonitor c \<Longrightarrow> monitor_post True c u None new"
  by (drule monitor_created) (auto simp: monitor_post_def)

lemma monitor_updated_post:
  assumes "update_effect (ServiceMonitorObj (m\<lparr>sm_Spec := Some (serviceMonitorSpec c)\<rparr>)) v w" "settled v"
    and "v (monitorKey c) = Some (ServiceMonitorObj m)" "Namespace (sm_Meta m) = cns c" "Name (sm_Meta m) = cname c"
    and "new = w (monitorKey c)" "wantServiceMonitor c"
  shows "monitor_post True c u (Some (ServiceMonitorObj m)) new"
  using monitor_updated [OF assms(1,2)] assms(3-7) by (auto simp: monitor_post_def)

lemma monitor_deleted_post:
  assumes "delete_effect (ServiceMonitorObj m) v w" "v (monitorKey c) = Some (ServiceMonitorObj m)"
    and "Namespace (sm_Meta m) = cns c" "Name (sm_Meta m) = cname c" "new = w (monitorKey c)" "\<not> wantServiceMonitor c"
  shows "monitor_post True c u (Some (ServiceMonitorObj m)) new"
  using assms by (auto simp: monitor_post_def removed_def delete_effect_def)

lemma monitor_outcomeI: "monitor_post known c u old new \<Longrightarrow> monitor_outcome c u old new"
  by (auto simp: monitor_outcome_def)

lemmas monitor_write_posts = monitor_created_post monitor_updated_post monitor_deleted_post
lemmas monitor_outcomes = monitor_outcome_refl monitor_write_posts [THEN monitor_outcomeI]

context apimachinery
begin

lemma reconcileMonitor_parts:
  "reconcileServiceMonitor E c = do {
     r \<leftarrow> getAs E asServiceMonitor KServiceMonitor (cns c, cname c);
     (case r of
        Inl getErr \<Rightarrow>
          if IsNoMatchError E getErr then returnE ()
          else if \<not> IsNotFound E getErr then throwE getErr
          else if \<not> wantServiceMonitor c then returnE ()
          else do {
            w \<leftarrow> Create E (owned_by c (ServiceMonitorObj (desiredMonitor c)));
            (case w of
               Inl err \<Rightarrow> if IsNoMatchError E err then returnE () else throwE err
             | Inr _ \<Rightarrow> returnE ()) }
      | Inr existing \<Rightarrow>
          if \<not> wantServiceMonitor c then Delete E (ServiceMonitorObj existing)
          else if sm_Spec existing = Some (serviceMonitorSpec c) then returnE ()
          else Update E (ServiceMonitorObj (existing\<lparr>sm_Spec := Some (serviceMonitorSpec c)\<rparr>))) }"
proof -
  have m: "\<lparr>sm_Meta = object_meta (cname c) (cns c), sm_Spec = None, sm_Other = []\<rparr>\<lparr>sm_Spec := Some (serviceMonitorSpec c)\<rparr> =
      desiredMonitor c" by (simp add: desiredMonitor_def)
  show ?thesis
    unfolding reconcileServiceMonitor_def Let_def bindE_liftE SetNestedMap NestedMap sum.case m DeepEqual
    by (rule arg_cong2 [where f = State_Monad.bind])
      (auto simp: fun_eq_iff SetControllerReference object_meta_def split: sum.split dest: NoMatch_NotFound)
qed

end

sublocale api_server < monitor:
  sub_reconciler view "reconcileServiceMonitor E" monitorKey monitor_outcome
proof (unfold_locales, goal_cases)
  case (1 c v)
  then show ?case unfolding reconcileMonitor_parts
    by (intro wpv_bind wpv_getServiceMonitor) (auto intro!: wpv_rules frame_writes wpv_mono [OF frame_Create] split: sum.splits)
next
  case (2 v c)
  then show ?case unfolding reconcileMonitor_parts
    by (intro wpv_bind wpv_getServiceMonitor)
      (auto intro!: wpv_rules settled_writes wpv_mono [OF settled_writes(1)] split: sum.splits)
next
  case (3 v c)
  then show ?case unfolding reconcileMonitor_parts
    by (intro wpv_bind wpv_getServiceMonitor,
        auto intro!: wpv_rules wpv_Create wpv_Update wpv_Delete simp: write_result_def split: sum.splits
          intro: monitor_outcomes)
      (rule monitor_outcomes, assumption?, (rule refl)?, assumption?)+
qed

context available_server
begin

lemma unknown_getAs:
  assumes "\<not> installed kd" "\<And>e. IsNoMatchError E e \<Longrightarrow> Q (Inl e) v"
  shows "wpv view (getAs E as kd k) Q v"
proof (rule wpvI)
  fix s r s'
  assume v: "view s = v" and run: "run_state (getAs E as kd k) s = (r, s')"
  then obtain q where q: "run_state (Get E kd k) s = (q, s')" and r: "r = decode as q"
    by (auto simp: getAs_def split: prod.splits)
  with Get_unknown [OF assms(1) q] Get_law [OF q] v assms(2) show "Q r (view s')"
    by (auto simp: decode_def)
qed

end

sublocale available_server < monitor_up:
  answering_reconciler view "reconcileServiceMonitor E" monitorKey "monitor_post (installed KServiceMonitor)" "\<lambda>_. True"
proof (unfold_locales, goal_cases)
  case (1 c v)
  then show ?case by (rule monitor.step_frame)
next
  case (2 v c)
  then show ?case by (rule monitor.step_settled)
next
  case (3 v c)
  then show ?case
  proof (cases "installed KServiceMonitor")
    case True
    with 3 show ?thesis unfolding reconcileMonitor_parts
      by (intro wpv_bind up_getServiceMonitor)
        (auto intro!: wpv_rules up_Create up_Update up_Delete intro: monitor_write_posts
          simp: NoMatch_NotFound monitor_post_def [of _ _ _ old old for old] dest: NoMatch_NotFound)
  next
    case False
    then show ?thesis unfolding reconcileMonitor_parts
      by (intro wpv_bind unknown_getAs) (auto intro!: wpv_rules simp: monitor_post_def)
  qed
next
  case (4 v c)
  then show ?case
  proof (cases "installed KServiceMonitor")
    case True
    then show ?thesis unfolding reconcileMonitor_parts
      by (intro wpv_bind up_getServiceMonitor) (auto intro!: wpv_rules up_Create up_Update up_Delete)
  next
    case False
    then show ?thesis unfolding reconcileMonitor_parts
      by (intro wpv_bind unknown_getAs) (auto intro!: wpv_rules)
  qed
qed

section \<open>Properties\<close>

context api_server
begin

lemmas service_spec = service.step_spec
lemmas headless_spec = headless.step_spec
lemmas hpa_spec = hpa.step_spec
lemmas monitor_spec = monitor.step_spec

end

context available_server
begin

lemmas hpa_ok = hpa_up.step_up
lemmas monitor_up_spec = monitor_up.step_spec
lemmas monitor_ok = monitor_up.step_up

end

text \<open>
  C25: a successful reconcile of the autoscaler touches only the HorizontalPodAutoscaler. With
  autoscaling in the spec it targets the cluster's Deployment with the spec's bounds and CPU target
  (70 by default); without, it is removed unless a finalizer holds it.
\<close>

theorem autoscaler_follows_spec:
  assumes "api_server E view" "settled (view s)" "run_state (reconcileHPA E c) s = (Inr (), s')"
  shows "only_changes {hpaKey c} (view s) (view s') \<and> hpa_post c () (view s (hpaKey c)) (view s' (hpaKey c))"
  using wpvD [OF api_server.hpa_spec [OF assms(1,2)] refl assms(3)] by simp

definition scaledCluster :: DataPrepperCluster where
  "scaledCluster = demoCluster\<lparr>c_Spec := demoSpec\<lparr>cs_Autoscaling :=
     Some \<lparr>as_MinReplicas = Some 2, as_MaxReplicas = 8, as_TargetCPUUtilizationPercentage = None\<rparr>\<rparr>\<rparr>"

lemma demo_hpa_runs: "\<exists>s'. run_state (reconcileHPA (mem_env all_kinds) c) s = (Inr (), s')"
  using wpv_returns [OF mem.hpa_ok [of all_kinds]] by fastforce

text \<open>An autoscaler is created, and removed when autoscaling is taken out of the spec.\<close>

theorem autoscaler_follows_spec_witness:
  "\<exists>s1 h. run_state (reconcileHPA (mem_env all_kinds) scaledCluster) (mem_of []) = (Inr (), s1) \<and>
     mem_view s1 (hpaKey scaledCluster) = Some (HPAObj h) \<and> hs_MaxReplicas (hp_Spec h) = 8 \<and>
     hs_Metrics (hp_Spec h) = [ResourceMetric ''cpu'' ''Utilization'' (Some 70)]"
proof -
  obtain s1 where run: "run_state (reconcileHPA (mem_env all_kinds) scaledCluster) (mem_of []) = (Inr (), s1)"
    using demo_hpa_runs by blast
  have "settled (mem_view (mem_of []))" by (rule settled_mem_of) simp
  from autoscaler_follows_spec [OF mem.api_server_axioms this run] run show ?thesis
    by (auto simp: hpa_post_def autoscales_def scaledCluster_def)
qed


definition monitoredCluster :: DataPrepperCluster where
  "monitoredCluster = demoCluster\<lparr>c_Spec := demoSpec\<lparr>cs_Metrics := Some \<lparr>ms_ServiceMonitor = True\<rparr>\<rparr>\<rparr>"


section \<open>What the monitor selects\<close>

fun ufield :: "string \<Rightarrow> uvalue \<Rightarrow> uvalue option" where
  "ufield k (UMap m) = map_of m k"
| "ufield k u = None"

fun ustrings :: "(string \<times> uvalue) list \<Rightarrow> strmap" where
  "ustrings [] = fmempty"
| "ustrings ((k, UString x) # m) = fmupd k x (ustrings m)"
| "ustrings (_ # m) = ustrings m"

text \<open>The labels a ServiceMonitor spec requires of the Services it scrapes.\<close>

definition scraped_labels :: "uvalue \<Rightarrow> strmap" where
  "scraped_labels spec =
     (case Option.bind (ufield ''selector'' spec) (ufield ''matchLabels'') of
        Some (UMap m) \<Rightarrow> ustrings m | _ \<Rightarrow> fmempty)"

lemma labels_match_singleton: "labels_match (fmupd k x fmempty) m \<longleftrightarrow> fmlookup (entries m) k = Some x"
  by (auto simp: labels_match_def fmpred_iff)

text \<open>
  The monitor asks for Services labelled with the cluster's name, but the Services the operator creates
  carry no labels: the monitor scrapes none of them.
\<close>

theorem monitor_misses_services:
  "scraped_labels (serviceMonitorSpec c) = fmupd ''app'' (cname c) fmempty \<and>
   \<not> labels_match (scraped_labels (serviceMonitorSpec c)) (MetaLabels (sv_Meta (desiredService c))) \<and>
   \<not> labels_match (scraped_labels (serviceMonitorSpec c)) (MetaLabels (sv_Meta (desiredHeadless c)))"
  by (simp add: scraped_labels_def serviceMonitorSpec_def desiredService_def desiredHeadless_def object_meta_def
      labels_match_singleton)

text \<open>
  A headless Service that lost its setting \<^verbatim>\<open>clusterIP: None\<close> is not repaired: the reconcile reports
  success and leaves the address.
\<close>

theorem headless_address_not_repaired:
  assumes "api_server E view" "settled (view s)" "run_state (reconcileHeadlessService E c) s = (Inr (), s')"
    and "view s (headlessKey c) = Some (ServiceObj sv)" "sv_ClusterIP sv \<noteq> []"
  shows "\<exists>sv'. view s' (headlessKey c) = Some (ServiceObj sv') \<and> sv_ClusterIP sv' = sv_ClusterIP sv"
  using wpvD [OF api_server.headless_spec [OF assms(1,2)] refl assms(3)] assms(4,5)
  by (auto simp: headless_post_def keeps_address_def)

end
