(* ===== verification/Cluster_Status.thy ===== *)
theory Cluster_Status
  imports Cluster_Network "HOL-Library.Word"
begin

text \<open>
  internal/controller/datapreppercluster\_controller.go, fourth part: the status of a cluster, computed
  from its Deployment and its pipelines.
\<close>

section \<open>Definitions\<close>

definition int32 :: "int \<Rightarrow> int" where
  "int32 x = (x + 2 ^ 31) mod 2 ^ 32 - 2 ^ 31"

fun countPipelines :: "'s env \<Rightarrow> string \<Rightarrow> DataPrepperPipeline list \<Rightarrow> int \<Rightarrow> int" where
  "countPipelines E clusterName [] pipelineCount = pipelineCount"
| "countPipelines E clusterName (p # items) pipelineCount =
     (if ps_ClusterRef (p_Spec p) = clusterName \<and> IsZero E (DeletionTimestamp (p_Meta p))
      then countPipelines E clusterName items (int32 (pipelineCount + 1))
      else countPipelines E clusterName items pipelineCount)"

definition clusterReady :: "DataPrepperCluster \<Rightarrow> deployment \<Rightarrow> bool" where
  "clusterReady cluster deploy \<longleftrightarrow>
     cs_Replicas (c_Spec cluster) > 0 \<and> ds_ReadyReplicas (d_Status deploy) \<ge> cs_Replicas (c_Spec cluster)"

definition clusterDegraded :: "deployment \<Rightarrow> bool" where
  "clusterDegraded deploy \<longleftrightarrow>
     ds_UnavailableReplicas (d_Status deploy) > 0 \<and> ds_ReadyReplicas (d_Status deploy) = 0"

definition clusterProgressing :: "deployment \<Rightarrow> bool" where
  "clusterProgressing deploy \<longleftrightarrow>
     Generation (d_Meta deploy) \<noteq> ds_ObservedGeneration (d_Status deploy) \<or>
     (case d_Replicas deploy of None \<Rightarrow> False | Some n \<Rightarrow> ds_UpdatedReplicas (d_Status deploy) < n)"

definition clusterPhase :: "bool \<Rightarrow> bool \<Rightarrow> string" where
  "clusterPhase ready degraded =
     (if ready then DataPrepperClusterPhaseReady
      else if degraded then DataPrepperClusterPhaseDegraded
      else DataPrepperClusterPhasePending)"

definition setCond ::
  "'s env \<Rightarrow> condition list \<Rightarrow> int \<Rightarrow> string \<Rightarrow> bool \<Rightarrow> (bool \<Rightarrow> string) \<Rightarrow> (bool \<Rightarrow> string)
    \<Rightarrow> ('s, condition list) state" where
  "setCond E conds generation condType on reasons messages =
     SetStatusCondition E conds
       \<lparr>c_Type = condType, c_Status = (if on then ConditionTrue else ConditionFalse),
        c_Reason = reasons on, c_Message = messages on,
        c_ObservedGeneration = generation, c_LastTransitionTime = 0\<rparr>"

definition reconcileStatus :: "'s env \<Rightarrow> DataPrepperCluster \<Rightarrow> ('s, goerror + unit) state" where
  "reconcileStatus E cluster =
     bindE (getAs E asDeployment KDeployment (Namespace (c_Meta cluster), Name (c_Meta cluster))) (\<lambda>deploy.
     bindE (listAs E asPipeline KPipeline (Namespace (c_Meta cluster)) fmempty) (\<lambda>items. do {
       let pipelineCount = countPipelines E (Name (c_Meta cluster)) items 0;
       let ready = clusterReady cluster deploy;
       let degraded = clusterDegraded deploy;
       let progressing = clusterProgressing deploy;
       let phase = clusterPhase ready degraded;
       let generation = Generation (c_Meta cluster);
       let replicas = cs_Replicas (c_Spec cluster);
       let status = d_Status deploy;
       conditions \<leftarrow> setCond E (ct_Conditions (c_Stat cluster)) generation ''Ready'' ready
         (\<lambda>on. if on then ''DeploymentAvailable'' else ''DeploymentUnavailable'')
         (\<lambda>on. itoa (ds_ReadyReplicas status) @ ''/'' @ itoa replicas @ '' replicas ready'');
       conditions \<leftarrow> setCond E conditions generation ''Progressing'' progressing
         (\<lambda>on. if on then ''RolloutInProgress'' else ''RolloutComplete'')
         (\<lambda>on. if on
               then ''rollout updating: '' @ itoa (ds_UpdatedReplicas status) @ ''/'' @ itoa replicas @
                    '' replicas updated''
               else ''deployment matches desired generation'');
       conditions \<leftarrow> setCond E conditions generation ''Degraded'' degraded
         (\<lambda>on. if on then ''AllReplicasUnavailable'' else ''ReplicasAvailable'')
         (\<lambda>on. if on then itoa (ds_UnavailableReplicas status) @ '' unavailable replicas, none ready''
               else ''at least one replica ready'');
       let desired = \<lparr>ct_Phase = phase, ct_ReadyReplicas = ds_ReadyReplicas status,
                      ct_Pipelines = pipelineCount, ct_ObservedGeneration = generation,
                      ct_Conditions = conditions\<rparr>;
       if DeepEqual E (AnyClusterStatus (c_Stat cluster)) (AnyClusterStatus desired) then returnE ()
       else StatusUpdate E (ClusterObj (cluster\<lparr>c_Stat := desired\<rparr>)) }))"

section \<open>Counting the pipelines\<close>

text \<open>The model's \<open>int32\<close> is the two's complement reading of the low 32 bits.\<close>

lemma int32_sint: "int32 x = sint (word_of_int x :: 32 word)"
  by (simp add: int32_def sint_sbintrunc' signed_take_bit_eq_take_bit_shift take_bit_eq_mod)

lemma int32_range: "- (2 ^ 31) \<le> int32 x" "int32 x < 2 ^ 31"
  by (simp_all add: int32_def)

lemma int32_id: "- (2 ^ 31) \<le> x \<Longrightarrow> x < 2 ^ 31 \<Longrightarrow> int32 x = x"
  by (simp add: int32_def)

lemma int32_add: "int32 (int32 x + y) = int32 (x + y)"
proof -
  have "((x + 2 ^ 31) mod 2 ^ 32 - 2 ^ 31 + y + 2 ^ 31) mod 2 ^ 32 = ((x + 2 ^ 31) mod 2 ^ 32 + y) mod (2 ^ 32 :: int)"
    by (simp add: algebra_simps)
  also have "\<dots> = (x + y + 2 ^ 31) mod 2 ^ 32" by (simp add: mod_simps algebra_simps)
  finally show ?thesis by (simp add: int32_def)
qed

abbreviation counted :: "'s env \<Rightarrow> string \<Rightarrow> DataPrepperPipeline \<Rightarrow> bool" where
  "counted E n p \<equiv> ps_ClusterRef (p_Spec p) = n \<and> IsZero E (DeletionTimestamp (p_Meta p))"

lemma countPipelines_int32:
  "countPipelines E n items (int32 k) = int32 (k + int (length (filter (counted E n) items)))"
  by (induction items arbitrary: k) (simp_all add: int32_add add.assoc)

definition live_pipelines :: "'s env \<Rightarrow> store \<Rightarrow> DataPrepperCluster \<Rightarrow> DataPrepperPipeline set" where
  "live_pipelines E v c = {p \<in> stored_pipelines v (cns c). counted E (cname c) p}"

lemma countPipelines_card:
  assumes "set items = stored_pipelines v (cns c)" "distinct (pipeline_names items)"
  shows "countPipelines E (cname c) items 0 = int32 (int (card (live_pipelines E v c)))"
proof -
  have "distinct (filter (counted E (cname c)) items)"
    using assms(2) by (intro distinct_filter distinct_pipeline_names)
  moreover have "set (filter (counted E (cname c)) items) = live_pipelines E v c"
    using assms(1) by (auto simp: live_pipelines_def)
  ultimately have "length (filter (counted E (cname c)) items) = card (live_pipelines E v c)"
    by (metis distinct_card)
  with countPipelines_int32 [of E "cname c" items 0] show ?thesis by (simp add: int32_def)
qed

section \<open>The status\<close>

abbreviation clusterKey :: "DataPrepperCluster \<Rightarrow> object_key" where
  "clusterKey c \<equiv> (KCluster, cns c, cname c)"

text \<open>
  What the status of a cluster must say of its Deployment: the phase, the number of ready replicas, the
  number of live pipelines (as an int32), the generation, and the three conditions.
\<close>

definition condition :: "DataPrepperCluster \<Rightarrow> string \<Rightarrow> bool \<Rightarrow> string \<Rightarrow> string \<Rightarrow> condition" where
  "condition c t on reason message =
     \<lparr>c_Type = t, c_Status = (if on then ''True'' else ''False''), c_Reason = reason, c_Message = message,
      c_ObservedGeneration = Generation (c_Meta c), c_LastTransitionTime = 0\<rparr>"

definition readyCond :: "DataPrepperCluster \<Rightarrow> deployment \<Rightarrow> condition" where
  "readyCond c d =
     (let n = cs_Replicas (c_Spec c); up = ds_ReadyReplicas (d_Status d); on = (0 < n \<and> n \<le> up) in
      condition c ''Ready'' on (if on then ''DeploymentAvailable'' else ''DeploymentUnavailable'')
        (itoa up @ ''/'' @ itoa n @ '' replicas ready''))"

definition progressingCond :: "DataPrepperCluster \<Rightarrow> deployment \<Rightarrow> condition" where
  "progressingCond c d =
     (let rolling = (Generation (d_Meta d) \<noteq> ds_ObservedGeneration (d_Status d) \<or>
            (case d_Replicas d of None \<Rightarrow> False | Some k \<Rightarrow> ds_UpdatedReplicas (d_Status d) < k)) in
      condition c ''Progressing'' rolling (if rolling then ''RolloutInProgress'' else ''RolloutComplete'')
        (if rolling
         then ''rollout updating: '' @ itoa (ds_UpdatedReplicas (d_Status d)) @ ''/'' @ itoa (cs_Replicas (c_Spec c)) @
              '' replicas updated''
         else ''deployment matches desired generation''))"

definition degradedCond :: "DataPrepperCluster \<Rightarrow> deployment \<Rightarrow> condition" where
  "degradedCond c d =
     (let down = ds_UnavailableReplicas (d_Status d); on = (0 < down \<and> ds_ReadyReplicas (d_Status d) = 0) in
      condition c ''Degraded'' on (if on then ''AllReplicasUnavailable'' else ''ReplicasAvailable'')
        (if on then itoa down @ '' unavailable replicas, none ready'' else ''at least one replica ready''))"

definition describes :: "'s env \<Rightarrow> store \<Rightarrow> DataPrepperCluster \<Rightarrow> deployment \<Rightarrow> DataPrepperClusterStatus \<Rightarrow> bool" where
  "describes E v c d st \<longleftrightarrow>
     (let n = cs_Replicas (c_Spec c); up = ds_ReadyReplicas (d_Status d); down = ds_UnavailableReplicas (d_Status d) in
      ct_Phase st = (if 0 < n \<and> n \<le> up then ''Ready'' else if 0 < down \<and> up = 0 then ''Degraded'' else ''Pending'') \<and>
      ct_ReadyReplicas st = up \<and> ct_Pipelines st = int32 (int (card (live_pipelines E v c))) \<and>
      ct_ObservedGeneration st = Generation (c_Meta c)) \<and>
     holds_condition (ct_Conditions st) (readyCond c d) \<and> holds_condition (ct_Conditions st) (progressingCond c d) \<and>
     holds_condition (ct_Conditions st) (degradedCond c d)"

text \<open>The status computed from a Deployment and a list of pipelines, with the times at which the conditions are set.\<close>

definition statusFor ::
  "'s env \<Rightarrow> DataPrepperCluster \<Rightarrow> deployment \<Rightarrow> DataPrepperPipeline list \<Rightarrow> condition list \<Rightarrow> DataPrepperClusterStatus" where
  "statusFor E c d items cs =
     \<lparr>ct_Phase = clusterPhase (clusterReady c d) (clusterDegraded d), ct_ReadyReplicas = ds_ReadyReplicas (d_Status d),
      ct_Pipelines = countPipelines E (cname c) items 0, ct_ObservedGeneration = Generation (c_Meta c),
      ct_Conditions = cs\<rparr>"

definition conditionsAt :: "DataPrepperCluster \<Rightarrow> deployment \<Rightarrow> time \<Rightarrow> time \<Rightarrow> time \<Rightarrow> condition list" where
  "conditionsAt c d t1 t2 t3 =
     set_condition t3 (set_condition t2 (set_condition t1 (ct_Conditions (c_Stat c)) (readyCond c d))
       (progressingCond c d)) (degradedCond c d)"

lemma cond_types [simp]:
  "c_Type (readyCond c d) = ''Ready''" "c_Type (progressingCond c d) = ''Progressing''" "c_Type (degradedCond c d) = ''Degraded''"
  by (simp_all add: readyCond_def progressingCond_def degradedCond_def condition_def Let_def)

lemma conditionsAt_hold:
  "holds_condition (conditionsAt c d t1 t2 t3) (readyCond c d)"
  "holds_condition (conditionsAt c d t1 t2 t3) (progressingCond c d)"
  "holds_condition (conditionsAt c d t1 t2 t3) (degradedCond c d)"
  unfolding conditionsAt_def by (intro holds_condition_other holds_set_condition; simp)+

lemma statusFor_describes:
  assumes "set items = stored_pipelines v (cns c)" "distinct (pipeline_names items)"
  shows "describes E v c d (statusFor E c d items (conditionsAt c d t1 t2 t3))"
  unfolding describes_def statusFor_def Let_def
  by (simp add: conditionsAt_hold countPipelines_card [OF assms] clusterPhase_def clusterReady_def clusterDegraded_def
      DataPrepperClusterPhasePending_def DataPrepperClusterPhaseReady_def DataPrepperClusterPhaseDegraded_def)

text \<open>The reconcile of the status reads the Deployment and the pipelines and writes that status when it differs.\<close>

lemma reconcileStatus_parts:
  "reconcileStatus E c =
     bindE (getAs E asDeployment KDeployment (cns c, cname c)) (\<lambda>d.
     bindE (listAs E asPipeline KPipeline (cns c) fmempty) (\<lambda>items. do {
       cs \<leftarrow> SetStatusCondition E (ct_Conditions (c_Stat c)) (readyCond c d);
       cs \<leftarrow> SetStatusCondition E cs (progressingCond c d);
       cs \<leftarrow> SetStatusCondition E cs (degradedCond c d);
       let desired = statusFor E c d items cs;
       if DeepEqual E (AnyClusterStatus (c_Stat c)) (AnyClusterStatus desired) then returnE ()
       else StatusUpdate E (ClusterObj (c\<lparr>c_Stat := desired\<rparr>)) }))"
  unfolding reconcileStatus_def setCond_def readyCond_def progressingCond_def degradedCond_def condition_def statusFor_def
    clusterReady_def clusterDegraded_def clusterProgressing_def Let_def ConditionTrue_def ConditionFalse_def ..


definition status_reported :: "'s env \<Rightarrow> store \<Rightarrow> DataPrepperCluster \<Rightarrow> store \<Rightarrow> bool" where
  "status_reported E v c w \<longleftrightarrow>
     (\<exists>d c'. v (deploymentKey c) = Some (DeploymentObj d) \<and> w (clusterKey c) = Some (ClusterObj c') \<and>
        c_Spec c' = c_Spec c \<and> describes E v c d (c_Stat c'))"

lemma status_stored:
  assumes "status_update_effect (ClusterObj (c\<lparr>c_Stat := st\<rparr>)) v w" "v (clusterKey c) = Some (ClusterObj c)"
  shows "\<exists>c'. w (clusterKey c) = Some (ClusterObj c') \<and> c_Spec c' = c_Spec c \<and> c_Stat c' = st"
  using assms by (auto simp: status_update_effect_def stored_as_def status_of_def)

context api_server
begin

lemma wpv_status:
  assumes err: "\<And>e. Q (Inl e) v"
    and ok: "\<And>d st. v (deploymentKey c) = Some (DeploymentObj d) \<Longrightarrow> describes E v c d st \<Longrightarrow>
      wpv view (if c_Stat c = st then returnE () else StatusUpdate E (ClusterObj (c\<lparr>c_Stat := st\<rparr>))) Q v"
  shows "wpv view (reconcileStatus E c) Q v"
proof -
  have "wpv view (if c_Stat c = statusFor E c d items (conditionsAt c d t1 t2 t3) then returnE ()
      else StatusUpdate E (ClusterObj (c\<lparr>c_Stat := statusFor E c d items (conditionsAt c d t1 t2 t3)\<rparr>))) Q v"
    if "v (deploymentKey c) = Some (DeploymentObj d)" "set items = stored_pipelines v (cns c)" "distinct (pipeline_names items)"
    for d items t1 t2 t3
    by (rule ok [OF that(1) statusFor_describes [OF that(2,3)]])
  note final = this [unfolded conditionsAt_def]
  show ?thesis
    unfolding reconcileStatus_parts Let_def DeepEqual semantic_equal.simps any.inject
  proof (intro wpv_bindE wpv_getDeployment, goal_cases)
    case (1 ob d)
    then show ?case
      by simp (intro wpv_bindE wpv_listPipelines; simp add: err; intro wpv_bind wpv_Condition final; simp)
  qed (simp add: err)
qed

lemma status_spec:
  assumes "settled v" "v (clusterKey c) = Some (ClusterObj c)"
  shows "wpv view (reconcileStatus E c)
    (\<lambda>r w. only_changes {clusterKey c} v w \<and> settled w \<and> (r = Inr () \<longrightarrow> status_reported E v c w)) v"
  by (rule wpv_status)
    (use assms in \<open>auto intro!: wpv_rules wpv_StatusUpdate simp: status_reported_def
      dest: writes_only writes_settled dest!: status_stored [where c = c and v = v, OF _ assms(2)]\<close>)

end

text \<open>Against a server that answers, the status is written whenever Deployment and cluster are there.\<close>

context available_server
begin

lemma status_ok:
  assumes "installed KDeployment" "installed KPipeline" "installed KCluster"
    and "v (deploymentKey c) = Some (DeploymentObj d)" "v (clusterKey c) \<noteq> None"
  shows "wpv view (reconcileStatus E c) (\<lambda>r w. r = Inr ()) v"
  unfolding reconcileStatus_parts Let_def
proof (intro wpv_bindE up_getDeployment assms(1), goal_cases)
  case (1 ob d)
  then show ?case using assms
    by simp (intro wpv_bindE up_listPipelines; simp; intro wpv_bind wpv_Condition wpv_if wpv_returnE up_StatusUpdate; simp)
qed (simp add: assms(4))

end

section \<open>Properties\<close>

text \<open>
  C12: a successful reconcile of the status changes only the cluster's status, which then says the
  truth about the Deployment and the pipelines read: the phase (Ready when enough replicas are ready,
  else Degraded when replicas are unavailable and none is ready, else Pending), the counts, the
  generation and the three conditions with their reasons and messages.
\<close>

theorem cluster_status_truthful:
  assumes "api_server E view" "settled (view s)" "view s (clusterKey c) = Some (ClusterObj c)"
    and "run_state (reconcileStatus E c) s = (Inr (), s')"
  shows "only_changes {clusterKey c} (view s) (view s') \<and> status_reported E (view s) c (view s')"
  using wpvD [OF api_server.status_spec [of E view "view s" c, OF assms(1-3)] refl assms(4)] by simp

definition statusDemo :: mem where
  "statusDemo = mem_of [ClusterObj demoCluster, DeploymentObj demoDeployment, PipelineObj (demoPipeline ''one'' ''logs'')]"

lemma statusDemo_objects:
  "mem_view statusDemo (clusterKey demoCluster) = Some (ClusterObj demoCluster)"
  "mem_view statusDemo (deploymentKey demoCluster) = Some (DeploymentObj demoDeployment)"
  unfolding statusDemo_def by (simp_all add: demo_defs mem_view_def)

lemma statusDemo_settled: "settled (mem_view statusDemo)"
  unfolding statusDemo_def by (rule settled_mem_of) (simp add: demo_defs)

theorem cluster_status_truthful_witness:
  "\<exists>s' c'. run_state (reconcileStatus (mem_env all_kinds) demoCluster) statusDemo = (Inr (), s') \<and>
     mem_view s' (clusterKey demoCluster) = Some (ClusterObj c') \<and> ct_Phase (c_Stat c') = ''Pending'' \<and>
     ct_ReadyReplicas (c_Stat c') = 2"
proof -
  let ?run = "run_state (reconcileStatus (mem_env all_kinds) demoCluster) statusDemo"
  obtain r s' where run: "?run = (r, s')" by (cases ?run)
  have "r = Inr ()"
    by (rule wpvD [OF mem.status_ok refl run]) (simp_all add: statusDemo_objects)
  with run have ok: "?run = (Inr (), s')" by simp
  from cluster_status_truthful [OF mem.api_server_axioms statusDemo_settled statusDemo_objects(1) ok]
  obtain c' where c': "mem_view s' (clusterKey demoCluster) = Some (ClusterObj c')"
    "describes (mem_env all_kinds) (mem_view statusDemo) demoCluster demoDeployment (c_Stat c')"
    by (auto simp: status_reported_def statusDemo_objects(2))
  from c'(2) have "ct_Phase (c_Stat c') = ''Pending''" "ct_ReadyReplicas (c_Stat c') = 2"
    by (simp_all add: describes_def Let_def demoCluster_def demoSpec_def demoDeployment_def)
  with ok c'(1) show ?thesis by blast
qed

text \<open>
  C31: the number of pipelines in the status is an int32: it never leaves that range, it is the number
  of live pipelines of the cluster in the list below two to the power 31, and wraps around there.
\<close>

theorem pipeline_count_bounds:
  "let n = int (length (filter (counted E clusterName) items)); k = countPipelines E clusterName items 0 in
   - (2 ^ 31) \<le> k \<and> k < 2 ^ 31 \<and> (n < 2 ^ 31 \<longrightarrow> k = n) \<and> (n = 2 ^ 31 \<longrightarrow> k = - (2 ^ 31))"
proof -
  have "countPipelines E clusterName items 0 = int32 (int (length (filter (counted E clusterName) items)))"
    using countPipelines_int32 [of E clusterName items 0] by (simp add: int32_def)
  then show ?thesis unfolding Let_def using int32_range int32_id by (simp add: int32_def)
qed

theorem pipeline_count_bounds_witness:
  "countPipelines (mem_env all_kinds) ''prepper'' [demoPipeline ''one'' ''logs'', demoPipeline ''two'' ''traces''] 0 = 2"
  using pipeline_count_bounds [where E = "mem_env all_kinds" and clusterName = "''prepper''" 
      and items = "[demoPipeline ''one'' ''logs'', demoPipeline ''two'' ''traces'']"]
  by (simp add: demo_defs Let_def)

text \<open>
  Whatever the Deployment describes, the conditions Ready and Degraded are never both true, and the
  phase is Ready or Degraded exactly when the condition of that name is.
\<close>

theorem phase_matches_conditions:
  "\<not> (clusterReady c d \<and> clusterDegraded d) \<and>
   (clusterPhase (clusterReady c d) (clusterDegraded d) = DataPrepperClusterPhaseReady \<longleftrightarrow> c_Status (readyCond c d) = ConditionTrue) \<and>
   (clusterPhase (clusterReady c d) (clusterDegraded d) = DataPrepperClusterPhaseDegraded \<longleftrightarrow> c_Status (degradedCond c d) = ConditionTrue)"
  by (auto simp: clusterReady_def clusterDegraded_def clusterPhase_def readyCond_def degradedCond_def condition_def Let_def
      DataPrepperClusterPhasePending_def DataPrepperClusterPhaseReady_def DataPrepperClusterPhaseDegraded_def
      ConditionTrue_def ConditionFalse_def)

end
