(* ===== verification/Cluster_Webhook.thy ===== *)
theory Cluster_Webhook
  imports Cluster_Config
begin

text \<open>
  internal/webhook/v1alpha1/datapreppercluster\_webhook.go: the validating webhook for
  DataPrepperCluster.
\<close>

section \<open>Definitions\<close>

definition DataPrepperClusterCustomValidator_validate ::
  "'s env \<Rightarrow> DataPrepperCluster \<Rightarrow> ('s, goerror + unit) state" where
  "DataPrepperClusterCustomValidator_validate E c =
     (if cs_Image (c_Spec c) = [] \<and> cs_ClassRef (c_Spec c) = []
      then throwE SpecImageOrClassRefMustBeSet
      else
        bindE
          (if cs_ClassRef (c_Spec c) \<noteq> [] then do {
             r \<leftarrow> getAs E asClass KClass ([], cs_ClassRef (c_Spec c));
             (case r of
                Inl err \<Rightarrow>
                  if IsNotFound E err then throwE (ClassDoesNotExist (cs_ClassRef (c_Spec c)))
                  else throwE (LookingUpClass (cs_ClassRef (c_Spec c)) err)
              | Inr class \<Rightarrow> returnE ()) }
           else returnE ())
          (\<lambda>_. case cs_Autoscaling (c_Spec c) of
                 Some as \<Rightarrow>
                   if as_MaxReplicas as < cs_Replicas (c_Spec c)
                   then throwE (MaxReplicasBelowReplicas (as_MaxReplicas as) (cs_Replicas (c_Spec c)))
                   else returnE ()
               | None \<Rightarrow> returnE ()))"

definition DataPrepperClusterCustomValidator_ValidateCreate ::
  "'s env \<Rightarrow> DataPrepperCluster \<Rightarrow> ('s, string list \<times> (goerror + unit)) state" where
  "DataPrepperClusterCustomValidator_ValidateCreate E obj =
     do { err \<leftarrow> DataPrepperClusterCustomValidator_validate E obj; State_Monad.return ([], err) }"

definition DataPrepperClusterCustomValidator_ValidateUpdate ::
  "'s env \<Rightarrow> DataPrepperCluster \<Rightarrow> DataPrepperCluster \<Rightarrow> ('s, string list \<times> (goerror + unit)) state" where
  "DataPrepperClusterCustomValidator_ValidateUpdate E oldObj newObj =
     do { err \<leftarrow> DataPrepperClusterCustomValidator_validate E newObj; State_Monad.return ([], err) }"

definition DataPrepperClusterCustomValidator_ValidateDelete ::
  "'s env \<Rightarrow> DataPrepperCluster \<Rightarrow> ('s, string list \<times> (goerror + unit)) state" where
  "DataPrepperClusterCustomValidator_ValidateDelete E obj = State_Monad.return ([], Inr ())"

section \<open>What an admitted cluster satisfies\<close>

definition valid_cluster :: "store \<Rightarrow> DataPrepperCluster \<Rightarrow> bool" where
  "valid_cluster v c \<longleftrightarrow>
     (cs_Image (c_Spec c) \<noteq> [] \<or> cs_ClassRef (c_Spec c) \<noteq> []) \<and>
     (cs_ClassRef (c_Spec c) \<noteq> [] \<longrightarrow> class_of v c \<noteq> None) \<and>
     (case cs_Autoscaling (c_Spec c) of None \<Rightarrow> True | Some as \<Rightarrow> cs_Replicas (c_Spec c) \<le> as_MaxReplicas as)"

context available_server
begin

lemma cluster_validate_up:
  assumes "installed KClass"
  shows "wpv view (DataPrepperClusterCustomValidator_validate E c)
           (\<lambda>r w. w = v \<and> (r = Inr () \<longleftrightarrow> valid_cluster v c)) v"
  unfolding DataPrepperClusterCustomValidator_validate_def
  by (intro wpv_if wpv_bindE wpv_bind up_getClass assms wpv_throwE wpv_returnE)
    (auto intro!: wpv_rules simp: valid_cluster_def class_of_def split: option.splits)

lemma cluster_create_up:
  assumes "installed KClass"
  shows "wpv view (DataPrepperClusterCustomValidator_ValidateCreate E c)
           (\<lambda>wr w. w = v \<and> fst wr = [] \<and> (snd wr = Inr () \<longleftrightarrow> valid_cluster v c)) v"
  unfolding DataPrepperClusterCustomValidator_ValidateCreate_def
  by (rule wpv_bind, rule wpv_mono [OF cluster_validate_up [OF assms]]) (auto intro: wpv_return)

end

text \<open>
  C22: against a server that answers, the create webhook admits a cluster exactly when it names an image
  or a class, the class it names exists, and an autoscaling maximum is not below the replicas.
\<close>

theorem cluster_webhook_admits_iff:
  assumes "available_server E view installed" "installed KClass"
    and "run_state (DataPrepperClusterCustomValidator_ValidateCreate E c) s = ((warnings, r), s')"
  shows "view s' = view s \<and> warnings = [] \<and> (r = Inr () \<longleftrightarrow> valid_cluster (view s) c)"
  using wpvD [OF available_server.cluster_create_up [OF assms(1,2)] refl assms(3)] by simp

theorem cluster_webhook_admits_iff_witness:
  "(\<exists>s'. run_state (DataPrepperClusterCustomValidator_ValidateCreate (mem_env all_kinds) demoCluster)
          (mem_of [ClassObj demoClass]) = (([], Inr ()), s')) \<and>
   (\<exists>e s'. run_state (DataPrepperClusterCustomValidator_ValidateCreate (mem_env all_kinds) demoCluster)
          (mem_of []) = (([], Inl e), s'))"
proof -
  let ?run = "\<lambda>obs. run_state (DataPrepperClusterCustomValidator_ValidateCreate (mem_env all_kinds) demoCluster) (mem_of obs)"
  obtain w r s' where ok: "?run [ClassObj demoClass] = ((w, r), s')" by (metis prod.exhaust)
  obtain w2 r2 s2 where bad: "?run [] = ((w2, r2), s2)" by (metis prod.exhaust)
  have "valid_cluster (mem_view (mem_of [ClassObj demoClass])) demoCluster" "\<not> valid_cluster (mem_view (mem_of [])) demoCluster"
    by (simp_all add: valid_cluster_def class_of_def mem_view_def demo_defs)
  then have "w = [] \<and> r = Inr ()" "w2 = [] \<and> r2 \<noteq> Inr ()"
    using cluster_webhook_admits_iff [OF mem.available_server_axioms _ ok]
      cluster_webhook_admits_iff [OF mem.available_server_axioms _ bad] by auto
  then show ?thesis using ok bad by (cases r2) auto
qed

text \<open>
  A cluster the webhook admits resolves: while its class is unchanged and has an image, which the
  class's schema requires, computing the effective configuration cannot fail.
\<close>

theorem admitted_cluster_resolves:
  assumes "available_server E view installed" "installed KClass"
    and "run_state (DataPrepperClusterCustomValidator_ValidateCreate E c) s = ((warnings, Inr ()), s1)"
    and "class_of (view s2) c = class_of (view s) c"
    and "\<forall>k. class_of (view s) c = Some k \<longrightarrow> ks_Image k \<noteq> []"
    and "run_state (resolveConfig E c) s2 = (r, s3)"
  shows "\<exists>cfg. r = Inr cfg \<and> rc_Image cfg \<noteq> []"
proof -
  have "valid_cluster (view s) c"
    using wpvD [OF available_server.cluster_create_up [OF assms(1,2)] refl assms(3)] by simp
  moreover have "resolves E (view s2) c r"
    using wpvD [OF available_server.resolve_up [OF assms(1,2)] refl assms(6)] by simp
  ultimately show ?thesis
    using assms(4,5) by (auto simp: valid_cluster_def resolves_def standalone_def inherits_def split: if_splits option.splits)
qed

theorem admitted_cluster_resolves_witness:
  "\<exists>cfg. fst (run_state (resolveConfig (mem_env all_kinds) demoCluster) (mem_of [ClassObj demoClass])) = Inr cfg \<and>
         rc_Image cfg \<noteq> []"
proof -
  let ?s = "mem_of [ClassObj demoClass]" and ?E = "mem_env all_kinds"
  obtain w r s1 where adm: "run_state (DataPrepperClusterCustomValidator_ValidateCreate ?E demoCluster) ?s = ((w, r), s1)"
    by (metis prod.exhaust)
  have "class_of (mem_view ?s) demoCluster = Some (k_Spec demoClass)"
    by (simp add: class_of_def mem_view_def demo_defs)
  moreover from this have "r = Inr ()"
    using mem.cluster_create_up [THEN wpvD, OF _ refl adm]
    by (simp add: valid_cluster_def demoCluster_def demoSpec_def)
  ultimately show ?thesis
    using admitted_cluster_resolves [OF mem.available_server_axioms _ adm [unfolded \<open>r = Inr ()\<close>] refl _ surjective_pairing]
    by (auto simp: demoClass_def)
qed

end
