(* ===== verification/Cluster_Controller.thy ===== *)
theory Cluster_Controller
  imports Cluster_Status Cluster_Webhook
begin

text \<open>
  internal/controller/datapreppercluster\_controller.go, last part: the reconcile loop over all
  sub-reconcilers.
\<close>

section \<open>Definitions\<close>

definition DataPrepperClusterReconciler_Reconcile ::
  "'s env \<Rightarrow> namespaced_name \<Rightarrow> ('s, goerror + unit) state" where
  "DataPrepperClusterReconciler_Reconcile E req = do {
     r \<leftarrow> getAs E asCluster KCluster req;
     (case r of
        Inl err \<Rightarrow> if IsNotFound E err then returnE () else throwE err
      | Inr cluster \<Rightarrow>
          bindE (resolveConfig E cluster) (\<lambda>cfg.
          bindE (reconcileConfigMap E cluster) (\<lambda>_.
          bindE (reconcilePeerConfig E cluster) (\<lambda>peerHash.
          bindE (reconcileDeployment E cluster cfg peerHash) (\<lambda>_.
          bindE (reconcileService E cluster) (\<lambda>_.
          bindE (reconcileHeadlessService E cluster) (\<lambda>_.
          bindE (reconcileServiceMonitor E cluster) (\<lambda>_.
          bindE (reconcileHPA E cluster) (\<lambda>_.
          bindE (reconcileStatus E cluster) (\<lambda>_. returnE ())))))))))) }"


section \<open>The objects of a cluster\<close>

text \<open>A cluster's reconcile owns seven objects beside the status of the cluster itself.\<close>

definition owned_keys :: "DataPrepperCluster \<Rightarrow> object_key set" where
  "owned_keys c = {pipelinesKey c, peerKey c, deploymentKey c, serviceKey c, headlessKey c, monitorKey c, hpaKey c}"

lemma owned_keys_distinct:
  "card (owned_keys c) = 7" "clusterKey c \<notin> owned_keys c"
  by (simp_all add: owned_keys_def peerConfigMapName_def headlessServiceName_def)

text \<open>The postconditions of the seven sub-reconcilers, from the store before to the store after.\<close>

definition established :: "DataPrepperCluster \<Rightarrow> resolvedConfig \<Rightarrow> string \<Rightarrow> store \<Rightarrow> store \<Rightarrow> bool" where
  "established c cfg h v w \<longleftrightarrow>
     pipelines_config_post c () (v (pipelinesKey c)) (w (pipelinesKey c)) \<and>
     peer_config_post c h (v (peerKey c)) (w (peerKey c)) \<and>
     deployment_post cfg h c () (v (deploymentKey c)) (w (deploymentKey c)) \<and>
     service_post c () (v (serviceKey c)) (w (serviceKey c)) \<and>
     headless_post c () (v (headlessKey c)) (w (headlessKey c)) \<and>
     monitor_outcome c () (v (monitorKey c)) (w (monitorKey c)) \<and>
     hpa_post c () (v (hpaKey c)) (w (hpaKey c))"

text \<open>The effective configuration of a cluster, when there is one.\<close>

definition config_for :: "store \<Rightarrow> DataPrepperCluster \<Rightarrow> resolvedConfig \<Rightarrow> bool" where
  "config_for v c cfg \<longleftrightarrow>
     rc_Image cfg \<noteq> [] \<and>
     (if cs_ClassRef (c_Spec c) = [] then standalone c cfg else \<exists>k. class_of v c = Some k \<and> inherits c k cfg)"

lemma key_names [simp]:
  "peerConfigMapName c \<noteq> cname c @ ''-pipelines''" "cname c @ ''-pipelines'' \<noteq> peerConfigMapName c"
  "headlessServiceName c \<noteq> cname c" "cname c \<noteq> headlessServiceName c"
  by (auto simp: peerConfigMapName_def headlessServiceName_def)

text \<open>Steps that each change their own object only compose.\<close>

lemma established_chain:
  assumes w1: "only_changes {pipelinesKey c} v w1" "pipelines_config_post c () (v (pipelinesKey c)) (w1 (pipelinesKey c))"
    and w2: "only_changes {peerKey c} w1 w2" "peer_config_post c h (w1 (peerKey c)) (w2 (peerKey c))"
    and w3: "only_changes {deploymentKey c} w2 w3" "deployment_post cfg h c () (w2 (deploymentKey c)) (w3 (deploymentKey c))"
    and w4: "only_changes {serviceKey c} w3 w4" "service_post c () (w3 (serviceKey c)) (w4 (serviceKey c))"
    and w5: "only_changes {headlessKey c} w4 w5" "headless_post c () (w4 (headlessKey c)) (w5 (headlessKey c))"
    and w6: "only_changes {monitorKey c} w5 w6" "monitor_outcome c () (w5 (monitorKey c)) (w6 (monitorKey c))"
    and w7: "only_changes {hpaKey c} w6 w7" "hpa_post c () (w6 (hpaKey c)) (w7 (hpaKey c))"
  shows "established c cfg h v w7"
proof -
  note D = w1(1) [THEN only_changesD] w2(1) [THEN only_changesD] w3(1) [THEN only_changesD] w4(1) [THEN only_changesD]
    w5(1) [THEN only_changesD] w6(1) [THEN only_changesD] w7(1) [THEN only_changesD]
  show ?thesis using w1(2) w2(2) w3(2) w4(2) w5(2) w6(2) w7(2) by (simp add: established_def D)
qed

lemma owned_mem [simp]:
  "pipelinesKey c \<in> owned_keys c" "peerKey c \<in> owned_keys c" "deploymentKey c \<in> owned_keys c" "serviceKey c \<in> owned_keys c"
  "headlessKey c \<in> owned_keys c" "monitorKey c \<in> owned_keys c" "hpaKey c \<in> owned_keys c"
  by (simp_all add: owned_keys_def)

context api_server
begin

lemma resolve_spec: "wpv view (resolveConfig E c) (\<lambda>r w. w = v \<and> (\<forall>cfg. r = Inr cfg \<longrightarrow> config_for v c cfg)) v"
  unfolding resolveConfig_def Let_def
  by (intro wpv_bindE wpv_if wpv_bind wpv_getClass wpv_returnE)
    (auto intro!: wpv_rules simp: config_for_def class_of_def standalone_def inherits_def overlayClass_def)

text \<open>The seven sub-reconcilers in the order of the loop, before anything that follows them.\<close>

lemma wpv_children:
  assumes v: "settled v"
    and err: "\<And>e w. only_changes (owned_keys c) v w \<Longrightarrow> settled w \<Longrightarrow> Q (Inl e) w"
    and ok: "\<And>h w. only_changes (owned_keys c) v w \<Longrightarrow> settled w \<Longrightarrow> established c cfg h v w \<Longrightarrow> wpv view m Q w"
  shows "wpv view
      (bindE (reconcileConfigMap E c) (\<lambda>_.
       bindE (reconcilePeerConfig E c) (\<lambda>peerHash.
       bindE (reconcileDeployment E c cfg peerHash) (\<lambda>_.
       bindE (reconcileService E c) (\<lambda>_.
       bindE (reconcileHeadlessService E c) (\<lambda>_.
       bindE (reconcileServiceMonitor E c) (\<lambda>_.
       bindE (reconcileHPA E c) (\<lambda>_. m)))))))) Q v"
proof -
  note steps = pipelines_config.wpv_step_in [OF v only_changes_refl owned_mem(1)]
    peer_config.wpv_step_in [where v = v and c = c, OF _ _ owned_mem(2)] deployment.wpv_step_in [where v = v and c = c, OF _ _ owned_mem(3)]
    service.wpv_step_in [where v = v and c = c, OF _ _ owned_mem(4)] headless.wpv_step_in [where v = v and c = c, OF _ _ owned_mem(5)]
    monitor.wpv_step_in [where v = v and c = c, OF _ _ owned_mem(6)] hpa.wpv_step_in [where v = v and c = c, OF _ _ owned_mem(7)]
  show ?thesis
    by (rule steps, erule (1) err, rule steps, assumption+, erule (1) err, rule steps, assumption+, erule (1) err,
        rule steps, assumption+, erule (1) err, rule steps, assumption+, erule (1) err, rule steps, assumption+, erule (1) err,
        rule steps, assumption+, erule (1) err, erule (1) ok) (rule established_chain; simp)
qed

end

section \<open>The whole loop\<close>

lemma established_status:
  assumes "established c cfg h v u" "only_changes {clusterKey c} u w"
  shows "established c cfg h v w"
  using assms(1) assms(2) [THEN only_changesD] by (simp add: established_def)

lemma stored_pipelines_cong: "(\<And>n. w (KPipeline, ns, n) = v (KPipeline, ns, n)) \<Longrightarrow> stored_pipelines w ns = stored_pipelines v ns"
  by (simp add: stored_pipelines_def)

lemma status_reported_after:
  assumes "status_reported E u c w" "only_changes {clusterKey c} u w"
  shows "status_reported E w c w"
proof -
  have "w (deploymentKey c) = u (deploymentKey c)" by (rule only_changesD [OF assms(2)]) simp
  moreover have "stored_pipelines w (cns c) = stored_pipelines u (cns c)"
    by (rule stored_pipelines_cong, rule only_changesD [OF assms(2)]) simp
  ultimately show ?thesis using assms(1) by (simp add: status_reported_def describes_def live_pipelines_def)
qed

definition reconciled :: "'s env \<Rightarrow> DataPrepperCluster \<Rightarrow> store \<Rightarrow> store \<Rightarrow> bool" where
  "reconciled E c v w \<longleftrightarrow>
     (\<exists>cfg h. config_for v c cfg \<and> established c cfg h v w) \<and> status_reported E w c w"

lemma reconciledI:
  "config_for v c cfg \<Longrightarrow> established c cfg h v u \<Longrightarrow> only_changes {clusterKey c} u w \<Longrightarrow> status_reported E u c w \<Longrightarrow>
     reconciled E c v w"
  unfolding reconciled_def by (blast intro: established_status status_reported_after)

abbreviation touched :: "DataPrepperCluster \<Rightarrow> object_key set" where
  "touched c \<equiv> insert (clusterKey c) (owned_keys c)"

lemma touched_mono:
  "only_changes (owned_keys c) v u \<Longrightarrow> only_changes {clusterKey c} u w \<Longrightarrow> only_changes (touched c) v w"
  by (drule (1) only_changes_trans) (auto elim: only_changes_mono)

context api_server
begin

lemma cluster_reconcile_absent:
  assumes "v (KCluster, req) = None"
  shows "wpv view (DataPrepperClusterReconciler_Reconcile E req) (\<lambda>r w. w = v) v"
  unfolding DataPrepperClusterReconciler_Reconcile_def
  by (intro wpv_bind wpv_getCluster) (auto simp: assms intro!: wpv_rules)

lemma cluster_reconcile_spec:
  assumes v: "settled v" and c: "v (KCluster, req) = Some (ClusterObj c)"
  shows "wpv view (DataPrepperClusterReconciler_Reconcile E req)
    (\<lambda>r w. only_changes (touched c) v w \<and> settled w \<and> (r = Inr () \<longrightarrow> reconciled E c v w)) v"
  unfolding DataPrepperClusterReconciler_Reconcile_def
proof (intro wpv_bind wpv_getCluster, goal_cases)
  case (1 ob x)
  then have x: "x = c" "clusterKey c = (KCluster, req)" using c by auto
  have "wpv view (bindE (reconcileStatus E c) (\<lambda>_. returnE ()))
      (\<lambda>r w. only_changes (touched c) v w \<and> settled w \<and> (r = Inr () \<longrightarrow> reconciled E c v w)) u"
    if "only_changes (owned_keys c) v u" "settled u" "config_for v c cfg" "established c cfg h v u" for u cfg h
  proof -
    have "u (clusterKey c) = Some (ClusterObj c)"
      using only_changesD [OF that(1) owned_keys_distinct(2)] x c by simp
    from status_spec [of u c, OF that(2) this] show ?thesis
      by (intro wpv_bindE, elim wpv_mono)
        (use that in \<open>auto split: sum.splits intro!: wpv_returnE dest: touched_mono reconciledI\<close>)
  qed
  then show ?case unfolding x
    by simp (intro wpv_bindE wpv_mono [OF resolve_spec], auto split: sum.splits simp: v intro!: wpv_children intro: only_changes_mono)
qed (use c in \<open>auto intro!: wpv_rules simp: v\<close>)

end

text \<open>Against a server that answers, the loop fails only for the configuration or a Deployment without containers.\<close>

definition workload_kinds :: "kind set" where
  "workload_kinds = {KCluster, KClass, KPipeline, KConfigMap, KDeployment, KService, KHPA}"

lemma resolves_config_for:
  "resolves E v c r \<Longrightarrow> (case r of Inl e \<Rightarrow> \<not> (\<exists>cfg. config_for v c cfg) | Inr cfg \<Rightarrow> config_for v c cfg)"
  by (auto simp: resolves_def config_for_def standalone_def inherits_def split: if_splits option.splits)

context available_server
begin

lemma children_up:
  assumes kinds: "\<forall>kd\<in>workload_kinds. installed kd" and v: "settled v" and c: "v (clusterKey c) \<noteq> None"
  shows "wpv view
      (bindE (reconcileConfigMap E c) (\<lambda>_.
       bindE (reconcilePeerConfig E c) (\<lambda>peerHash.
       bindE (reconcileDeployment E c cfg peerHash) (\<lambda>_.
       bindE (reconcileService E c) (\<lambda>_.
       bindE (reconcileHeadlessService E c) (\<lambda>_.
       bindE (reconcileServiceMonitor E c) (\<lambda>_.
       bindE (reconcileHPA E c) (\<lambda>_. reconcileStatus E c)))))))) (\<lambda>r w. r = Inr () \<longleftrightarrow> has_container (v (deploymentKey c))) v"
proof (rule pipelines_config_up.wpv_step_up [OF v], goal_cases)
  case (2 x w1)
  show ?case
  proof (rule peer_config_up.wpv_step_up [OF 2(2)], goal_cases)
    case (2 h w2)
    have same: "w2 (deploymentKey c) = v (deploymentKey c)" "w2 (clusterKey c) = v (clusterKey c)"
      using \<open>only_changes {pipelinesKey c} v w1\<close> [THEN only_changesD] 2(1) [THEN only_changesD] by simp_all
    show ?case
    proof (cases "has_container (v (deploymentKey c))")
      case False
      then show ?thesis using kinds same
        by (intro wpv_bindE wpv_mono [OF deployment_result]) (auto simp: workload_kinds_def split: sum.splits)
    next
      case True
      show ?thesis
      proof (rule deployment_up.wpv_step_up [OF 2(2)], goal_cases)
        case (2 u w3)
        note w3 = 2
        have last: "wpv view (reconcileStatus E c) (\<lambda>r w. r = Inr () \<longleftrightarrow> has_container (v (deploymentKey c))) w7"
          if "w7 (deploymentKey c) = w3 (deploymentKey c)" "w7 (clusterKey c) = w3 (clusterKey c)" for w7
        proof -
          from w3(3) obtain d where "w3 (deploymentKey c) = Some (DeploymentObj d)" by (auto simp: deployment_post_def)
          moreover have "w3 (clusterKey c) \<noteq> None" using w3(1) [THEN only_changesD] same c by simp
          ultimately show ?thesis using that kinds True
            by (intro wpv_mono [OF status_ok]) (auto simp: workload_kinds_def)
        qed
        show ?case using kinds
          by (intro service_up.wpv_step_up headless_up.wpv_step_up monitor_up.wpv_step_up hpa_up.wpv_step_up w3(2) last)
            (auto simp: workload_kinds_def only_changesD)
      qed (use kinds True same in \<open>simp add: workload_kinds_def\<close>)
    qed
  qed (use kinds in \<open>simp add: workload_kinds_def\<close>)
qed (use kinds in \<open>simp add: workload_kinds_def\<close>)

lemma cluster_reconcile_up:
  assumes kinds: "\<forall>kd\<in>workload_kinds. installed kd" and v: "settled v" and c: "v (KCluster, req) = Some (ClusterObj c)"
  shows "wpv view (DataPrepperClusterReconciler_Reconcile E req)
    (\<lambda>r w. r = Inr () \<longleftrightarrow> (\<exists>cfg. config_for v c cfg) \<and> has_container (v (deploymentKey c))) v"
  unfolding DataPrepperClusterReconciler_Reconcile_def
proof (intro wpv_bind up_getCluster, goal_cases)
  case (2 ob x)
  then have x: "x = c" "v (clusterKey c) \<noteq> None" using c by auto
  have "wpv view (resolveConfig E c) (\<lambda>r w. w = v \<and> resolves E v c r) v"
    by (rule resolve_up) (use kinds in \<open>simp add: workload_kinds_def\<close>)
  then show ?case unfolding x
    by simp (intro wpv_bindE, elim wpv_mono, auto split: sum.splits dest!: resolves_config_for
      intro!: wpv_mono [OF children_up [of v c, OF kinds v x(2)]])
qed (use c kinds in \<open>auto simp: workload_kinds_def intro!: wpv_rules\<close>)

end

section \<open>Properties\<close>

text \<open>
  C3: a successful reconcile of a cluster refines its specification: some effective configuration of
  the cluster is running, every one of its seven objects meets the postcondition of its sub-reconciler,
  and the status describes the Deployment and the pipelines of the resulting store.
\<close>

theorem cluster_reconcile_refines:
  assumes "api_server E view" "settled (view s)" "view s (KCluster, req) = Some (ClusterObj c)"
    and "run_state (DataPrepperClusterReconciler_Reconcile E req) s = (Inr (), s')"
  shows "(\<exists>cfg h. config_for (view s) c cfg \<and> established c cfg h (view s) (view s')) \<and>
    status_reported E (view s') c (view s')"
  using wpvD [OF api_server.cluster_reconcile_spec [of E view "view s", OF assms(1-3)] refl assms(4)]
  by (simp add: reconciled_def)

definition clusterDemo :: mem where
  "clusterDemo = mem_of [ClusterObj demoCluster, ClassObj demoClass, PipelineObj (demoPipeline ''one'' ''logs'')]"

lemma clusterDemo_cluster: "mem_view clusterDemo (KCluster, ''default'', ''prepper'') = Some (ClusterObj demoCluster)"
  by (simp add: clusterDemo_def mem_view_def demo_defs)

lemma clusterDemo_settled: "settled (mem_view clusterDemo)"
  unfolding clusterDemo_def by (rule settled_mem_of) (simp add: demo_defs)

lemma clusterDemo_class: "class_of (mem_view clusterDemo) demoCluster = Some (k_Spec demoClass)"
  by (simp add: class_of_def clusterDemo_def mem_view_def demo_defs)

lemma clusterDemo_config: "\<exists>cfg. config_for (mem_view clusterDemo) demoCluster cfg"
proof -
  let ?cfg = "overlayClass \<lparr>rc_Image = [], rc_Resources = noResources, rc_EnvFrom = [], rc_NodeSelector = None,
      rc_Tolerations = [], rc_PodLabels = None, rc_PodAnnotations = None\<rparr> (k_Spec demoClass)"
  have "config_for (mem_view clusterDemo) demoCluster ?cfg"
    unfolding config_for_def clusterDemo_class
    by (simp add: inherits_def overlayClass_def demoCluster_def demoSpec_def demoClass_def noResources_def isEmptyResources_def)
  then show ?thesis by blast
qed

lemma clusterDemo_run:
  "\<exists>s'. run_state (DataPrepperClusterReconciler_Reconcile (mem_env all_kinds) (''default'', ''prepper'')) clusterDemo = (Inr (), s')"
proof -
  let ?run = "run_state (DataPrepperClusterReconciler_Reconcile (mem_env all_kinds) (''default'', ''prepper'')) clusterDemo"
  obtain r s' where run: "?run = (r, s')" by (cases ?run)
  have "has_container (mem_view clusterDemo (deploymentKey demoCluster))"
    by (simp add: has_container_def clusterDemo_def mem_view_def demo_defs)
  then have "r = Inr ()"
    using wpvD [OF mem.cluster_reconcile_up [of all_kinds, OF _ clusterDemo_settled clusterDemo_cluster] refl run] clusterDemo_config
    by (simp add: workload_kinds_def)
  with run show ?thesis by simp
qed

theorem cluster_reconcile_refines_witness:
  "\<exists>s' d. run_state (DataPrepperClusterReconciler_Reconcile (mem_env all_kinds) (''default'', ''prepper'')) clusterDemo = (Inr (), s') \<and>
     mem_view s' (deploymentKey demoCluster) = Some (DeploymentObj d) \<and> d_Replicas d = Some 3"
proof -
  obtain s' where run: "run_state (DataPrepperClusterReconciler_Reconcile (mem_env all_kinds) (''default'', ''prepper'')) clusterDemo = (Inr (), s')"
    using clusterDemo_run by blast
  have "cs_Autoscaling (c_Spec demoCluster) = None" "cs_Replicas (c_Spec demoCluster) = 3" by (simp_all add: demoCluster_def demoSpec_def)
  then show ?thesis
    using cluster_reconcile_refines [OF mem.api_server_axioms clusterDemo_settled clusterDemo_cluster run] run
    by (fastforce simp: established_def deployment_post_def)
qed

text \<open>
  C27: whatever it returns, a cluster's reconcile changes no stored object but the cluster itself and
  its seven objects, and nothing at all when the cluster is gone.
\<close>

theorem cluster_reconcile_footprint:
  assumes "api_server E view" "settled (view s)"
    and "run_state (DataPrepperClusterReconciler_Reconcile E req) s = (r, s')"
  shows "only_changes (case view s (KCluster, req) of
      Some (ClusterObj c) \<Rightarrow> insert (KCluster, req) (owned_keys c) | _ \<Rightarrow> {}) (view s) (view s')"
proof (cases "view s (KCluster, req)")
  case None
  have "wpv view (DataPrepperClusterReconciler_Reconcile E req) (\<lambda>r w. w = view s) (view s)"
    by (rule api_server.cluster_reconcile_absent [of E view "view s", OF assms(1) None])
  from wpvD [OF this refl assms(3)] None show ?thesis by simp
next
  case (Some ob)
  then have key: "obj_key ob = (KCluster, req)" by (rule api_server.view_key [OF assms(1)])
  then obtain c where c: "ob = ClusterObj c" by (cases ob) auto
  with key Some wpvD [OF api_server.cluster_reconcile_spec [of E view "view s", OF assms(1,2)] refl assms(3)]
  show ?thesis by auto
qed

theorem cluster_reconcile_footprint_witness:
  "\<exists>s'. run_state (DataPrepperClusterReconciler_Reconcile (mem_env all_kinds) (''default'', ''prepper'')) clusterDemo = (Inr (), s') \<and>
     mem_view s' (KPipeline, ''default'', ''one'') = mem_view clusterDemo (KPipeline, ''default'', ''one'')"
proof -
  obtain s' where run: "run_state (DataPrepperClusterReconciler_Reconcile (mem_env all_kinds) (''default'', ''prepper'')) clusterDemo = (Inr (), s')"
    using clusterDemo_run by blast
  from cluster_reconcile_footprint [OF mem.api_server_axioms clusterDemo_settled run]
  have "only_changes (insert (KCluster, ''default'', ''prepper'') (owned_keys demoCluster)) (mem_view clusterDemo) (mem_view s')"
    by (simp add: clusterDemo_cluster)
  then have "mem_view s' (KPipeline, ''default'', ''one'') = mem_view clusterDemo (KPipeline, ''default'', ''one'')"
    by (rule only_changesD) (simp add: owned_keys_def)
  with run show ?thesis by blast
qed

text \<open>
  C11: against a server that answers (with or without the ServiceMonitor kind) a cluster's reconcile
  succeeds exactly when an effective configuration exists (its class is there, and an image is given)
  and its Deployment, if there is one, has a container.
\<close>

theorem cluster_reconcile_succeeds_iff:
  assumes "available_server E view installed" "\<forall>kd\<in>workload_kinds. installed kd" "settled (view s)"
    and "view s (KCluster, req) = Some (ClusterObj c)"
    and "run_state (DataPrepperClusterReconciler_Reconcile E req) s = (r, s')"
  shows "r = Inr () \<longleftrightarrow> (\<exists>cfg. config_for (view s) c cfg) \<and> has_container (view s (deploymentKey c))"
  using wpvD [OF available_server.cluster_reconcile_up [of E view installed "view s", OF assms(1-4)] refl assms(5)] .

text \<open>The demo cluster reconciles without the ServiceMonitor kind, and not without its class.\<close>

theorem cluster_reconcile_succeeds_iff_witness:
  "fst (run_state (DataPrepperClusterReconciler_Reconcile (mem_env (\<lambda>kd. kd \<noteq> KServiceMonitor)) (''default'', ''prepper'')) clusterDemo) = Inr () \<and>
   fst (run_state (DataPrepperClusterReconciler_Reconcile (mem_env all_kinds) (''default'', ''prepper'')) (mem_of [ClusterObj demoCluster])) \<noteq> Inr ()"
proof -
  let ?req = "(''default'', ''prepper'')" and ?inst = "\<lambda>kd. kd \<noteq> KServiceMonitor" and ?lone = "mem_of [ClusterObj demoCluster]"
  obtain r1 s1 where run1: "run_state (DataPrepperClusterReconciler_Reconcile (mem_env ?inst) ?req) clusterDemo = (r1, s1)"
    by (metis surj_pair)
  obtain r2 s2 where run2: "run_state (DataPrepperClusterReconciler_Reconcile (mem_env all_kinds) ?req) ?lone = (r2, s2)"
    by (metis surj_pair)
  have kinds: "\<forall>kd\<in>workload_kinds. ?inst kd" "\<forall>kd\<in>workload_kinds. all_kinds kd" by (simp_all add: workload_kinds_def)
  have "has_container (mem_view clusterDemo (deploymentKey demoCluster))"
    by (simp add: has_container_def clusterDemo_def mem_view_def demo_defs)
  then have "r1 = Inr ()"
    using cluster_reconcile_succeeds_iff [where s = clusterDemo and req = ?req,
        OF mem.available_server_axioms kinds(1) clusterDemo_settled clusterDemo_cluster run1] clusterDemo_config by blast
  moreover have "\<not> config_for (mem_view ?lone) demoCluster cfg" for cfg
    by (simp add: config_for_def class_of_def mem_view_def demo_defs)
  moreover have "settled (mem_view ?lone)" by (rule settled_mem_of) (simp add: demo_defs)
  moreover have "mem_view ?lone (KCluster, ?req) = Some (ClusterObj demoCluster)" by (simp add: mem_view_def demo_defs)
  ultimately show ?thesis
    using cluster_reconcile_succeeds_iff [where s = ?lone and req = ?req and c = demoCluster,
        OF mem.available_server_axioms kinds(2) _ _ run2] run1 run2 by simp
qed

section \<open>How the objects fit together\<close>

text \<open>
  The objects of a cluster refer to each other by labels, ports and names: both Services select the pods of
  the Deployment, the Service has the ports of its first container, the autoscaler points at it, and the
  pods mount the pipelines ConfigMap and, unless the user gives a server configuration, the peer ConfigMap.
  The latter says how peers are discovered: with several replicas in the spec by the DNS name of the headless
  Service, else not at all. The headless Service has no cluster address if it is new or had none before.
\<close>

definition mounts_config :: "deployment \<Rightarrow> container \<Rightarrow> string \<Rightarrow> config_map \<Rightarrow> bool" where
  "mounts_config d ct n cm \<longleftrightarrow>
     configMapVolume n (Name (cm_Meta cm)) \<in> set (pt_Volumes (d_Template d)) \<and> n \<in> vm_Name ` set (ct_VolumeMounts ct)"

definition peers_told :: "DataPrepperCluster \<Rightarrow> service \<Rightarrow> string \<Rightarrow> bool" where
  "peers_told c hs content \<longleftrightarrow>
     content =
       (if 1 < cs_Replicas (c_Spec c)
        then ''ssl: false'' @ nl @ ''peer_forwarder:'' @ nl @ ''  discovery_mode: dns'' @ nl @
          ''  domain_name: '' @ Name (sv_Meta hs) @ ''.'' @ Namespace (sv_Meta hs) @ ''.svc.cluster.local'' @ nl @
          ''  ssl: false'' @ nl
        else ''ssl: false'' @ nl @ ''peer_forwarder:'' @ nl @ ''  discovery_mode: local_node'' @ nl)"

definition connected :: "DataPrepperCluster \<Rightarrow> store \<Rightarrow> store \<Rightarrow> bool" where
  "connected c v w \<longleftrightarrow>
     (\<exists>d ct cts sv hs pm.
        w (deploymentKey c) = Some (DeploymentObj d) \<and> pt_Containers (d_Template d) = ct # cts \<and>
        w (serviceKey c) = Some (ServiceObj sv) \<and> w (headlessKey c) = Some (ServiceObj hs) \<and>
        labels_match (entries (sv_Selector sv)) (pt_Labels (d_Template d)) \<and>
        labels_match (entries (sv_Selector hs)) (pt_Labels (d_Template d)) \<and>
        map (\<lambda>p. (sp_Name p, sp_Port p)) (sv_Ports sv) = map (\<lambda>p. (cp_Name p, cp_ContainerPort p)) (ct_Ports ct) \<and>
        (cs_Autoscaling (c_Spec c) \<noteq> None \<longrightarrow>
           (\<exists>h. w (hpaKey c) = Some (HPAObj h) \<and> cv_Kind (hs_ScaleTargetRef (hp_Spec h)) = ''Deployment'' \<and>
                cv_Name (hs_ScaleTargetRef (hp_Spec h)) = Name (d_Meta d))) \<and>
        w (pipelinesKey c) = Some (ConfigMapObj pm) \<and> mounts_config d ct ''pipelines'' pm \<and>
        (cs_ServerConfigMap (c_Spec c) = [] \<longrightarrow>
           (\<exists>cm. w (peerKey c) = Some (ConfigMapObj cm) \<and> mounts_config d ct ''server-config'' cm \<and>
              peers_told c hs (goget (cm_Data cm) ''data-prepper-config.yaml''))) \<and>
        sv_PublishNotReadyAddresses hs \<and>
        ((\<forall>hs0. v (headlessKey c) = Some (ServiceObj hs0) \<longrightarrow> sv_ClusterIP hs0 = ''None'') \<longrightarrow> sv_ClusterIP hs = ''None''))"

lemma appLabel_selects:
  "labels_match (entries (appLabel c)) m \<longleftrightarrow> fmlookup (entries m) ''app'' = Some (cname c)"
  by (simp add: appLabel_def labels_match_singleton)

lemma service_ports_named:
  "map (\<lambda>p. (sp_Name p, sp_Port p)) (servicePorts c) = map (\<lambda>p. (cp_Name p, cp_ContainerPort p)) (deploymentPorts c)"
  by (simp add: servicePorts_def deploymentPorts_def extraServicePort_def)

lemma renderPeerConfig_told:
  "Name (sv_Meta hs) = headlessServiceName c \<Longrightarrow> Namespace (sv_Meta hs) = cns c \<Longrightarrow> peers_told c hs (renderPeerConfig c)"
  by (simp add: peers_told_def renderPeerConfig_def Let_def)

lemma mounted_configs:
  assumes "pt_Volumes (d_Template d) = deploymentVolumes c" "ct_VolumeMounts ct = deploymentVolumeMounts c"
  shows "Name (cm_Meta cm) = cname c @ ''-pipelines'' \<Longrightarrow> mounts_config d ct ''pipelines'' cm"
    "cs_ServerConfigMap (c_Spec c) = [] \<Longrightarrow> Name (cm_Meta cm) = peerConfigMapName c \<Longrightarrow> mounts_config d ct ''server-config'' cm"
  using assms by (simp_all add: mounts_config_def deploymentVolumes_def deploymentVolumeMounts_def volumeMount_def Let_def)

lemma established_connected:
  assumes est: "established c cfg h v w" and keys: "\<And>k ob. w k = Some ob \<Longrightarrow> obj_key ob = k"
    and kv: "\<And>k ob. v k = Some ob \<Longrightarrow> obj_key ob = k"
  shows "connected c v w"
proof -
  from est obtain d where d: "w (deploymentKey c) = Some (DeploymentObj d)" "runs_cluster c cfg h d"
    by (auto simp: established_def deployment_post_def)
  from d(2) obtain ct cts where ct: "pt_Containers (d_Template d) = ct # cts" "ct_VolumeMounts ct = deploymentVolumeMounts c"
    "map (\<lambda>p. (cp_Name p, cp_ContainerPort p)) (ct_Ports ct) = map (\<lambda>p. (cp_Name p, cp_ContainerPort p)) (deploymentPorts c)"
    by (auto simp: runs_cluster_def)
  from d(2) have vols: "pt_Volumes (d_Template d) = deploymentVolumes c" by (simp add: runs_cluster_def)
  from d(2) have app: "fmlookup (entries (pt_Labels (d_Template d))) ''app'' = Some (cname c)"
    by (simp add: runs_cluster_def mergeStringMap_def appLabel_def)
  from est obtain sv where sv: "w (serviceKey c) = Some (ServiceObj sv)" "entries (sv_Selector sv) = entries (appLabel c)"
    "map (\<lambda>p. (sp_Name p, sp_Port p)) (sv_Ports sv) = map (\<lambda>p. (sp_Name p, sp_Port p)) (servicePorts c)"
    by (auto simp: established_def service_post_def)
  from est obtain hs where hs: "w (headlessKey c) = Some (ServiceObj hs)" "entries (sv_Selector hs) = entries (appLabel c)"
    "sv_PublishNotReadyAddresses hs" "keeps_address hs (v (headlessKey c))" "v (headlessKey c) = None \<longrightarrow> sv_ClusterIP hs = ''None''"
    by (auto simp: established_def headless_post_def)
  have names: "Name (d_Meta d) = cname c" "Name (sv_Meta hs) = headlessServiceName c" "Namespace (sv_Meta hs) = cns c"
    using keys [OF d(1)] keys [OF hs(1)] by simp_all
  have "\<exists>h. w (hpaKey c) = Some (HPAObj h) \<and> cv_Kind (hs_ScaleTargetRef (hp_Spec h)) = ''Deployment'' \<and>
      cv_Name (hs_ScaleTargetRef (hp_Spec h)) = cname c" if "cs_Autoscaling (c_Spec c) \<noteq> None"
    using est that by (auto simp: established_def hpa_post_def autoscales_def)
  moreover have "\<exists>cm. w (peerKey c) = Some (ConfigMapObj cm) \<and> mounts_config d ct ''server-config'' cm \<and>
      peers_told c hs (goget (cm_Data cm) ''data-prepper-config.yaml'')" if "cs_ServerConfigMap (c_Spec c) = []"
  proof -
    from est that obtain cm where cm: "w (peerKey c) = Some (ConfigMapObj cm)"
      "goget (cm_Data cm) ''data-prepper-config.yaml'' = renderPeerConfig c"
      unfolding established_def peer_config_post_def by auto
    with keys [OF cm(1)] show ?thesis using mounted_configs(2) [OF vols ct(2) that] renderPeerConfig_told names(2,3) by simp
  qed
  moreover have "\<exists>pm. w (pipelinesKey c) = Some (ConfigMapObj pm)"
  proof -
    from est obtain ob where ob: "w (pipelinesKey c) = Some ob"
      unfolding established_def pipelines_config_post_def by (cases "v (pipelinesKey c)") auto
    with keys [OF ob] show ?thesis by (cases ob) auto
  qed
  then obtain pm where pm: "w (pipelinesKey c) = Some (ConfigMapObj pm)" ..
  moreover have "mounts_config d ct ''pipelines'' pm" using keys [OF pm] by (intro mounted_configs(1) [OF vols ct(2)]) simp
  moreover have "sv_ClusterIP hs = ''None''" if "\<forall>hs0. v (headlessKey c) = Some (ServiceObj hs0) \<longrightarrow> sv_ClusterIP hs0 = ''None''"
  proof (cases "v (headlessKey c)")
    case (Some ob)
    then obtain hs0 where "ob = ServiceObj hs0" using kv [OF Some] by (cases ob) auto
    with Some that hs(4) show ?thesis by (simp add: keeps_address_def)
  qed (use hs(5) in simp)
  ultimately show ?thesis
    unfolding connected_def using d(1) ct sv hs(1-3) app service_ports_named
    by (intro exI [of _ d] exI [of _ ct] exI [of _ cts] exI [of _ sv] exI [of _ hs] exI [of _ pm]) (simp add: appLabel_selects names)
qed

text \<open>
  C17: after a successful reconcile the objects of a cluster fit together, whatever labels its class
  asks for: both Services select the Deployment's pods, the Service exposes its container's ports, the
  autoscaler points at the Deployment, and the pods mount the stored pipelines ConfigMap and, unless the
  user gives a server configuration, the stored peer ConfigMap. That one asks for discovery through the
  DNS name of the headless Service when the spec has several replicas, and for none otherwise (autoscaling
  does not count). The headless Service publishes pods that are not ready, and it is headless if it was
  before or is new; one that had an address keeps it.
\<close>

theorem cluster_objects_connected:
  assumes "api_server E view" "settled (view s)" "view s (KCluster, req) = Some (ClusterObj c)"
    and "run_state (DataPrepperClusterReconciler_Reconcile E req) s = (Inr (), s')"
  shows "connected c (view s) (view s')"
proof -
  have "reconciled E c (view s) (view s')"
    using wpvD [OF api_server.cluster_reconcile_spec [of E view "view s", OF assms(1-3)] refl assms(4)] by simp
  then obtain cfg h where "established c cfg h (view s) (view s')" by (auto simp: reconciled_def)
  then show ?thesis by (rule established_connected) (rule api_server.view_key [OF assms(1)], assumption)+
qed

theorem cluster_objects_connected_witness:
  "\<exists>s'. run_state (DataPrepperClusterReconciler_Reconcile (mem_env all_kinds) (''default'', ''prepper'')) clusterDemo = (Inr (), s') \<and>
     connected demoCluster (mem_view clusterDemo) (mem_view s') \<and>
     (\<exists>hs. mem_view s' (headlessKey demoCluster) = Some (ServiceObj hs) \<and> sv_ClusterIP hs = ''None'')"
proof -
  obtain s' where run: "run_state (DataPrepperClusterReconciler_Reconcile (mem_env all_kinds) (''default'', ''prepper'')) clusterDemo = (Inr (), s')"
    using clusterDemo_run by blast
  from cluster_objects_connected [OF mem.api_server_axioms clusterDemo_settled clusterDemo_cluster run]
  have con: "connected demoCluster (mem_view clusterDemo) (mem_view s')" .
  have "mem_view clusterDemo (headlessKey demoCluster) = None"
    by (simp add: clusterDemo_def mem_view_def demo_defs headlessServiceName_def)
  with con have "\<exists>hs. mem_view s' (headlessKey demoCluster) = Some (ServiceObj hs) \<and> sv_ClusterIP hs = ''None''"
    unfolding connected_def by auto
  with con run show ?thesis by blast
qed

end
