(* ===== verification/Controllers.thy ===== *)
theory Controllers
  imports Pipeline_Lifecycle Cluster_Controller
begin

text \<open>
  The two controllers together. They share the pipelines ConfigMap and the Deployment of a cluster: the
  pipeline controller writes the merged configuration and its hash, the cluster controller creates the
  ConfigMap and updates the rest of the Deployment. \<open>reconciles\<close> is the relation of any number of
  reconciles of either controller, in any order and with any outcome.
\<close>

section \<open>What a cluster's content depends on\<close>

text \<open>A pipeline up to what contributes to the content: its name and its spec.\<close>

definition core :: "DataPrepperPipeline \<Rightarrow> DataPrepperPipeline" where
  "core p = \<lparr>p_Meta = object_meta (Name (p_Meta p)) [], p_Spec = p_Spec p, p_Stat = zeroPipelineStatus\<rparr>"

definition keyed :: "store \<Rightarrow> bool" where
  "keyed v \<longleftrightarrow> (\<forall>k ob. v k = Some ob \<longrightarrow> obj_key ob = k)"

lemma core_inj: "keyed v \<Longrightarrow> inj_on core (contributors E v ns ref excl)"
  unfolding inj_on_def contributors_def stored_pipelines_def keyed_def core_def object_meta_def
  by auto (metis kobject.inject(3) obj_key_simps(3) option.inject prod.inject)

lemma content_of_core:
  assumes "keyed v" "keyed w" "core ` contributors E w ns ref excl = core ` contributors E v ns ref excl"
  shows "content_of E w ns ref excl content \<longleftrightarrow> content_of E v ns ref excl content"
proof -
  have "merged (core ` contributors E u ns ref excl) ds \<longleftrightarrow> merged (contributors E u ns ref excl) ds" if "keyed u" for u ds
    by (rule merged_image [OF core_inj [OF that]]) (simp add: core_def)
  from this [OF assms(1)] this [OF assms(2)] assms(3) show ?thesis by (simp add: content_of_def)
qed

text \<open>
  A reconcile keeps every pipeline, with its spec and its deletion timestamp, or removes one that is being
  deleted.
\<close>

definition pipeline_kept :: "'s env \<Rightarrow> kobject option \<Rightarrow> kobject option \<Rightarrow> bool" where
  "pipeline_kept E old new \<longleftrightarrow>
     new = old \<or>
     (\<exists>p. old = Some (PipelineObj p) \<and>
        ((\<exists>p'. new = Some (PipelineObj p') \<and> p_Spec p' = p_Spec p \<and>
               DeletionTimestamp (p_Meta p') = DeletionTimestamp (p_Meta p)) \<or>
         new = None \<and> \<not> IsZero E (DeletionTimestamp (p_Meta p))))"

definition pipelines_kept :: "'s env \<Rightarrow> store \<Rightarrow> store \<Rightarrow> bool" where
  "pipelines_kept E v w \<longleftrightarrow> (\<forall>k. pipeline_kept E (v (KPipeline, k)) (w (KPipeline, k)))"

lemma pipelines_keptI:
  assumes "only_changes K v w" "\<And>k. (KPipeline, k) \<in> K \<Longrightarrow> pipeline_kept E (v (KPipeline, k)) (w (KPipeline, k))"
  shows "pipelines_kept E v w"
  unfolding pipelines_kept_def
proof
  fix k
  show "pipeline_kept E (v (KPipeline, k)) (w (KPipeline, k))"
  proof (cases "(KPipeline, k) \<in> K")
    case False
    then show ?thesis by (simp add: only_changesD [OF assms(1)] pipeline_kept_def)
  qed (rule assms(2))
qed

lemma pipelines_keptD: "pipelines_kept E v w \<Longrightarrow> pipeline_kept E (v (KPipeline, k)) (w (KPipeline, k))"
  unfolding pipelines_kept_def by blast

lemma pipeline_kept_trans: "pipeline_kept E a b \<Longrightarrow> pipeline_kept E b c \<Longrightarrow> pipeline_kept E a c"
  by (auto simp: pipeline_kept_def)

lemma pipelines_kept_refl [simp]: "pipelines_kept E v v"
  by (simp add: pipelines_kept_def pipeline_kept_def)

lemma pipelines_kept_trans: "pipelines_kept E u v \<Longrightarrow> pipelines_kept E v w \<Longrightarrow> pipelines_kept E u w"
  unfolding pipelines_kept_def by (blast intro: pipeline_kept_trans)

lemma contributors_kept:
  assumes "pipelines_kept E v w" "keyed v" "keyed w"
  shows "core ` contributors E w ns ref [] = core ` contributors E v ns ref []"
proof (intro set_eqI iffI)
  fix x assume "x \<in> core ` contributors E w ns ref []"
  then obtain p' n where p': "w (KPipeline, ns, n) = Some (PipelineObj p')" "contributes E ref [] p'" "x = core p'"
    by (auto simp: contributors_def stored_pipelines_def)
  with pipelines_keptD [OF assms(1), of "(ns, n)"] obtain p where p: "v (KPipeline, ns, n) = Some (PipelineObj p)" "p_Spec p' = p_Spec p"
    "DeletionTimestamp (p_Meta p') = DeletionTimestamp (p_Meta p)"
    unfolding pipeline_kept_def by (metis option.distinct(1) kobject.inject(3) option.inject)
  moreover have "Name (p_Meta p') = Name (p_Meta p)"
    using assms(2,3) p(1) p'(1) unfolding keyed_def by fastforce
  ultimately have "p \<in> contributors E v ns ref []" "x = core p"
    using p' by (auto simp: contributors_def stored_pipelines_def contributes_def core_def)
  then show "x \<in> core ` contributors E v ns ref []" by blast
next
  fix x assume "x \<in> core ` contributors E v ns ref []"
  then obtain p n where p: "v (KPipeline, ns, n) = Some (PipelineObj p)" "contributes E ref [] p" "x = core p"
    by (auto simp: contributors_def stored_pipelines_def)
  then obtain p' where p': "w (KPipeline, ns, n) = Some (PipelineObj p')" "p_Spec p' = p_Spec p"
    "DeletionTimestamp (p_Meta p') = DeletionTimestamp (p_Meta p)"
    using assms(1) by (auto simp: pipeline_kept_def contributes_def dest!: pipelines_keptD [where k = "(ns, n)"])
  moreover have "Name (p_Meta p') = Name (p_Meta p)"
    using assms(2,3) p(1) p'(1) unfolding keyed_def by fastforce
  ultimately have "p' \<in> contributors E w ns ref []" "x = core p'"
    using p by (auto simp: contributors_def stored_pipelines_def contributes_def core_def)
  then show "x \<in> core ` contributors E w ns ref []" by blast
qed

text \<open>A cluster in sync whose ConfigMap exists, and the steps that keep it so.\<close>

definition synced :: "'s env \<Rightarrow> store \<Rightarrow> string \<Rightarrow> string \<Rightarrow> bool" where
  "synced E v ns ref \<longleftrightarrow>
     in_sync E v ns ref [] \<and> config_data v ns (pipelines_cm ref) \<noteq> None \<and> v (KPipeline, ns, []) = None"

lemma synced_kept:
  assumes "synced E v ns ref" "pipelines_kept E v w" "keyed v" "keyed w"
    and "config_data w ns (pipelines_cm ref) = config_data v ns (pipelines_cm ref)"
    and "goget (pod_annotations w ns ref) pipelinesHashAnnotation = goget (pod_annotations v ns ref) pipelinesHashAnnotation"
  shows "synced E w ns ref"
  using assms(1,5,6) content_of_core [OF assms(3,4) contributors_kept [OF assms(2-4)]]
    pipelines_keptD [OF assms(2), of "(ns, [])"]
  by (auto simp: synced_def in_sync_def pipeline_kept_def)

section \<open>Steps of the pipeline controller\<close>

text \<open>A deleted pipeline contributes no more, excluded or not.\<close>

lemma contributors_excluded:
  assumes "keyed v" "v (pkey p) = Some (PipelineObj p)" "\<not> IsZero E (DeletionTimestamp (p_Meta p))"
    and "v (KPipeline, ns_of p, []) = None"
  shows "contributors E v (ns_of p) ref (Name (p_Meta p)) = contributors E v (ns_of p) ref []"
proof -
  have at: "v (KPipeline, ns_of p, Name (p_Meta q)) = Some (PipelineObj q)" if "q \<in> stored_pipelines v (ns_of p)" for q
  proof -
    from that obtain n where n: "v (KPipeline, ns_of p, n) = Some (PipelineObj q)" by (auto simp: stored_pipelines_def)
    then have "obj_key (PipelineObj q) = (KPipeline, ns_of p, n)" using assms(1) unfolding keyed_def by blast
    with n show ?thesis by simp
  qed
  have "contributes E ref (Name (p_Meta p)) q \<longleftrightarrow> contributes E ref [] q" if "q \<in> stored_pipelines v (ns_of p)" for q
  proof (cases "Name (p_Meta q) = Name (p_Meta p)")
    case True
    from at [OF that, unfolded True] assms(2) have "q = p" by (metis kobject.inject(3) option.inject)
    with assms(3) show ?thesis by (simp add: contributes_def)
  next
    case False
    moreover from at [OF that] assms(4) have "Name (p_Meta q) \<noteq> []" by (metis option.distinct(1))
    ultimately show ?thesis by (simp add: contributes_def)
  qed
  then show ?thesis unfolding contributors_def by blast
qed

context api_server
begin

lemma keyed_view [simp]: "keyed (view s)"
  by (simp add: keyed_def view_key)

lemma rebuild_in_sync:
  assumes "in_sync E v ns ref excl"
  shows "wpv view (rebuildClusterConfig E ns ref excl) (\<lambda>r w. w = v) v"
proof (rule wpv_rebuild)
  fix content assume "content_of E v ns ref excl content"
  with assms content_of_unique [OF this]
  have "goget (config_data v ns (pipelines_cm ref)) pipelinesConfigMapKey = content"
    "goget (pod_annotations v ns ref) pipelinesHashAnnotation = content_hash content"
    unfolding in_sync_def by blast+
  then show "wpv view (bindE (writeContent E ns ref content) (\<lambda>_. stampHash E ns ref content)) (\<lambda>r w. w = v) v"
    unfolding writeContent_def stampHash_def
    by (intro wpv_bindE wpv_getConfigMap) (auto split: sum.splits intro!: wpv_returnE wpv_bindE wpv_getDeployment)
qed simp


text \<open>The writes of a reconcile to the pipeline itself.\<close>

lemma pipeline_update_kept:
  assumes "write_result (update_effect (PipelineObj q)) v r w" "v (pkey p) = Some (PipelineObj p)"
    and "Name (p_Meta q) = Name (p_Meta p)" "ns_of q = ns_of p" "p_Spec q = p_Spec p"
    and "IsZero E (DeletionTimestamp (p_Meta p)) \<Longrightarrow> Finalizers (p_Meta q) \<noteq> []"
  shows "pipelines_kept E v w"
proof (rule pipelines_keptI)
  show "only_changes {obj_key (PipelineObj q)} v w" by (rule writes_only(2) [OF assms(1)])
  fix k assume "(KPipeline, k) \<in> {obj_key (PipelineObj q)}"
  then have k: "(KPipeline, k) = pkey p" "obj_key (PipelineObj q) = pkey p" using assms(3,4) by simp_all
  consider "update_effect (PipelineObj q) v w" | "w = v" using assms(1) by (auto simp: write_result_def)
  then show "pipeline_kept E (v (KPipeline, k)) (w (KPipeline, k))"
  proof cases
    case 1
    then show ?thesis using assms(2,5,6) unfolding k update_effect_def pipeline_kept_def
      by (auto simp: k stored_as_def split: if_splits)
  qed (simp add: pipeline_kept_def)
qed

lemma status_kept:
  assumes "v (pkey p) = Some (PipelineObj p)"
  shows "wpv view (setStatus E p phase h) (\<lambda>r w. pipelines_kept E v w) v"
proof -
  have "pipelines_kept E v w" if "write_result (status_update_effect (PipelineObj (p\<lparr>p_Stat := st\<rparr>))) v r w" for st r w
  proof (rule pipelines_keptI)
    show "only_changes {pkey p} v w" using writes_only(3) [OF that] by simp
    fix k assume "(KPipeline, k) \<in> {pkey p}"
    then show "pipeline_kept E (v (KPipeline, k)) (w (KPipeline, k))"
      using that status_update_core [of "p\<lparr>p_Stat := st\<rparr>" v w p] assms
      by (auto simp: write_result_def pipeline_kept_def same_core_def)
  qed
  then show ?thesis unfolding setStatus_parts writeStatus_def
    by (intro wpv_bind wpv_Condition wpv_if wpv_return wpv_returnE wpv_StatusUpdate) auto
qed

end

text \<open>What a step keeps of a cluster: its pipelines, its content and the hash of it.\<close>

definition kept :: "'s env \<Rightarrow> string \<Rightarrow> string \<Rightarrow> store \<Rightarrow> store \<Rightarrow> bool" where
  "kept E ns ref v w \<longleftrightarrow>
     pipelines_kept E v w \<and> config_data w ns (pipelines_cm ref) = config_data v ns (pipelines_cm ref) \<and>
     goget (pod_annotations w ns ref) pipelinesHashAnnotation = goget (pod_annotations v ns ref) pipelinesHashAnnotation"

lemma kept_refl [simp]: "kept E ns ref v v"
  by (simp add: kept_def)

lemma kept_trans: "kept E ns ref u v \<Longrightarrow> kept E ns ref v w \<Longrightarrow> kept E ns ref u w"
  by (auto simp: kept_def intro: pipelines_kept_trans)

lemma kept_own: "pipelines_kept E v w \<Longrightarrow> only_changes {pkey p} v w \<Longrightarrow> kept E ns ref v w"
  by (simp add: kept_def config_data_only pod_annotations_only)

lemma kept_elsewhere:
  assumes "only_changes {(KConfigMap, ns', pipelines_cm ref'), (KDeployment, ns', ref')} v w" "(ns', ref') \<noteq> (ns, ref)"
  shows "kept E ns ref v w"
proof -
  have "pipelines_kept E v w" by (rule pipelines_keptI [OF assms(1)]) simp
  moreover have "config_data w ns (pipelines_cm ref) = config_data v ns (pipelines_cm ref)"
    by (rule config_data_only [OF assms(1)]) (use assms(2) in auto)
  moreover have "pod_annotations w ns ref = pod_annotations v ns ref"
    by (rule pod_annotations_only [OF assms(1)]) (use assms(2) in auto)
  ultimately show ?thesis by (simp add: kept_def)
qed

context api_server
begin

lemma rebuild_kept:
  assumes "(ns', ref') = (ns, ref) \<Longrightarrow> in_sync E v ns ref excl"
  shows "wpv view (rebuildClusterConfig E ns' ref' excl) (\<lambda>r w. kept E ns ref v w \<and> w (pkey p) = v (pkey p)) v"
proof (cases "(ns', ref') = (ns, ref)")
  case True
  then have "ns' = ns" "ref' = ref" by simp_all
  with rebuild_in_sync [OF assms [OF True]] show ?thesis by (auto elim: wpv_mono)
next
  case False
  show ?thesis
    by (rule wpv_mono [OF rebuild_frame]) (simp add: kept_elsewhere [OF _ False] rebuild_keeps_pipeline)
qed

lemma status_step_kept:
  assumes "v (pkey p) = Some (PipelineObj p)"
  shows "wpv view (setStatus E p phase h) (\<lambda>r w. kept E ns ref v w) v"
  by (rule wpv_mono [OF wpv_conj [OF status_kept [of v p, OF assms] setStatus_spec [of v p, OF assms]]])
    (auto intro: kept_own)

lemma handleDeleted_kept:
  assumes sync: "(ns_of p, ref_of p) = (ns, ref) \<Longrightarrow> synced E v ns ref"
    and "keyed v" "v (pkey p) = Some (PipelineObj p)" "\<not> IsZero E (DeletionTimestamp (p_Meta p))"
  shows "wpv view (handleDeleted E p) (\<lambda>r w. kept E ns ref v w) v"
proof -
  have drop: "wpv view (dropFinalizer E p) (\<lambda>r w. kept E ns ref v w) u"
    if "kept E ns ref v u" "u (pkey p) = v (pkey p)" for u
    unfolding dropFinalizer_def RemoveFinalizer
    by (rule wpv_Update, rule kept_trans [OF that(1)], rule kept_own)
      (use assms(3,4) that(2) in \<open>auto dest: pipeline_update_kept [where p = p] writes_only(2)\<close>)
  have "in_sync E v ns ref (Name (p_Meta p))" if "(ns_of p, ref_of p) = (ns, ref)"
  proof -
    from that have "contributors E v ns ref (Name (p_Meta p)) = contributors E v ns ref []"
      using contributors_excluded [of v p E, OF assms(2-4)] sync [OF that] by (auto simp: synced_def)
    with sync [OF that] show ?thesis by (simp add: synced_def in_sync_def content_of_def)
  qed
  then have "wpv view (rebuildClusterConfig E (ns_of p) (ref_of p) (Name (p_Meta p)))
      (\<lambda>r w. kept E ns ref v w \<and> w (pkey p) = v (pkey p)) v" by (rule rebuild_kept)
  then show ?thesis
    unfolding handleDeleted_def
    by (intro wpv_if wpv_bind wpv_returnE, elim wpv_mono) (auto intro!: drop wpv_throwE split: sum.splits)
qed

lemma handleLive_kept:
  assumes sync: "(ns_of p, ref_of p) = (ns, ref) \<Longrightarrow> synced E v ns ref" and "v (pkey p) = Some (PipelineObj p)"
  shows "wpv view (handleLive E p) (\<lambda>r w. kept E ns ref v w) v"
proof -
  have stat: "wpv view (setStatus E p phase h) (\<lambda>r w. kept E ns ref v w) u"
    if "kept E ns ref v u" "u (pkey p) = v (pkey p)" for u phase h
    by (rule wpv_mono [OF status_step_kept]) (use that assms(2) in \<open>auto intro: kept_trans\<close>)
  have "wpv view (rebuildClusterConfig E (ns_of p) (ref_of p) []) (\<lambda>r w. kept E ns ref v w \<and> w (pkey p) = v (pkey p)) v"
    by (rule rebuild_kept) (use sync in \<open>simp add: synced_def\<close>)
  then show ?thesis
    unfolding handleLive_def
    by (intro wpv_bind wpv_getCluster)
      (auto intro!: wpv_rules stat wpv_mono [OF inspect_frame] elim!: wpv_mono split: sum.splits)
qed

lemma wpv_keyed: "wpv view m (\<lambda>r w. keyed w \<longrightarrow> Q r w) v \<Longrightarrow> wpv view m Q v"
  by (auto simp: wpv_def split: prod.splits)

lemma pipeline_step_kept:
  assumes sync: "\<And>p. v (KPipeline, req) = Some (PipelineObj p) \<Longrightarrow> (ns_of p, ref_of p) = (ns, ref) \<Longrightarrow> synced E v ns ref"
    and "keyed v"
  shows "wpv view (DataPrepperPipelineReconciler_Reconcile E req) (\<lambda>r w. kept E ns ref v w) v"
  unfolding Reconcile_parts
proof (intro wpv_bind wpv_getPipeline, goal_cases)
  case (1 ob p)
  then have p: "v (pkey p) = Some (PipelineObj p)" by simp
  have "wpv view (Update E (PipelineObj (p\<lparr>p_Meta := AddFinalizer E (p_Meta p) pipelineFinalizer\<rparr>))) (\<lambda>r w. kept E ns ref v w) v"
    unfolding AddFinalizer
    by (rule wpv_Update, rule kept_own)
      (use p in \<open>auto dest: pipeline_update_kept [where p = p] writes_only(2) split: if_splits\<close>)
  then show ?case
    unfolding handleFetched_def
    using handleDeleted_kept [OF sync assms(2) p] handleLive_kept [OF sync p] 1 by auto
qed (auto intro!: wpv_rules)

lemma pipeline_step_pipelines:
  assumes "keyed v"
  shows "wpv view (DataPrepperPipelineReconciler_Reconcile E req) (\<lambda>r w. pipelines_kept E v w) v"
proof -
  obtain ref where ref: "\<And>p. v (KPipeline, req) = Some (PipelineObj p) \<Longrightarrow> ref_of p \<noteq> ref"
  proof (cases "\<exists>p. v (KPipeline, req) = Some (PipelineObj p)")
    case True
    then obtain p where "v (KPipeline, req) = Some (PipelineObj p)" ..
    then show ?thesis by (intro that [of "''x'' @ ref_of p"]) simp
  qed (use that in blast)
  show ?thesis
    by (rule wpv_mono [OF pipeline_step_kept [where ns = "[]" and ref = ref]]) (use ref assms in \<open>auto simp: kept_def\<close>)
qed

lemma pipeline_step_settled:
  assumes "settled v"
  shows "wpv view (DataPrepperPipelineReconciler_Reconcile E req) (\<lambda>r w. settled w) v"
  unfolding Reconcile_parts
proof (intro wpv_bind wpv_getPipeline, goal_cases)
  case (1 ob p)
  then have p: "v (pkey p) = Some (PipelineObj p)" by simp
  have rebuild: "wpv view (rebuildClusterConfig E ns ref excl) (\<lambda>r w. settled w \<and> w (pkey p) = v (pkey p)) v" for ns ref excl
    by (rule wpv_mono [OF wpv_conj [OF rebuild_spec [OF assms] rebuild_frame]]) (auto simp: rebuild_keeps_pipeline)
  have stat: "wpv view (setStatus E p phase h) (\<lambda>r w. settled w) u" if "settled u" "u (pkey p) = v (pkey p)" for u phase h
    by (rule wpv_mono [OF setStatus_spec]) (use that p in auto)
  show ?case
    unfolding handleFetched_def handleDeleted_def handleLive_def dropFinalizer_def
    by (auto intro!: wpv_rules wpv_getCluster wpv_mono [OF rebuild] stat wpv_mono [OF inspect_frame] settled_writes assms
        split: sum.splits)
qed (auto intro!: wpv_rules assms)

end

section \<open>Steps of the cluster controller\<close>

lemma patched_hash:
  assumes "stored_as (DeploymentObj (patchedDeployment c cfg h d0 ct0 cts0)) ob" "pt_Containers (d_Template d0) = ct0 # cts0"
    and "goget (pt_Annotations (d_Template d0)) pipelinesHashAnnotation \<noteq> []"
  shows "\<exists>d. ob = DeploymentObj d \<and> goget (pt_Annotations (d_Template d)) pipelinesHashAnnotation =
    goget (pt_Annotations (d_Template d0)) pipelinesHashAnnotation"
  using stored_patched [OF assms(1,2), of "()"] assms(3) by (auto simp: deployment_post_def)

lemma patched_kept:
  assumes "update_effect (DeploymentObj (patchedDeployment c cfg h d ct cts)) v w" "settled v"
    and "v (deploymentKey c) = Some (DeploymentObj d)" "obj_key (DeploymentObj d) = deploymentKey c"
    and "pt_Containers (d_Template d) = ct # cts" "goget (pt_Annotations (d_Template d)) pipelinesHashAnnotation \<noteq> []"
  shows "kept E (cns c) (cname c) v w"
proof -
  let ?p = "patchedDeployment c cfg h d ct cts"
  have key: "obj_key (DeploymentObj ?p) = deploymentKey c" using assms(4) by simp
  from assms(1,2) obtain ob where ob: "stored_as (DeploymentObj ?p) ob" "w = v(deploymentKey c \<mapsto> ob)"
    by (rule update_keptE [where old = "DeploymentObj d"]) (use assms(3) key in auto)
  from patched_hash [OF ob(1) assms(5,6)] obtain d' where d': "ob = DeploymentObj d'"
    "goget (pt_Annotations (d_Template d')) pipelinesHashAnnotation = goget (pt_Annotations (d_Template d)) pipelinesHashAnnotation"
    by blast
  have "pipelines_kept E v w" by (rule pipelines_keptI [OF update_only [OF assms(1)]]) simp
  then show ?thesis using assms(3) d' ob(2) by (simp add: kept_def config_data_def pod_annotations_def)
qed

text \<open>
  \<open>keeps\<close>: from a settled store that holds a hash for the cluster, a transformer leaves a settled store and
  keeps what it should of the cluster. It composes.
\<close>

definition stamped :: "store \<Rightarrow> string \<Rightarrow> string \<Rightarrow> bool" where
  "stamped v ns ref \<longleftrightarrow>
     config_data v ns (pipelines_cm ref) \<noteq> None \<and> goget (pod_annotations v ns ref) pipelinesHashAnnotation \<noteq> []"

definition keeps :: "'s env \<Rightarrow> ('s \<Rightarrow> store) \<Rightarrow> string \<Rightarrow> string \<Rightarrow> ('s, 'a) state \<Rightarrow> bool" where
  "keeps E view ns ref m \<longleftrightarrow>
     (\<forall>v. settled v \<longrightarrow> stamped v ns ref \<longrightarrow> wpv view m (\<lambda>r w. settled w \<and> kept E ns ref v w) v)"

lemma stamped_kept: "stamped v ns ref \<Longrightarrow> kept E ns ref v w \<Longrightarrow> stamped w ns ref"
  by (simp add: stamped_def kept_def)

lemma keeps_bindE:
  assumes "keeps E view ns ref m" "\<And>x. keeps E view ns ref (f x)"
  shows "keeps E view ns ref (bindE m f)"
  unfolding keeps_def
proof (intro allI impI wpv_bindE)
  fix v assume v: "settled v" "stamped v ns ref"
  have "wpv view (f x) (\<lambda>r w. settled w \<and> kept E ns ref v w) u" if "settled u" "kept E ns ref v u" for x u
    using assms(2) [of x] that stamped_kept [OF v(2) that(2)] unfolding keeps_def by (auto elim!: wpv_mono intro: kept_trans)
  with assms(1) v show "wpv view m (\<lambda>r w. case r of Inl e \<Rightarrow> settled w \<and> kept E ns ref v w
      | Inr x \<Rightarrow> wpv view (f x) (\<lambda>r w. settled w \<and> kept E ns ref v w) w) v"
    unfolding keeps_def by (auto elim!: wpv_mono split: sum.splits)
qed

lemma keeps_returnE: "keeps E view ns ref (returnE x)"
  by (simp add: keeps_def wpv_returnE)

text \<open>A step that owns another object than the pipelines ConfigMap and the Deployment of the cluster keeps it.\<close>

lemma kept_frame:
  assumes "only_changes {k} v w" "fst k \<noteq> KPipeline" "k \<noteq> (KConfigMap, ns, pipelines_cm ref)" "k \<noteq> (KDeployment, ns, ref)"
  shows "kept E ns ref v w"
proof -
  have "pipelines_kept E v w" by (rule pipelines_keptI [OF assms(1)]) (use assms(2) in auto)
  then show ?thesis using assms(1,3,4) by (simp add: kept_def config_data_only pod_annotations_only)
qed

lemma peer_not_pipelines: "peerConfigMapName c \<noteq> pipelines_cm ref"
proof -
  have "last (peerConfigMapName c) = CHR ''g''" "last (pipelines_cm ref) = CHR ''s''"
    by (simp_all add: peerConfigMapName_def pipelinesConfigMapSuffix_def)
  then show ?thesis by auto
qed

context sub_reconciler
begin

lemma step_keeps:
  assumes "fst (own c) \<noteq> KPipeline" "own c \<noteq> (KConfigMap, ns, pipelines_cm ref)" "own c \<noteq> (KDeployment, ns, ref)"
  shows "keeps E view ns ref (step c)"
  unfolding keeps_def
proof (intro allI impI)
  fix v assume "settled v"
  show "wpv view (step c) (\<lambda>r w. settled w \<and> kept E ns ref v w) v"
    by (rule wpv_mono [OF wpv_conj [OF step_settled [OF \<open>settled v\<close>] step_frame]]) (auto intro: kept_frame [OF _ assms])
qed

end

context api_server
begin

lemma resolve_keeps: "keeps E view ns ref (resolveConfig E c)"
  unfolding keeps_def by (auto intro: wpv_mono [OF resolve_frame])

lemma status_keeps: "keeps E view ns ref (reconcileStatus E c)"
  unfolding keeps_def
  by (intro allI impI wpv_status)
    (auto intro!: wpv_rules wpv_StatusUpdate dest: writes_settled(3) writes_only(3) intro: kept_frame)

lemma pipelines_config_keeps: "keeps E view ns ref (reconcileConfigMap E c)"
proof (cases "pipelinesKey c = (KConfigMap, ns, pipelines_cm ref)")
  case True
  then show ?thesis unfolding keeps_def reconcileConfigMap_def Let_def
    by (intro allI impI wpv_bind wpv_getConfigMap)
      (auto intro!: wpv_rules simp: stamped_def config_data_def split: option.splits)
qed (rule pipelines_config.step_keeps; simp)

lemma deployment_keeps: "keeps E view ns ref (reconcileDeployment E c cfg peerHash)"
proof (cases "deploymentKey c = (KDeployment, ns, ref)")
  case True
  show ?thesis unfolding keeps_def reconcileDeployment_parts
  proof (intro allI impI wpv_bind wpv_getDeployment, goal_cases)
    case (1 v ob d)
    then have "goget (pt_Annotations (d_Template d)) pipelinesHashAnnotation \<noteq> []"
      using True by (simp add: stamped_def pod_annotations_def)
    then have "kept E ns ref v w" if "write_result (update_effect (DeploymentObj (patchedDeployment c cfg peerHash d ct cts))) v r w"
      "pt_Containers (d_Template d) = ct # cts" for r w ct cts
      using that 1 True patched_kept [of c cfg peerHash d ct cts v w] by (auto simp: write_result_def)
    then show ?case using 1(1)
      by (auto intro!: wpv_rules wpv_Update split: list.split dest: writes_settled(2))
  qed (use True in \<open>auto simp: stamped_def pod_annotations_def intro!: wpv_rules\<close>)
qed (rule deployment.step_keeps; simp)

lemma cluster_step_keeps: "keeps E view ns ref (DataPrepperClusterReconciler_Reconcile E req)"
proof -
  have rest: "keeps E view ns ref
      (bindE (resolveConfig E c) (\<lambda>cfg.
       bindE (reconcileConfigMap E c) (\<lambda>_.
       bindE (reconcilePeerConfig E c) (\<lambda>peerHash.
       bindE (reconcileDeployment E c cfg peerHash) (\<lambda>_.
       bindE (reconcileService E c) (\<lambda>_.
       bindE (reconcileHeadlessService E c) (\<lambda>_.
       bindE (reconcileServiceMonitor E c) (\<lambda>_.
       bindE (reconcileHPA E c) (\<lambda>_.
       bindE (reconcileStatus E c) (\<lambda>_. returnE ()))))))))))" for c
    by (intro keeps_bindE resolve_keeps pipelines_config_keeps deployment_keeps status_keeps keeps_returnE
        peer_config.step_keeps service.step_keeps headless.step_keeps monitor.step_keeps hpa.step_keeps)
      (simp_all add: peer_not_pipelines)
  show ?thesis unfolding keeps_def DataPrepperClusterReconciler_Reconcile_def
  proof (intro allI impI wpv_bind wpv_getCluster, goal_cases)
    case (1 v ob c)
    with rest [of c] show ?case unfolding keeps_def by simp
  qed (auto intro!: wpv_rules)
qed

end

section \<open>Any number of reconciles\<close>

inductive reconciles :: "'s env \<Rightarrow> 's \<Rightarrow> 's \<Rightarrow> bool" for E s where
  start: "reconciles E s s"
| pipeline: "reconciles E s t \<Longrightarrow> run_state (DataPrepperPipelineReconciler_Reconcile E req) t = (r, u) \<Longrightarrow> reconciles E s u"
| cluster: "reconciles E s t \<Longrightarrow> run_state (DataPrepperClusterReconciler_Reconcile E req) t = (r, u) \<Longrightarrow> reconciles E s u"

lemma synced_stamped: "synced E v ns ref \<Longrightarrow> stamped v ns ref"
  by (auto simp: synced_def stamped_def in_sync_def)

lemma synced_step: "kept E ns ref v w \<Longrightarrow> keyed v \<Longrightarrow> keyed w \<Longrightarrow> synced E v ns ref \<Longrightarrow> synced E w ns ref"
  by (auto simp: kept_def intro: synced_kept)

context api_server
begin

lemma reconciles_synced:
  assumes "reconciles E s s'" "settled (view s)" "synced E (view s) ns ref"
  shows "settled (view s') \<and> synced E (view s') ns ref"
  using assms
proof induction
  case (pipeline t req r u)
  then have t: "settled (view t)" "synced E (view t) ns ref" by simp_all
  have "settled (view u)" by (rule wpvD [OF pipeline_step_settled [OF t(1)] refl pipeline(2)])
  moreover have "kept E ns ref (view t) (view u)"
    by (rule wpvD [OF pipeline_step_kept refl pipeline(2)]) (simp_all add: t(2))
  ultimately show ?case using synced_step t(2) keyed_view by blast
next
  case (cluster t req r u)
  then have t: "settled (view t)" "synced E (view t) ns ref" by simp_all
  from cluster_step_keeps [of ns ref req] t synced_stamped
  have "wpv view (DataPrepperClusterReconciler_Reconcile E req) (\<lambda>r w. settled w \<and> kept E ns ref (view t) w) (view t)"
    unfolding keeps_def by blast
  from wpvD [OF this refl cluster(2)] show ?case using synced_step t(2) keyed_view by blast
qed simp

end

text \<open>
  C4: the two controllers do not work against each other. Once the ConfigMap holds the merge of a
  cluster's pipelines and the Deployment carries its hash, this stays true through any number of
  reconciles of clusters and pipelines, in any order and whatever calls fail, until a user changes
  something.
\<close>

theorem controllers_keep_sync:
  assumes "api_server E view" "reconciles E s s'" "settled (view s)" "synced E (view s) ns ref"
  shows "synced E (view s') ns ref"
  using api_server.reconciles_synced [OF assms] by simp

lemma demo_synced:
  assumes "run_state (rebuildClusterConfig (mem_env all_kinds) ''default'' ''prepper'' []) demoStore = (Inr (), s1)"
  shows "settled (mem_view s1)" "synced (mem_env all_kinds) (mem_view s1) ''default'' ''prepper''"
proof -
  have spec: "settled (mem_view s1)" "rebuilt (mem_env all_kinds) (mem_view demoStore) ''default'' ''prepper'' [] (mem_view s1)"
    using wpvD [OF mem.rebuild_spec [OF demoStore_settled] refl assms] by simp_all
  have frame: "only_changes {(KConfigMap, ''default'', pipelines_cm ''prepper''), (KDeployment, ''default'', ''prepper'')}
      (mem_view demoStore) (mem_view s1)" by (rule wpvD [OF mem.rebuild_frame refl assms])
  show "settled (mem_view s1)" by (rule spec(1))
  have "mem_view demoStore (KPipeline, ''default'', []) = None" by (simp add: demoStore_def mem_view_def demo_defs)
  then have "mem_view s1 (KPipeline, ''default'', []) = None" using only_changesD [OF frame] by simp
  then show "synced (mem_env all_kinds) (mem_view s1) ''default'' ''prepper''"
    using rebuilt_in_sync [OF spec(2) frame] spec(2) by (auto simp: synced_def rebuilt_def entry_set_def)
qed

text \<open>After the demo configuration was rebuilt, reconciles of a pipeline and of the cluster leave it in sync.\<close>

theorem controllers_keep_sync_witness:
  "\<exists>s1 s2 s3 r2 r3. run_state (rebuildClusterConfig (mem_env all_kinds) ''default'' ''prepper'' []) demoStore = (Inr (), s1) \<and>
     run_state (DataPrepperPipelineReconciler_Reconcile (mem_env all_kinds) (''default'', ''one'')) s1 = (r2, s2) \<and>
     run_state (DataPrepperClusterReconciler_Reconcile (mem_env all_kinds) (''default'', ''prepper'')) s2 = (r3, s3) \<and>
     synced (mem_env all_kinds) (mem_view s3) ''default'' ''prepper''"
proof -
  let ?E = "mem_env all_kinds"
  obtain s1 where one: "run_state (rebuildClusterConfig ?E ''default'' ''prepper'' []) demoStore = (Inr (), s1)"
    by (rule demoStore_rebuild)
  obtain r2 s2 where two: "run_state (DataPrepperPipelineReconciler_Reconcile ?E (''default'', ''one'')) s1 = (r2, s2)"
    by (metis surj_pair)
  obtain r3 s3 where three: "run_state (DataPrepperClusterReconciler_Reconcile ?E (''default'', ''prepper'')) s2 = (r3, s3)"
    by (metis surj_pair)
  have "reconciles ?E s1 s3" by (rule reconciles.cluster [OF reconciles.pipeline [OF reconciles.start two] three])
  from controllers_keep_sync [OF mem.api_server_axioms this demo_synced [OF one]] one two three show ?thesis by blast
qed

end
