(* ===== verification/Rbac.thy ===== *)
theory Rbac
  imports Controllers
begin

text \<open>
  The permissions of the manager: the \<^verbatim>\<open>+kubebuilder:rbac\<close> markers of the two controllers, from which the
  ClusterRole of the service account is generated, and what a client call needs of them.
\<close>

section \<open>Definitions\<close>

record rbac_rule =
  rule_Group :: string
  rule_Resources :: "string list"
  rule_Verbs :: "string list"

definition readVerbs :: "string list" where
  "readVerbs = [''get'', ''list'', ''watch'']"

definition clusterControllerRBAC :: "rbac_rule list" where
  "clusterControllerRBAC =
     [\<lparr>rule_Group = ''dataprepper.gabia.com'', rule_Resources = [''dataprepperclusters''],
       rule_Verbs = readVerbs @ [''create'', ''update'', ''patch'', ''delete'']\<rparr>,
      \<lparr>rule_Group = ''dataprepper.gabia.com'', rule_Resources = [''dataprepperclusters/status''],
       rule_Verbs = [''get'', ''update'', ''patch'']\<rparr>,
      \<lparr>rule_Group = ''dataprepper.gabia.com'', rule_Resources = [''dataprepperclusters/finalizers''],
       rule_Verbs = [''update'']\<rparr>,
      \<lparr>rule_Group = ''dataprepper.gabia.com'', rule_Resources = [''dataprepperpipelines''], rule_Verbs = readVerbs\<rparr>,
      \<lparr>rule_Group = ''dataprepper.gabia.com'', rule_Resources = [''dataprepperclasses''], rule_Verbs = readVerbs\<rparr>,
      \<lparr>rule_Group = ''apps'', rule_Resources = [''deployments''],
       rule_Verbs = readVerbs @ [''create'', ''update'', ''patch'']\<rparr>,
      \<lparr>rule_Group = [], rule_Resources = [''configmaps'', ''services''],
       rule_Verbs = readVerbs @ [''create'', ''update'', ''patch'']\<rparr>,
      \<lparr>rule_Group = ''autoscaling'', rule_Resources = [''horizontalpodautoscalers''],
       rule_Verbs = readVerbs @ [''create'', ''update'', ''patch'', ''delete'']\<rparr>,
      \<lparr>rule_Group = ''monitoring.coreos.com'', rule_Resources = [''servicemonitors''],
       rule_Verbs = readVerbs @ [''create'', ''update'', ''patch'', ''delete'']\<rparr>]"

definition pipelineControllerRBAC :: "rbac_rule list" where
  "pipelineControllerRBAC =
     [\<lparr>rule_Group = ''dataprepper.gabia.com'', rule_Resources = [''dataprepperpipelines''],
       rule_Verbs = readVerbs @ [''create'', ''update'', ''patch'', ''delete'']\<rparr>,
      \<lparr>rule_Group = ''dataprepper.gabia.com'', rule_Resources = [''dataprepperpipelines/status''],
       rule_Verbs = [''get'', ''update'', ''patch'']\<rparr>,
      \<lparr>rule_Group = ''dataprepper.gabia.com'', rule_Resources = [''dataprepperpipelines/finalizers''],
       rule_Verbs = [''update'']\<rparr>,
      \<lparr>rule_Group = ''dataprepper.gabia.com'', rule_Resources = [''dataprepperclusters''], rule_Verbs = readVerbs\<rparr>,
      \<lparr>rule_Group = ''apps'', rule_Resources = [''deployments''],
       rule_Verbs = readVerbs @ [''update'', ''patch'']\<rparr>,
      \<lparr>rule_Group = [], rule_Resources = [''configmaps''],
       rule_Verbs = readVerbs @ [''update'', ''patch'']\<rparr>,
      \<lparr>rule_Group = [], rule_Resources = [''pods''], rule_Verbs = readVerbs\<rparr>]"

section \<open>What a call needs\<close>

fun resource_of :: "kind \<Rightarrow> string \<times> string" where
  "resource_of KCluster = (''dataprepper.gabia.com'', ''dataprepperclusters'')"
| "resource_of KClass = (''dataprepper.gabia.com'', ''dataprepperclasses'')"
| "resource_of KPipeline = (''dataprepper.gabia.com'', ''dataprepperpipelines'')"
| "resource_of KConfigMap = ([], ''configmaps'')"
| "resource_of KDeployment = (''apps'', ''deployments'')"
| "resource_of KService = ([], ''services'')"
| "resource_of KHPA = (''autoscaling'', ''horizontalpodautoscalers'')"
| "resource_of KServiceMonitor = (''monitoring.coreos.com'', ''servicemonitors'')"
| "resource_of KPod = ([], ''pods'')"

fun access_of :: "call \<Rightarrow> kind \<times> string \<times> string" where
  "access_of (CGet kd k) = (kd, [], ''get'')"
| "access_of (CList kd ns sel) = (kd, [], ''list'')"
| "access_of (CCreate ob) = (kind_of ob, [], ''create'')"
| "access_of (CUpdate ob) = (kind_of ob, [], ''update'')"
| "access_of (CStatusUpdate ob) = (kind_of ob, ''/status'', ''update'')"
| "access_of (CDelete ob) = (kind_of ob, [], ''delete'')"

definition grants :: "kind \<times> string \<times> string \<Rightarrow> rbac_rule \<Rightarrow> bool" where
  "grants a rule \<longleftrightarrow>
     (case a of (kd, sub, verb) \<Rightarrow>
        rule_Group rule = fst (resource_of kd) \<and> snd (resource_of kd) @ sub \<in> set (rule_Resources rule) \<and>
        verb \<in> set (rule_Verbs rule))"

definition permitted :: "rbac_rule list \<Rightarrow> call \<Rightarrow> bool" where
  "permitted rules c \<longleftrightarrow> list_ex (grants (access_of c)) rules"

lemmas permitted_eval =
  permitted_def grants_def clusterControllerRBAC_def pipelineControllerRBAC_def readVerbs_def

lemma cluster_permits [simp]:
  "permitted clusterControllerRBAC (CGet KCluster k)" "permitted clusterControllerRBAC (CGet KClass k)"
  "permitted clusterControllerRBAC (CGet KConfigMap k)" "permitted clusterControllerRBAC (CGet KDeployment k)"
  "permitted clusterControllerRBAC (CGet KService k)" "permitted clusterControllerRBAC (CGet KHPA k)"
  "permitted clusterControllerRBAC (CGet KServiceMonitor k)" "permitted clusterControllerRBAC (CList KPipeline ns sel)"
  "kind_of ob \<in> {KConfigMap, KDeployment, KService, KHPA, KServiceMonitor} \<Longrightarrow> permitted clusterControllerRBAC (CCreate ob)"
  "kind_of ob \<in> {KConfigMap, KDeployment, KService, KHPA, KServiceMonitor} \<Longrightarrow> permitted clusterControllerRBAC (CUpdate ob)"
  "kind_of ob = KCluster \<Longrightarrow> permitted clusterControllerRBAC (CStatusUpdate ob)"
  "kind_of ob \<in> {KHPA, KServiceMonitor} \<Longrightarrow> permitted clusterControllerRBAC (CDelete ob)"
  by (simp_all add: permitted_eval) (elim disjE; simp)+

lemma configmap_delete_not_permitted:
  "\<not> permitted (clusterControllerRBAC @ pipelineControllerRBAC) (CDelete (ConfigMapObj m))"
  by (simp add: permitted_eval)

lemma pipeline_permits [simp]:
  "permitted pipelineControllerRBAC (CGet KPipeline k)" "permitted pipelineControllerRBAC (CGet KCluster k)"
  "permitted pipelineControllerRBAC (CGet KConfigMap k)" "permitted pipelineControllerRBAC (CGet KDeployment k)"
  "permitted pipelineControllerRBAC (CList KPipeline ns sel)" "permitted pipelineControllerRBAC (CList KPod ns sel)"
  "permitted pipelineControllerRBAC (CUpdate (PipelineObj p))" "permitted pipelineControllerRBAC (CUpdate (ConfigMapObj m))"
  "permitted pipelineControllerRBAC (CUpdate (DeploymentObj d))" "permitted pipelineControllerRBAC (CStatusUpdate (PipelineObj p))"
  by (simp_all add: permitted_eval)

section \<open>The calls of the controllers\<close>

lemma emits_then: "emits A m (\<lambda>_. True) \<Longrightarrow> (\<And>r. emits A (f r) P) \<Longrightarrow> emits A (State_Monad.bind m f) P"
  by (rule emits_bind)

lemma emits_thenE: "emits A m (\<lambda>_. True) \<Longrightarrow> (\<And>x. emits A (f x) (\<lambda>_. True)) \<Longrightarrow> emits A (bindE m f) (\<lambda>_. True)"
  by (rule emits_bindE) auto

text \<open>The calls the markers cover, and those of the peer configuration's deletion.\<close>

abbreviation covered :: "call \<Rightarrow> bool" where
  "covered c \<equiv> permitted clusterControllerRBAC c \<or> (\<exists>m. c = CDelete (ConfigMapObj m))"

context api_server
begin

lemmas traced_machinery = api_server.axioms(1) [OF api_server_traced]

lemmas traced_parts =
  apimachinery.reconcileDeployment_parts [OF traced_machinery] apimachinery.reconcileService_parts [OF traced_machinery]
  apimachinery.reconcileHeadless_parts [OF traced_machinery] apimachinery.reconcileHPA_parts [OF traced_machinery]
  apimachinery.reconcileMonitor_parts [OF traced_machinery]

lemma children_permitted:
  "emits covered (reconcileConfigMap (traced E) c) (\<lambda>_. True)"
  "emits covered (reconcilePeerConfig (traced E) c) (\<lambda>_. True)"
  "emits covered (reconcileDeployment (traced E) c cfg h) (\<lambda>_. True)"
  "emits covered (reconcileService (traced E) c) (\<lambda>_. True)"
  "emits covered (reconcileHeadlessService (traced E) c) (\<lambda>_. True)"
  "emits covered (reconcileHPA (traced E) c) (\<lambda>_. True)"
  "emits covered (reconcileServiceMonitor (traced E) c) (\<lambda>_. True)"
  unfolding reconcileConfigMap_def reconcilePeerConfig_def traced_parts getAs_traced Let_def
  by (intro emits_then emits_record;
      auto intro!: emits_rules emits_thenE emits_then simp: SetControllerReference split: sum.splits list.splits option.splits)+

lemma config_permitted: "emits covered (resolveConfig (traced E) c) (\<lambda>_. True)"
  unfolding resolveConfig_def getAs_traced Let_def
  by (intro emits_thenE emits_if emits_then emits_record; auto intro!: emits_rules split: sum.splits)

lemma status_permitted: "emits covered (reconcileStatus (traced E) c) (\<lambda>_. True)"
  unfolding reconcileStatus_parts getAs_traced listAs_traced Let_def
  by (intro emits_thenE emits_then emits_record emits_silent emits_if emits_returnE traced_sel) (auto intro!: emits_rules emits_then)

lemma cluster_calls: "emits covered (DataPrepperClusterReconciler_Reconcile (traced E) req) (\<lambda>_. True)"
  unfolding DataPrepperClusterReconciler_Reconcile_def getAs_traced
  by (intro emits_then emits_record)
    (auto intro!: emits_thenE children_permitted config_permitted status_permitted emits_rules split: sum.splits)

end

text \<open>The pipeline controller needs no contract: the kinds of the objects it writes are in the code.\<close>

abbreviation may :: "call \<Rightarrow> bool" where
  "may \<equiv> permitted pipelineControllerRBAC"

lemma pipeline_parts_permitted:
  "emits may (rebuildClusterConfig (traced E) ns ref excl) (\<lambda>_. True)"
  "emits may (setStatus (traced E) p phase h) (\<lambda>_. True)"
  "emits may (inspectClusterHealth (traced E) ns ref) (\<lambda>_. True)"
  unfolding rebuild_parts writeContent_def stampHash_def setStatus_parts writeStatus_def inspectClusterHealth_def
    getAs_traced listAs_traced Let_def
  by (intro emits_thenE emits_then emits_record emits_if; auto intro!: emits_rules emits_thenE emits_then split: sum.splits)+

lemma pipeline_calls: "emits may (DataPrepperPipelineReconciler_Reconcile (traced E) req) (\<lambda>_. True)"
  unfolding Reconcile_parts handleFetched_def handleDeleted_def handleLive_def dropFinalizer_def getAs_traced
  by (intro emits_then emits_record; auto intro!: emits_rules emits_thenE emits_then pipeline_parts_permitted split: sum.splits)

section \<open>Properties\<close>

text \<open>
  C35: whatever the API server answers, every call a reconcile of a pipeline makes is permitted by the
  RBAC markers of the pipeline controller.
\<close>

theorem pipeline_calls_permitted:
  assumes "run_state (DataPrepperPipelineReconciler_Reconcile (traced E) req) (s, []) = (r, s', calls)"
  shows "list_all (permitted pipelineControllerRBAC) calls"
  using emitsD [OF pipeline_calls assms] by auto

theorem pipeline_calls_permitted_witness:
  "\<exists>r s' calls. run_state (DataPrepperPipelineReconciler_Reconcile (traced (mem_env all_kinds)) (''default'', ''one'')) (demoStore, []) =
     (r, s', calls) \<and> list_all (permitted pipelineControllerRBAC) calls"
proof -
  obtain r s' calls where run: "run_state (DataPrepperPipelineReconciler_Reconcile (traced (mem_env all_kinds)) (''default'', ''one'')) (demoStore, []) =
     (r, s', calls)" by (metis surj_pair)
  from pipeline_calls_permitted [OF run] run show ?thesis by blast
qed

text \<open>
  C36: every call a reconcile of a cluster makes is permitted by the RBAC markers of the cluster
  controller, except the deletion of a ConfigMap.
\<close>

theorem cluster_calls_permitted:
  assumes "api_server E view"
    and "run_state (DataPrepperClusterReconciler_Reconcile (traced E) req) (s, []) = (r, s', calls)"
  shows "list_all (\<lambda>c. permitted clusterControllerRBAC c \<or> (\<exists>m. c = CDelete (ConfigMapObj m))) calls"
  using emitsD [OF api_server.cluster_calls [OF assms(1)] assms(2)] by auto

theorem cluster_calls_permitted_witness:
  "\<exists>r s' calls. run_state (DataPrepperClusterReconciler_Reconcile (traced (mem_env all_kinds)) (''default'', ''prepper'')) (clusterDemo, []) =
     (r, s', calls) \<and> list_all (\<lambda>c. permitted clusterControllerRBAC c \<or> (\<exists>m. c = CDelete (ConfigMapObj m))) calls"
proof -
  obtain r s' calls where run: "run_state (DataPrepperClusterReconciler_Reconcile (traced (mem_env all_kinds)) (''default'', ''prepper'')) (clusterDemo, []) =
     (r, s', calls)" by (metis surj_pair)
  from cluster_calls_permitted [OF mem.api_server_axioms run] run show ?thesis by blast
qed

context available_server
begin

lemma peer_delete_called:
  assumes "installed KConfigMap" "cs_ServerConfigMap (c_Spec c) \<noteq> []" "v (peerKey c) \<noteq> None"
  shows "wpt view (reconcilePeerConfig (traced E) c) (\<lambda>r w cs. \<exists>m. CDelete (ConfigMapObj m) \<in> set cs) v"
proof -
  have del: "wpt view (bindE (Delete (traced E) (ConfigMapObj m)) (\<lambda>_. returnE []))
      (\<lambda>r w cs. \<exists>m. CDelete (ConfigMapObj m) \<in> set cs) v" for m
    unfolding traced_sel
    by (intro wpt_bindE wpt_record wpv_Delete) (auto split: sum.splits intro!: wpt_returnE)
  show ?thesis
    unfolding reconcilePeerConfig_def getAs_traced Let_def
    by (intro wpt_bind wpt_record up_getConfigMap assms(1)) (use assms(2,3) del in auto)
qed

end

text \<open>
  When a user supplies a server configuration, the operator deletes its own peer ConfigMap; neither
  controller's markers permit that, so against a server that enforces the generated role the reconcile of
  such a cluster cannot get past this step.
\<close>

theorem peer_config_delete_not_permitted:
  assumes "available_server E view installed" "installed KConfigMap"
    and "cs_ServerConfigMap (c_Spec c) \<noteq> []" "view s (peerKey c) \<noteq> None"
    and "run_state (reconcilePeerConfig (traced E) c) (s, []) = (r, s', calls)"
  shows "\<exists>call\<in>set calls. \<not> permitted (clusterControllerRBAC @ pipelineControllerRBAC) call"
  using wptD [OF available_server.peer_delete_called [of E view installed c "view s", OF assms(1-4)] refl assms(5)]
    configmap_delete_not_permitted by fastforce

end
