(* ===== verification/Registration.thy ===== *)
theory Registration
  imports Rbac
begin

text \<open>
  What wakes the controllers: the registrations of the two reconcilers with the manager
  (\<^verbatim>\<open>SetupWithManager\<close> in both controller files). The manager is a parameter, a function that performs
  a call. \<open>event_requests\<close> is the documented meaning of a registration: an event on an object of the
  kind given to \<^verbatim>\<open>For\<close> asks for a reconcile of that object, one on an object of a kind given to
  \<^verbatim>\<open>Owns\<close> for a reconcile of its controller, one on an object of a kind given to \<^verbatim>\<open>Watches\<close> for what the
  map function returns.
\<close>

section \<open>Definitions\<close>

type_synonym 's map_func = "kobject \<Rightarrow> ('s, namespaced_name list) state"

record 's controller =
  For :: kind
  Owns :: "kind list"
  Watches :: "(kind \<times> 's map_func) list"
  Named :: string
  Reconciler :: "namespaced_name \<Rightarrow> ('s, goerror + unit) state"

text \<open>The builder's last call, \<^verbatim>\<open>Complete\<close>, hands the registration to the manager.\<close>

definition DataPrepperClusterReconciler_SetupWithManager :: "'s env \<Rightarrow> ('s controller \<Rightarrow> 'r) \<Rightarrow> 'r" where
  "DataPrepperClusterReconciler_SetupWithManager E Complete =
     Complete \<lparr>For = KCluster, Owns = [KDeployment, KConfigMap, KService, KHPA], Watches = [],
               Named = ''datapreppercluster'', Reconciler = DataPrepperClusterReconciler_Reconcile E\<rparr>"

definition DataPrepperPipelineReconciler_SetupWithManager :: "'s env \<Rightarrow> ('s controller \<Rightarrow> 'r) \<Rightarrow> 'r" where
  "DataPrepperPipelineReconciler_SetupWithManager E Complete =
     Complete \<lparr>For = KPipeline, Owns = [],
               Watches = [(KConfigMap, findPipelinesForConfigMap E), (KCluster, findPipelinesForCluster E)],
               Named = ''dataprepperpipeline'', Reconciler = DataPrepperPipelineReconciler_Reconcile E\<rparr>"

section \<open>The meaning of a registration\<close>

abbreviation clusterController :: "'s env \<Rightarrow> 's controller" where
  "clusterController E \<equiv> DataPrepperClusterReconciler_SetupWithManager E (\<lambda>ctl. ctl)"

abbreviation pipelineController :: "'s env \<Rightarrow> 's controller" where
  "pipelineController E \<equiv> DataPrepperPipelineReconciler_SetupWithManager E (\<lambda>ctl. ctl)"

text \<open>The kind name an owner reference carries, for the kinds that own objects.\<close>

fun owner_kind :: "kind \<Rightarrow> string" where
  "owner_kind KCluster = ''DataPrepperCluster''"
| "owner_kind KClass = ''DataPrepperClass''"
| "owner_kind KPipeline = ''DataPrepperPipeline''"
| "owner_kind KConfigMap = ''ConfigMap''"
| "owner_kind KDeployment = ''Deployment''"
| "owner_kind KService = ''Service''"
| "owner_kind KHPA = ''HorizontalPodAutoscaler''"
| "owner_kind KServiceMonitor = ''ServiceMonitor''"
| "owner_kind KPod = ''Pod''"

definition self_requests :: "'s controller \<Rightarrow> kobject \<Rightarrow> namespaced_name list" where
  "self_requests ctl ob = (if kind_of ob = For ctl then [snd (obj_key ob)] else [])"

definition owner_requests :: "'s controller \<Rightarrow> kobject \<Rightarrow> namespaced_name list" where
  "owner_requests ctl ob =
     (if kind_of ob \<in> set (Owns ctl)
      then map (\<lambda>ref. (Namespace (obj_meta ob), or_Name ref))
             (filter (\<lambda>ref. or_Controller ref \<and> or_Kind ref = owner_kind (For ctl)) (OwnerReferences (obj_meta ob)))
      else [])"

fun watch_requests :: "(kind \<times> 's map_func) list \<Rightarrow> kobject \<Rightarrow> ('s, namespaced_name list) state" where
  "watch_requests [] ob = State_Monad.return []"
| "watch_requests ((kd, f) # ws) ob = do {
     here \<leftarrow> if kind_of ob = kd then f ob else State_Monad.return [];
     rest \<leftarrow> watch_requests ws ob;
     State_Monad.return (here @ rest) }"

definition event_requests :: "'s controller \<Rightarrow> kobject \<Rightarrow> ('s, namespaced_name list) state" where
  "event_requests ctl ob = do {
     watched \<leftarrow> watch_requests (Watches ctl) ob;
     State_Monad.return (self_requests ctl ob @ owner_requests ctl ob @ watched) }"

lemma cluster_event_requests_eq:
  "event_requests (clusterController E) ob =
     State_Monad.return (self_requests (clusterController E) ob @ owner_requests (clusterController E) ob)"
  by (rule state_ext) (simp add: event_requests_def DataPrepperClusterReconciler_SetupWithManager_def)

section \<open>Objects the cluster controller creates\<close>

definition watched_create :: "DataPrepperCluster \<Rightarrow> call \<Rightarrow> bool" where
  "watched_create c call \<longleftrightarrow>
     (case call of
        CCreate ob \<Rightarrow>
          OwnerReferences (obj_meta ob) = [controllerRef c] \<and> Namespace (obj_meta ob) = Namespace (c_Meta c) \<and>
          kind_of ob \<in> {KDeployment, KConfigMap, KService, KHPA, KServiceMonitor}
      | _ \<Rightarrow> True)"

lemma watched_create_simps [simp]:
  "watched_create c (CGet kd k)" "watched_create c (CList kd ns sel)" "watched_create c (CUpdate ob)"
  "watched_create c (CStatusUpdate ob)" "watched_create c (CDelete ob)"
  "watched_create c (CCreate ob) \<longleftrightarrow>
     OwnerReferences (obj_meta ob) = [controllerRef c] \<and> Namespace (obj_meta ob) = Namespace (c_Meta c) \<and>
     kind_of ob \<in> {KDeployment, KConfigMap, KService, KHPA, KServiceMonitor}"
  by (simp_all add: watched_create_def)

context api_server
begin

lemma children_watched:
  "emits (watched_create c) (reconcileConfigMap (traced E) c) (\<lambda>_. True)"
  "emits (watched_create c) (reconcilePeerConfig (traced E) c) (\<lambda>_. True)"
  "emits (watched_create c) (reconcileDeployment (traced E) c cfg h) (\<lambda>_. True)"
  "emits (watched_create c) (reconcileService (traced E) c) (\<lambda>_. True)"
  "emits (watched_create c) (reconcileHeadlessService (traced E) c) (\<lambda>_. True)"
  "emits (watched_create c) (reconcileHPA (traced E) c) (\<lambda>_. True)"
  "emits (watched_create c) (reconcileServiceMonitor (traced E) c) (\<lambda>_. True)"
  unfolding reconcileConfigMap_def reconcilePeerConfig_def traced_parts getAs_traced Let_def
  by (intro emits_then emits_record;
      auto intro!: emits_rules emits_thenE emits_then simp: SetControllerReference owned_by_def configMap_def object_meta_def
        split: sum.splits list.splits option.splits)+

lemma resolve_watched: "emits (watched_create c) (resolveConfig (traced E) c) (\<lambda>_. True)"
  unfolding resolveConfig_def getAs_traced Let_def
  by (intro emits_thenE emits_if emits_then emits_record; auto intro!: emits_rules split: sum.splits)

lemma status_watched: "emits (watched_create c) (reconcileStatus (traced E) c) (\<lambda>_. True)"
  unfolding reconcileStatus_parts getAs_traced listAs_traced Let_def
  by (intro emits_thenE emits_then emits_record emits_silent emits_if emits_returnE traced_sel) (auto intro!: emits_rules emits_then)

lemma cluster_creates_watched:
  assumes run: "run_state (DataPrepperClusterReconciler_Reconcile (traced E) req) (s, []) = (r, s', calls)"
    and ob: "CCreate ob \<in> set calls"
  shows "\<exists>c. view s (KCluster, req) = Some (ClusterObj c) \<and> watched_create c (CCreate ob)"
proof -
  obtain g s1 where got: "run_state (getAs E asCluster KCluster req) s = (g, s1)" by (metis surj_pair)
  have found: "wpv view (getAs E asCluster KCluster req) (\<lambda>g v. \<forall>c. g = Inr c \<longrightarrow> v (KCluster, req) = Some (ClusterObj c)) (view s)"
    by (rule wpv_getCluster) auto
  have "view s1 = view s" by (rule wpvD [OF wpv_getCluster refl got]) auto
  have rest: "emits (watched_create c)
      (bindE (resolveConfig (traced E) c) (\<lambda>cfg.
       bindE (reconcileConfigMap (traced E) c) (\<lambda>_.
       bindE (reconcilePeerConfig (traced E) c) (\<lambda>peerHash.
       bindE (reconcileDeployment (traced E) c cfg peerHash) (\<lambda>_.
       bindE (reconcileService (traced E) c) (\<lambda>_.
       bindE (reconcileHeadlessService (traced E) c) (\<lambda>_.
       bindE (reconcileServiceMonitor (traced E) c) (\<lambda>_.
       bindE (reconcileHPA (traced E) c) (\<lambda>_.
       bindE (reconcileStatus (traced E) c) (\<lambda>_. returnE ())))))))))) (\<lambda>_. True)" for c
    by (intro emits_thenE resolve_watched children_watched status_watched emits_returnE TrueI)
  show ?thesis
  proof (cases g)
    case (Inl e)
    then show ?thesis using run got ob
      by (auto simp: DataPrepperClusterReconciler_Reconcile_def getAs_traced split: if_splits)
  next
    case (Inr c)
    with wpvD [OF found refl got] \<open>view s1 = view s\<close> have "view s (KCluster, req) = Some (ClusterObj c)" by simp
    moreover obtain cs where "calls = [CGet KCluster req] @ cs" "list_all (watched_create c) cs"
      by (rule emitsD [OF rest]) (use run got Inr in \<open>auto simp: DataPrepperClusterReconciler_Reconcile_def getAs_traced\<close>)
    ultimately show ?thesis using ob by (auto simp: list_all_iff)
  qed
qed

end

section \<open>Properties\<close>

text \<open>
  C32: every object a reconcile of a cluster creates, a ServiceMonitor excepted, is watched: whoever
  changes or deletes it later, the event asks for a reconcile of this very cluster.
\<close>

theorem created_objects_watched:
  assumes "api_server E view"
    and "run_state (DataPrepperClusterReconciler_Reconcile (traced E) req) (s, []) = (r, s', calls)"
    and "CCreate ob \<in> set calls" "kind_of ob \<noteq> KServiceMonitor"
  shows "req \<in> set (fst (run_state (event_requests (clusterController E) ob) t))"
proof -
  obtain c where c: "view s (KCluster, req) = Some (ClusterObj c)" "watched_create c (CCreate ob)"
    using api_server.cluster_creates_watched [OF assms(1-3)] by blast
  from api_server.view_key [OF assms(1) c(1)] have "req = (Namespace (c_Meta c), Name (c_Meta c))" by simp
  with c(2) assms(4) show ?thesis unfolding cluster_event_requests_eq
    by (auto simp: owner_requests_def DataPrepperClusterReconciler_SetupWithManager_def controllerRef_def)
qed

text \<open>A server that knows clusters and ConfigMaps only: the reconcile stops after creating the pipelines ConfigMap.\<close>

definition onlyConfig :: "kind \<Rightarrow> bool" where
  "onlyConfig kd \<longleftrightarrow> kd \<in> {KCluster, KConfigMap}"

definition plainCluster :: DataPrepperCluster where
  "plainCluster = demoCluster\<lparr>c_Spec := demoSpec\<lparr>cs_ClassRef := [], cs_Image := ''data-prepper:2.15.0'', cs_ServerConfigMap := ''server''\<rparr>\<rparr>"

lemma plain_run:
  "\<exists>r s' calls ob. run_state (DataPrepperClusterReconciler_Reconcile (traced (mem_env onlyConfig)) (''default'', ''prepper''))
       (mem_of [ClusterObj plainCluster], []) = (r, s', calls) \<and> CCreate ob \<in> set calls \<and> kind_of ob = KConfigMap"
  by (simp add: DataPrepperClusterReconciler_Reconcile_def getAs_traced mem_eval demo_defs plainCluster_def onlyConfig_def
      resolveConfig_def reconcileConfigMap_def Let_def reconcilePeerConfig_def reconcileDeployment_def configMap_def
      owned_by_def peerConfigMapName_def)

theorem created_objects_watched_witness:
  "\<exists>r s' calls ob. run_state (DataPrepperClusterReconciler_Reconcile (traced (mem_env onlyConfig)) (''default'', ''prepper''))
       (mem_of [ClusterObj plainCluster], []) = (r, s', calls) \<and> CCreate ob \<in> set calls \<and> kind_of ob = KConfigMap \<and>
     (''default'', ''prepper'') \<in> set (fst (run_state (event_requests (clusterController (mem_env onlyConfig)) ob) s'))"
proof -
  obtain r s' calls ob where run: "run_state (DataPrepperClusterReconciler_Reconcile (traced (mem_env onlyConfig)) (''default'', ''prepper''))
       (mem_of [ClusterObj plainCluster], []) = (r, s', calls)" "CCreate ob \<in> set calls" "kind_of ob = KConfigMap"
    using plain_run by blast
  from created_objects_watched [OF mem.api_server_axioms run(1,2), of s'] run show ?thesis by auto
qed

context available_server
begin

lemma pipeline_cluster_event:
  assumes "installed KPipeline"
  shows "wpv view (event_requests (pipelineController E) (ClusterObj c))
     (\<lambda>reqs w. w = v \<and> set reqs =
        (\<lambda>p. (ns_of p, Name (p_Meta p))) ` {p \<in> stored_pipelines v (cns c). ref_of p = cname c}) v"
  by (auto simp: event_requests_def DataPrepperPipelineReconciler_SetupWithManager_def self_requests_def owner_requests_def
      findPipelinesForCluster_def set_requestsFor intro!: wpv_bind up_listPipelines assms wpv_return)

end

text \<open>
  An event on a cluster, its creation and its deletion included, wakes exactly the pipelines that
  refer to it: the pipeline controller's requests are those of the stored pipelines of the namespace
  with this cluster reference.
\<close>

theorem cluster_event_wakes_pipelines:
  assumes "available_server E view installed" "installed KPipeline"
    and "run_state (event_requests (pipelineController E) (ClusterObj c)) s = (reqs, s')"
  shows "view s' = view s \<and>
    set reqs = (\<lambda>p. (Namespace (p_Meta p), Name (p_Meta p))) `
      {p \<in> stored_pipelines (view s) (Namespace (c_Meta c)). ps_ClusterRef (p_Spec p) = Name (c_Meta c)}"
  using wpvD [OF available_server.pipeline_cluster_event [OF assms(1,2)] refl assms(3)] .

theorem cluster_event_wakes_pipelines_witness:
  "set (fst (run_state (event_requests (pipelineController (mem_env all_kinds)) (ClusterObj demoCluster)) demoStore)) =
     {(''default'', ''one''), (''default'', ''two'')}"
proof -
  have "set (fst (run_state (event_requests (pipelineController (mem_env all_kinds)) (ClusterObj demoCluster)) demoStore)) =
    (\<lambda>p. (Namespace (p_Meta p), Name (p_Meta p))) ` {p \<in> stored_pipelines (mem_view demoStore) ''default''. ps_ClusterRef (p_Spec p) = ''prepper''}"
    using cluster_event_wakes_pipelines [OF mem.available_server_axioms, of all_kinds demoCluster demoStore, OF _ surjective_pairing]
    by (simp add: demoCluster_def demo_metas)
  moreover have "{p \<in> stored_pipelines (mem_view demoStore) ''default''. ps_ClusterRef (p_Spec p) = ''prepper''} =
      {demoPipeline ''one'' ''logs'', demoPipeline ''two'' ''traces''}"
    unfolding demoStore_pipelines by (auto simp: demoPipeline_def)
  ultimately show ?thesis by (simp add: demoPipeline_def demo_metas)
qed

text \<open>
  No controller is woken by a change of a DataPrepperClass, and the pipeline controller is not woken by a
  Deployment.
\<close>

theorem class_changes_not_watched:
  "event_requests (clusterController E) (ClassObj k) = State_Monad.return []"
  "event_requests (pipelineController E) (ClassObj k) = State_Monad.return []"
  by (rule state_ext;
      simp add: event_requests_def self_requests_def owner_requests_def DataPrepperClusterReconciler_SetupWithManager_def
        DataPrepperPipelineReconciler_SetupWithManager_def)+

theorem deployment_changes_not_watched:
  "event_requests (pipelineController E) (DeploymentObj d) = State_Monad.return []"
  by (rule state_ext) (simp add: event_requests_def self_requests_def owner_requests_def DataPrepperPipelineReconciler_SetupWithManager_def)

end
