(* ===== verification/Flags.thy ===== *)
theory Flags
  imports Prelude
begin

text \<open>
  cmd/main.go, first part: the command-line flags of the manager and their parsing by the standard
  library's \<^verbatim>\<open>flag\<close> package. The flags that imported packages bind (those of the zap logger, and the
  kubeconfig flag) are a parameter: for a name it tells whether it is a boolean flag and which values it
  accepts.
\<close>

section \<open>Definitions\<close>

record flag_values =
  metricsAddr :: string
  probeAddr :: string
  enableLeaderElection :: bool
  secureMetrics :: bool
  webhookCertPath :: string
  webhookCertName :: string
  webhookCertKey :: string
  metricsCertPath :: string
  metricsCertName :: string
  metricsCertKey :: string
  enableHTTP2 :: bool

datatype flag_var =
    StringVar "string \<Rightarrow> flag_values \<Rightarrow> flag_values"
  | BoolVar "bool \<Rightarrow> flag_values \<Rightarrow> flag_values"
  | ForeignVar bool "string \<Rightarrow> bool"

definition flagDefaults :: flag_values where
  "flagDefaults =
     \<lparr>metricsAddr = ''0'', probeAddr = '':8081'', enableLeaderElection = False, secureMetrics = True,
      webhookCertPath = [], webhookCertName = ''tls.crt'', webhookCertKey = ''tls.key'',
      metricsCertPath = [], metricsCertName = ''tls.crt'', metricsCertKey = ''tls.key'', enableHTTP2 = False\<rparr>"

definition flagTable :: "(string \<times> flag_var) list" where
  "flagTable =
     [(''metrics-bind-address'', StringVar (\<lambda>x fl. fl\<lparr>metricsAddr := x\<rparr>)),
      (''health-probe-bind-address'', StringVar (\<lambda>x fl. fl\<lparr>probeAddr := x\<rparr>)),
      (''leader-elect'', BoolVar (\<lambda>b fl. fl\<lparr>enableLeaderElection := b\<rparr>)),
      (''metrics-secure'', BoolVar (\<lambda>b fl. fl\<lparr>secureMetrics := b\<rparr>)),
      (''webhook-cert-path'', StringVar (\<lambda>x fl. fl\<lparr>webhookCertPath := x\<rparr>)),
      (''webhook-cert-name'', StringVar (\<lambda>x fl. fl\<lparr>webhookCertName := x\<rparr>)),
      (''webhook-cert-key'', StringVar (\<lambda>x fl. fl\<lparr>webhookCertKey := x\<rparr>)),
      (''metrics-cert-path'', StringVar (\<lambda>x fl. fl\<lparr>metricsCertPath := x\<rparr>)),
      (''metrics-cert-name'', StringVar (\<lambda>x fl. fl\<lparr>metricsCertName := x\<rparr>)),
      (''metrics-cert-key'', StringVar (\<lambda>x fl. fl\<lparr>metricsCertKey := x\<rparr>)),
      (''enable-http2'', BoolVar (\<lambda>b fl. fl\<lparr>enableHTTP2 := b\<rparr>))]"

section \<open>The flag package\<close>

type_synonym foreign_flags = "string \<Rightarrow> (bool \<times> (string \<Rightarrow> bool)) option"

definition lookupFlag :: "foreign_flags \<Rightarrow> string \<Rightarrow> flag_var option" where
  "lookupFlag foreign n =
     (case map_of flagTable n of
        Some f \<Rightarrow> Some f
      | None \<Rightarrow> (case foreign n of None \<Rightarrow> None | Some (b, accepts) \<Rightarrow> Some (ForeignVar b accepts)))"

text \<open>\<^verbatim>\<open>strconv.ParseBool\<close>\<close>

definition ParseBool :: "string \<Rightarrow> bool option" where
  "ParseBool x =
     (if x \<in> {''1'', ''t'', ''T'', ''TRUE'', ''true'', ''True''} then Some True
      else if x \<in> {''0'', ''f'', ''F'', ''FALSE'', ''false'', ''False''} then Some False
      else None)"

fun isBoolFlag :: "flag_var \<Rightarrow> bool" where
  "isBoolFlag (StringVar f) = False"
| "isBoolFlag (BoolVar f) = True"
| "isBoolFlag (ForeignVar b accepts) = b"

fun setFlag :: "flag_var \<Rightarrow> string \<Rightarrow> flag_values \<Rightarrow> flag_values option" where
  "setFlag (StringVar f) x fl = Some (f x fl)"
| "setFlag (BoolVar f) x fl = (case ParseBool x of None \<Rightarrow> None | Some b \<Rightarrow> Some (f b fl))"
| "setFlag (ForeignVar b accepts) x fl = (if accepts x then Some fl else None)"

datatype flag_error = BadFlagSyntax | FlagNotDefined | ErrHelp | InvalidValue | FlagNeedsArgument

text \<open>The name and the value of \<^verbatim>\<open>name=value\<close>; no value without an equals sign.\<close>

definition splitFlag :: "string \<Rightarrow> string \<times> string option" where
  "splitFlag s =
     (let n = takeWhile (\<lambda>c. c \<noteq> CHR ''='') s; rest = dropWhile (\<lambda>c. c \<noteq> CHR ''='') s in
      (n, if rest = [] then None else Some (tl rest)))"

text \<open>
  \<^verbatim>\<open>FlagSet.parseOne\<close>: None when the first argument is not a flag; otherwise the arguments left and the
  new values. \<open>assign\<close> is its last part, after the flag was found.
\<close>

definition assign ::
  "flag_var \<Rightarrow> string option \<Rightarrow> string list \<Rightarrow> flag_values \<Rightarrow> flag_error + (string list \<times> flag_values)" where
  "assign f v args fl =
     (if isBoolFlag f then
        (case setFlag f (case v of None \<Rightarrow> ''true'' | Some x \<Rightarrow> x) fl of
           None \<Rightarrow> Inl InvalidValue | Some p \<Rightarrow> Inr (args, p))
      else
        (case v of
           Some x \<Rightarrow> (case setFlag f x fl of None \<Rightarrow> Inl InvalidValue | Some p \<Rightarrow> Inr (args, p))
         | None \<Rightarrow>
             (case args of
                [] \<Rightarrow> Inl FlagNeedsArgument
              | x # rest \<Rightarrow> (case setFlag f x fl of None \<Rightarrow> Inl InvalidValue | Some p \<Rightarrow> Inr (rest, p)))))"

definition bareName :: "string \<Rightarrow> string" where
  "bareName s = (if s ! 1 = CHR ''-'' then drop 2 s else drop 1 s)"

fun parseOne :: "foreign_flags \<Rightarrow> string list \<Rightarrow> flag_values \<Rightarrow> flag_error + (string list \<times> flag_values) option" where
  "parseOne foreign [] fl = Inr None"
| "parseOne foreign (s # args) fl =
     (if length s < 2 \<or> hd s \<noteq> CHR ''-'' \<or> s = ''--'' then Inr None
      else
        let name = bareName s in
        if name = [] \<or> hd name = CHR ''-'' \<or> hd name = CHR ''='' then Inl BadFlagSyntax
        else
          (case lookupFlag foreign (fst (splitFlag name)) of
             None \<Rightarrow> Inl (if fst (splitFlag name) \<in> {''help'', ''h''} then ErrHelp else FlagNotDefined)
           | Some f \<Rightarrow> map_sum id Some (assign f (snd (splitFlag name)) args fl)))"

text \<open>The name in a command-line argument.\<close>

definition flagName :: "string \<Rightarrow> string" where
  "flagName s = fst (splitFlag (bareName s))"

text \<open>A step sets the flag the first argument names and consumes that argument, or it and the next.\<close>

lemma assign_SomeE:
  assumes "assign f v args fl = Inr (rest, p)"
  obtains x where "setFlag f x fl = Some p" "rest = args \<or> (\<exists>y. args = y # rest)"
  using assms by (auto simp: assign_def split: if_splits option.splits list.splits)

lemma parseOne_SomeE:
  assumes "parseOne foreign args fl = Inr (Some (rest, p))"
  obtains s more f x where "args = s # more" "lookupFlag foreign (flagName s) = Some f" "setFlag f x fl = Some p"
    "rest = more \<or> (\<exists>y. more = y # rest)"
proof (cases args)
  case (Cons s more)
  from assms Cons obtain f where f: "lookupFlag foreign (flagName s) = Some f"
    and "map_sum id Some (assign f (snd (splitFlag (bareName s))) more fl) = Inr (Some (rest, p))"
    by (auto simp: flagName_def Let_def simp del: insert_iff split: if_splits option.splits)
  then have "assign f (snd (splitFlag (bareName s))) more fl = Inr (rest, p)"
    by (cases "assign f (snd (splitFlag (bareName s))) more fl") auto
  with that Cons f show ?thesis by (metis assign_SomeE)
qed (use assms in simp)

text \<open>\<^verbatim>\<open>FlagSet.Parse\<close>\<close>

function parseFlags :: "foreign_flags \<Rightarrow> string list \<Rightarrow> flag_values \<Rightarrow> flag_error + flag_values" where
  "parseFlags foreign args fl =
     (case parseOne foreign args fl of
        Inl err \<Rightarrow> Inl err
      | Inr None \<Rightarrow> Inr fl
      | Inr (Some (rest, p)) \<Rightarrow> parseFlags foreign rest p)"
  by pat_completeness auto

termination
  by (relation "measure (\<lambda>(_, args, _). length args)") (auto elim: parseOne_SomeE)

declare parseFlags.simps [simp del]

section \<open>Reading back what was written\<close>

definition boolText :: "bool \<Rightarrow> string" where
  "boolText b = (if b then ''true'' else ''false'')"

definition assignment :: "string \<Rightarrow> string \<Rightarrow> string" where
  "assignment n x = ''--'' @ n @ ''='' @ x"

text \<open>A command line that sets every flag.\<close>

definition renderFlags :: "flag_values \<Rightarrow> string list" where
  "renderFlags fl =
     [assignment ''metrics-bind-address'' (metricsAddr fl), assignment ''health-probe-bind-address'' (probeAddr fl),
      assignment ''leader-elect'' (boolText (enableLeaderElection fl)),
      assignment ''metrics-secure'' (boolText (secureMetrics fl)),
      assignment ''webhook-cert-path'' (webhookCertPath fl), assignment ''webhook-cert-name'' (webhookCertName fl),
      assignment ''webhook-cert-key'' (webhookCertKey fl), assignment ''metrics-cert-path'' (metricsCertPath fl),
      assignment ''metrics-cert-name'' (metricsCertName fl), assignment ''metrics-cert-key'' (metricsCertKey fl),
      assignment ''enable-http2'' (boolText (enableHTTP2 fl))]"

lemma splitFlag_eq:
  assumes "CHR ''='' \<notin> set n"
  shows "splitFlag (n @ ''='' @ x) = (n, Some x)"
proof -
  have "takeWhile (\<lambda>c. c \<noteq> CHR ''='') (n @ ''='' @ x) = n" "dropWhile (\<lambda>c. c \<noteq> CHR ''='') (n @ ''='' @ x) = ''='' @ x"
    using assms by (induction n) auto
  then show ?thesis by (simp add: splitFlag_def)
qed

lemma ParseBool_text [simp]: "ParseBool (boolText b) = Some b"
  by (simp add: ParseBool_def boolText_def)

text \<open>One assignment \<^verbatim>\<open>--name=value\<close> to a known flag.\<close>

lemma parse_assignment:
  assumes "lookupFlag foreign n = Some f" "n \<noteq> []" "CHR ''='' \<notin> set n" "hd n \<noteq> CHR ''-''" "setFlag f x fl = Some p"
  shows "parseFlags foreign (assignment n x # args) fl = parseFlags foreign args p"
proof -
  have "hd (n @ ''='' @ x) \<noteq> CHR ''-''" "hd (n @ ''='' @ x) \<noteq> CHR ''=''" using assms(2-4) by (cases n; auto)+
  moreover have "assignment n x ! 1 = CHR ''-''" "drop 2 (assignment n x) = n @ ''='' @ x" "hd (assignment n x) = CHR ''-''"
    "\<not> length (assignment n x) < 2" "assignment n x \<noteq> ''--''" using assms(2) by (simp_all add: assignment_def)
  ultimately have "parseOne foreign (assignment n x # args) fl = Inr (Some (args, p))"
    using assms splitFlag_eq [OF assms(3), of x] by (simp add: assign_def bareName_def del: append_Cons)
  then show ?thesis by (simp add: parseFlags.simps)
qed

lemma flag_names [simp]:
  "lookupFlag foreign ''metrics-bind-address'' = Some (StringVar (\<lambda>x fl. fl\<lparr>metricsAddr := x\<rparr>))"
  "lookupFlag foreign ''health-probe-bind-address'' = Some (StringVar (\<lambda>x fl. fl\<lparr>probeAddr := x\<rparr>))"
  "lookupFlag foreign ''leader-elect'' = Some (BoolVar (\<lambda>b fl. fl\<lparr>enableLeaderElection := b\<rparr>))"
  "lookupFlag foreign ''metrics-secure'' = Some (BoolVar (\<lambda>b fl. fl\<lparr>secureMetrics := b\<rparr>))"
  "lookupFlag foreign ''webhook-cert-path'' = Some (StringVar (\<lambda>x fl. fl\<lparr>webhookCertPath := x\<rparr>))"
  "lookupFlag foreign ''webhook-cert-name'' = Some (StringVar (\<lambda>x fl. fl\<lparr>webhookCertName := x\<rparr>))"
  "lookupFlag foreign ''webhook-cert-key'' = Some (StringVar (\<lambda>x fl. fl\<lparr>webhookCertKey := x\<rparr>))"
  "lookupFlag foreign ''metrics-cert-path'' = Some (StringVar (\<lambda>x fl. fl\<lparr>metricsCertPath := x\<rparr>))"
  "lookupFlag foreign ''metrics-cert-name'' = Some (StringVar (\<lambda>x fl. fl\<lparr>metricsCertName := x\<rparr>))"
  "lookupFlag foreign ''metrics-cert-key'' = Some (StringVar (\<lambda>x fl. fl\<lparr>metricsCertKey := x\<rparr>))"
  "lookupFlag foreign ''enable-http2'' = Some (BoolVar (\<lambda>b fl. fl\<lparr>enableHTTP2 := b\<rparr>))"
  by (simp_all add: lookupFlag_def flagTable_def)

text \<open>
  C40: parsing a command line that sets every flag gives back exactly the values it was written from,
  whatever the values are and whatever flags the logging package adds.
\<close>

theorem flags_roundtrip: "parseFlags foreign (renderFlags fl) flagDefaults = Inr fl"
  by (simp add: renderFlags_def parse_assignment parseFlags.simps [of foreign "[]"] flagDefaults_def)

lemma setFlag_http2:
  "lookupFlag foreign n = Some f \<Longrightarrow> n \<noteq> ''enable-http2'' \<Longrightarrow> setFlag f x fl = Some p \<Longrightarrow> enableHTTP2 p = enableHTTP2 fl"
  by (auto simp: lookupFlag_def flagTable_def split: if_splits option.splits)

text \<open>A command line that does not name a flag leaves it alone.\<close>

lemma parse_keeps_http2:
  "parseFlags foreign args fl = Inr p \<Longrightarrow> list_all (\<lambda>s. flagName s \<noteq> ''enable-http2'') args \<Longrightarrow> enableHTTP2 p = enableHTTP2 fl"
proof (induction foreign args fl rule: parseFlags.induct)
  case (1 foreign args fl)
  show ?case
  proof (cases "parseOne foreign args fl")
    case (Inr step)
    show ?thesis
    proof (cases step)
      case (Some pair)
      obtain rest q where [simp]: "pair = (rest, q)" by (cases pair)
      from Inr Some obtain s more f x where set: "args = s # more" "lookupFlag foreign (flagName s) = Some f"
        "setFlag f x fl = Some q" "rest = more \<or> (\<exists>y. more = y # rest)" by (auto elim: parseOne_SomeE)
      have "parseFlags foreign rest q = Inr p" using 1(2) Inr Some by (simp add: parseFlags.simps [of foreign args])
      moreover have "list_all (\<lambda>s. flagName s \<noteq> ''enable-http2'') rest" using 1(3) set(1,4) by auto
      ultimately have "enableHTTP2 p = enableHTTP2 q" using 1(1) [OF Inr Some] by simp
      then show ?thesis using setFlag_http2 [OF set(2) _ set(3)] 1(3) set(1) by simp
    qed (use 1(2) Inr in \<open>simp add: parseFlags.simps\<close>)
  qed (use 1(2) in \<open>simp add: parseFlags.simps\<close>)
qed

end
