(* ===== verification/Admission.thy ===== *)
theory Admission
  imports Controllers Pipeline_Webhook
begin

text \<open>
  The pipeline webhook and the controllers together: what holds of the stored pipelines when users create,
  update and delete pipelines through the webhook while the controllers run. A request is admitted and
  stored before the next one is looked at.
\<close>

section \<open>The invariant\<close>

text \<open>The specs of the stored pipelines, by namespace and name.\<close>

definition specs :: "store \<Rightarrow> namespaced_name \<Rightarrow> DataPrepperPipelineSpec option" where
  "specs v k = map_option p_Spec (Option.bind (v (KPipeline, k)) asPipeline)"

definition well_formed_spec :: "DataPrepperPipelineSpec \<Rightarrow> bool" where
  "well_formed_spec s \<longleftrightarrow>
     TrimSpace (ps_YAMLKey s) \<noteq> [] \<and>
     (case Unmarshal (ps_Pipeline s) of Inl e \<Rightarrow> False | Inr ks \<Rightarrow> ''source'' \<in> set ks \<and> ''sink'' \<in> set ks)"

text \<open>Every definition is well formed and no two pipelines of a namespace render one key into one cluster.\<close>

definition admissible :: "(namespaced_name \<Rightarrow> DataPrepperPipelineSpec option) \<Rightarrow> bool" where
  "admissible f \<longleftrightarrow>
     (\<forall>ns n s. f (ns, n) = Some s \<longrightarrow>
        well_formed_spec s \<and>
        (\<forall>m t. f (ns, m) = Some t \<longrightarrow> ps_ClusterRef t = ps_ClusterRef s \<longrightarrow> ps_YAMLKey t = ps_YAMLKey s \<longrightarrow> m = n))"

lemma well_formed_definition_spec: "well_formed_definition p = well_formed_spec (p_Spec p)"
  by (simp add: well_formed_definition_def well_formed_spec_def)

lemma specs_Some: "v (KPipeline, k) = Some (PipelineObj p) \<Longrightarrow> specs v k = Some (p_Spec p)"
  by (simp add: specs_def)

lemma specs_SomeD: "specs v k = Some s \<Longrightarrow> \<exists>p. v (KPipeline, k) = Some (PipelineObj p) \<and> p_Spec p = s"
  by (auto simp: specs_def bind_eq_Some_conv)

lemma slot_free_specs:
  assumes "keyed v" "slot_free v p" "specs v (ns_of p, m) = Some t"
    and "ps_ClusterRef t = ref_of p" "ps_YAMLKey t = yaml_key p"
  shows "m = Name (p_Meta p)"
proof -
  from specs_SomeD [OF assms(3)] obtain q where q: "v (KPipeline, ns_of p, m) = Some (PipelineObj q)" "p_Spec q = t" by blast
  then have "Name (p_Meta q) = m" using assms(1) unfolding keyed_def by fastforce
  moreover have "q \<in> stored_pipelines v (ns_of p)" using q(1) by (auto simp: stored_pipelines_def)
  ultimately show ?thesis using assms(2,4,5) q(2) by (auto simp: slot_free_def same_slot_def)
qed

lemma admissible_sub: "admissible f \<Longrightarrow> (\<And>k s. g k = Some s \<Longrightarrow> f k = Some s) \<Longrightarrow> admissible g"
  unfolding admissible_def by blast

lemma admissible_del: "admissible f \<Longrightarrow> admissible (f(k := None))"
  by (erule admissible_sub) (simp split: if_splits)

lemma admissible_put:
  assumes "admissible (specs v)" "keyed v" "well_formed_definition p" "slot_free v p"
  shows "admissible ((specs v)((ns_of p, Name (p_Meta p)) \<mapsto> p_Spec p))"
  unfolding admissible_def
  using assms(1,3) slot_free_specs [OF assms(2,4)]
  by (auto simp: well_formed_definition_spec admissible_def split: if_splits)

lemma specs_kept: "pipelines_kept E v w \<Longrightarrow> specs w k = Some s \<Longrightarrow> specs v k = Some s"
  using pipelines_keptD [of E v w k] by (auto simp: pipeline_kept_def specs_def bind_eq_Some_conv)

lemma admissible_kept: "admissible (specs v) \<Longrightarrow> pipelines_kept E v w \<Longrightarrow> admissible (specs w)"
  by (erule admissible_sub) (rule specs_kept)

lemma specs_upd:
  "specs (v((KPipeline, k) \<mapsto> PipelineObj p)) = (specs v)(k \<mapsto> p_Spec p)" "specs (v((KPipeline, k) := None)) = (specs v)(k := None)"
  by (rule ext, simp add: specs_def)+

lemma create_specs:
  assumes "create_effect (PipelineObj p) v w"
  shows "specs w = (specs v)((ns_of p, Name (p_Meta p)) \<mapsto> p_Spec p)"
proof -
  from assms obtain p' where "w = v(pkey p \<mapsto> PipelineObj p')" "p_Spec p' = p_Spec p"
    by (auto simp: create_effect_def stored_as_def)
  then show ?thesis by (simp add: specs_upd)
qed

lemma update_specs:
  assumes "update_effect (PipelineObj p) v w"
  shows "specs w = (specs v)((ns_of p, Name (p_Meta p)) \<mapsto> p_Spec p) \<or> specs w = (specs v)((ns_of p, Name (p_Meta p)) := None)"
proof -
  from assms consider "w = v(pkey p := None)" | p' where "w = v(pkey p \<mapsto> PipelineObj p')" "p_Spec p' = p_Spec p"
    by (auto simp: update_effect_def stored_as_def split: if_splits)
  then show ?thesis by cases (simp_all add: specs_upd)
qed

lemma delete_specs:
  assumes "delete_effect (PipelineObj p) v w" "keyed v"
  shows "specs w = specs v \<or> specs w = (specs v)((ns_of p, Name (p_Meta p)) := None)"
proof -
  from assms(1) obtain old where old: "v (pkey p) = Some old" by (auto simp: delete_effect_def)
  then have "obj_key old = pkey p" using assms(2) unfolding keyed_def by blast
  then obtain q where q: "old = PipelineObj q" by (cases old) auto
  from assms(1) old consider "w = v(pkey p := None)" | q' where "w = v(pkey p \<mapsto> PipelineObj q')" "p_Spec q' = p_Spec q"
    by (auto simp: delete_effect_def stored_as_def q split: if_splits)
  then show ?thesis using specs_Some [of v "(ns_of p, Name (p_Meta p))" q] old q
    by cases (simp_all add: specs_upd fun_upd_idem)
qed

section \<open>Users and controllers\<close>

text \<open>
  One step of the system: a create, an update or a deletion of a pipeline that the webhook admitted and the
  server stored, or a reconcile of either controller with any outcome.
\<close>

inductive pipelines_step :: "'s env \<Rightarrow> ('s \<Rightarrow> store) \<Rightarrow> 's \<Rightarrow> 's \<Rightarrow> bool" for E view where
  create: "run_state (DataPrepperPipelineCustomValidator_ValidateCreate (Some E) p) s = ((ws, Inr ()), t) \<Longrightarrow>
    create_effect (PipelineObj p) (view t) (view u) \<Longrightarrow> pipelines_step E view s u"
| update: "run_state (DataPrepperPipelineCustomValidator_ValidateUpdate (Some E) old p) s = ((ws, Inr ()), t) \<Longrightarrow>
    update_effect (PipelineObj p) (view t) (view u) \<Longrightarrow> pipelines_step E view s u"
| delete: "run_state (DataPrepperPipelineCustomValidator_ValidateDelete (Some E) p) s = ((ws, Inr ()), t) \<Longrightarrow>
    delete_effect (PipelineObj p) (view t) (view u) \<Longrightarrow> pipelines_step E view s u"
| reconcile_pipeline: "run_state (DataPrepperPipelineReconciler_Reconcile E req) s = (r, u) \<Longrightarrow> pipelines_step E view s u"
| reconcile_cluster: "run_state (DataPrepperClusterReconciler_Reconcile E req) s = (r, u) \<Longrightarrow> pipelines_step E view s u"

inductive_cases pipelines_stepE: "pipelines_step E view s u"

context api_server
begin

lemma validate_sound:
  "wpv view (DataPrepperPipelineCustomValidator_validate (Some E) p)
     (\<lambda>r w. w = v \<and> (r = Inr () \<longrightarrow> well_formed_definition p \<and> slot_free v p)) v"
proof (cases "validatePipelineDefinition p")
  case (Inr u)
  then have "well_formed_definition p" by (simp add: validatePipelineDefinition_ok [symmetric])
  with Inr show ?thesis unfolding DataPrepperPipelineCustomValidator_validate_def
    by (simp, intro wpv_bind wpv_listPipelines)
      (auto intro!: wpv_rules simp: checkYAMLKeyUnused_ok slot_free_def)
qed (simp add: DataPrepperPipelineCustomValidator_validate_def wpv_throwE)

lemma admission_sound:
  assumes "run_state (DataPrepperPipelineCustomValidator_validate (Some E) p) s = (Inr (), t)"
  shows "view t = view s" "well_formed_definition p" "slot_free (view s) p"
  using wpvD [OF validate_sound refl assms] by simp_all

lemma cluster_step_pipelines:
  assumes "settled (view s)" "run_state (DataPrepperClusterReconciler_Reconcile E req) s = (r, u)"
  shows "settled (view u) \<and> pipelines_kept E (view s) (view u)"
proof (cases "view s (KCluster, req)")
  case None
  with wpvD [OF cluster_reconcile_absent [of "view s"] refl assms(2)] assms(1) show ?thesis by simp
next
  case (Some ob)
  then have "obj_key ob = (KCluster, req)" by (rule view_key)
  then obtain c where c: "ob = ClusterObj c" by (cases ob) auto
  have "only_changes (touched c) (view s) (view u)" "settled (view u)"
    using wpvD [OF cluster_reconcile_spec [of "view s", OF assms(1) Some [unfolded c]] refl assms(2)] by simp_all
  then show ?thesis by (auto intro!: pipelines_keptI simp: owned_keys_def)
qed

lemma pipelines_step_admissible:
  assumes step: "pipelines_step E view s u" and s: "settled (view s)" "admissible (specs (view s))"
  shows "settled (view u) \<and> admissible (specs (view u))"
  using step
proof cases
  case (create p ws t)
  then have v: "run_state (DataPrepperPipelineCustomValidator_validate (Some E) p) s = (Inr (), t)"
    by (auto simp: DataPrepperPipelineCustomValidator_ValidateCreate_def split: prod.splits)
  show ?thesis
    using create_specs [OF create(2)] create_settled [OF create(2)] admissible_put [OF s(2) keyed_view admission_sound(2,3) [OF v]]
      admission_sound(1) [OF v] s(1) by simp
next
  case (update old p ws t)
  then have v: "run_state (DataPrepperPipelineCustomValidator_validate (Some E) p) s = (Inr (), t)"
    by (auto simp: DataPrepperPipelineCustomValidator_ValidateUpdate_def split: prod.splits)
  have "specs (view u) = (specs (view s))((ns_of p, Name (p_Meta p)) \<mapsto> p_Spec p) \<or>
      specs (view u) = (specs (view s))((ns_of p, Name (p_Meta p)) := None)"
    using update_specs [OF update(2)] admission_sound(1) [OF v] by simp
  then have "admissible (specs (view u))"
    using admissible_put [OF s(2) keyed_view admission_sound(2,3) [OF v]] admissible_del [OF s(2)] by metis
  then show ?thesis using update_settled [OF update(2)] admission_sound(1) [OF v] s(1) by simp
next
  case (delete p ws t)
  then have t: "view t = view s" by (simp add: DataPrepperPipelineCustomValidator_ValidateDelete_def)
  have "admissible (specs (view u))"
    using delete_specs [OF delete(2) keyed_view] s(2) admissible_del [OF s(2)] unfolding t by metis
  then show ?thesis using delete_settled [OF delete(2)] t s(1) by simp
next
  case (reconcile_pipeline req r)
  have "pipelines_kept E (view s) (view u)"
    by (rule wpvD [OF pipeline_step_pipelines refl reconcile_pipeline]) simp
  then have "admissible (specs (view u))" by (rule admissible_kept [OF s(2)])
  then show ?thesis using wpvD [OF pipeline_step_settled [OF s(1)] refl reconcile_pipeline] by simp
next
  case (reconcile_cluster req r)
  then show ?thesis using cluster_step_pipelines [OF s(1) reconcile_cluster] admissible_kept [OF s(2)] by blast
qed

end

section \<open>What admission is good for\<close>

lemma well_formed_mergeable: "well_formed_definition p \<Longrightarrow> mergeable p"
  by (auto simp: well_formed_definition_def mergeable_def split: sum.splits)

lemma admissible_collects:
  assumes "admissible (specs v)" "keyed v" "set items = stored_pipelines v ns" "distinct (pipeline_names items)"
  shows "\<exists>ds. collectDefinitions E ref excl items fmempty = Inr ds"
proof -
  have at: "v (KPipeline, ns, Name (p_Meta p)) = Some (PipelineObj p)" if "p \<in> set items" for p
  proof -
    from that assms(3) obtain n where n: "v (KPipeline, ns, n) = Some (PipelineObj p)" by (auto simp: stored_pipelines_def)
    then have "obj_key (PipelineObj p) = (KPipeline, ns, n)" using assms(2) unfolding keyed_def by blast
    with n show ?thesis by simp
  qed
  have spec: "specs v (ns, Name (p_Meta p)) = Some (p_Spec p)" if "p \<in> set items" for p
    by (rule specs_Some, rule at [OF that])
  have "mergeable p" if "p \<in> set items" for p
    using spec [OF that] assms(1) unfolding admissible_def
    by (blast intro: well_formed_mergeable [unfolded well_formed_definition_spec])
  moreover have "p = q" if "p \<in> set items" "q \<in> set items" "ref_of p = ref_of q" "yaml_key p = yaml_key q" for p q
  proof -
    have "Name (p_Meta p) = Name (p_Meta q)"
      using spec [OF that(1)] spec [OF that(2)] assms(1) that(3,4) unfolding admissible_def by metis
    with at [OF that(1)] at [OF that(2)] show ?thesis by (metis kobject.inject(3) option.inject)
  qed
  then have "inj_on yaml_key (set (sources E ref excl items))" by (auto simp: inj_on_def contributes_def)
  ultimately show ?thesis
    using collect_iff [of E ref excl items fmempty] distinct_pipeline_names [OF assms(4)]
    by (auto simp: distinct_map)
qed

context api_server
begin

lemma pipelines_steps_admissible:
  assumes "(pipelines_step E view)\<^sup>*\<^sup>* s s'" "settled (view s)" "admissible (specs (view s))"
  shows "settled (view s') \<and> admissible (specs (view s'))"
  using assms by (induction rule: rtranclp_induct) (auto dest: pipelines_step_admissible)

end

text \<open>
  C13: when pipelines reach the store only through the webhook, merging them cannot fail: after any
  sequence of admitted creates, updates and deletions, interleaved with reconciles of both controllers
  whatever their outcome, the collecting loop succeeds for every cluster, in any order of the list and
  with any pipeline excluded.
\<close>

theorem admitted_pipelines_merge:
  assumes "api_server E view" "(pipelines_step E view)\<^sup>*\<^sup>* s s'" "settled (view s)" "admissible (specs (view s))"
    and "set items = stored_pipelines (view s') ns" "distinct (pipeline_names items)"
  shows "\<exists>ds. collectDefinitions E ref excl items fmempty = Inr ds"
  by (rule admissible_collects [OF conjunct2 [OF api_server.pipelines_steps_admissible [OF assms(1-4)]]
        api_server.keyed_view [OF assms(1)] assms(5,6)])

lemma demo_create_step:
  assumes "well_formed_definition p" "slot_free (mem_view s) p" "mem_view s (pkey p) = None"
  shows "pipelines_step (mem_env all_kinds) mem_view s (snd (mem_create all_kinds (PipelineObj p) s))"
proof -
  let ?V = "DataPrepperPipelineCustomValidator_ValidateCreate (Some (mem_env all_kinds)) p"
  obtain ws r t where run: "run_state ?V s = ((ws, r), t)" by (metis prod.exhaust)
  then obtain run': "run_state (DataPrepperPipelineCustomValidator_validate (Some (mem_env all_kinds)) p) s = (r, t)"
    by (auto simp: DataPrepperPipelineCustomValidator_ValidateCreate_def split: prod.splits)
  have ok: "mem_view t = mem_view s" "r = Inr ()"
    using wpvD [OF mem.pipeline_validate_spec refl run'] assms by simp_all
  have "fst (mem_create all_kinds (PipelineObj p) s) = Inr ()" using assms(3) by (simp add: mem_create_def)
  then have "create_effect (PipelineObj p) (mem_view s) (mem_view (snd (mem_create all_kinds (PipelineObj p) s)))"
    using mem_create_law [OF surjective_pairing] by (metis write_Inr)
  with run ok show ?thesis by (auto intro: pipelines_step.create)
qed

theorem admitted_pipelines_merge_witness:
  "\<exists>s1 s2. pipelines_step (mem_env all_kinds) mem_view (mem_of []) s1 \<and> pipelines_step (mem_env all_kinds) mem_view s1 s2 \<and>
     (\<exists>ds. collectDefinitions (mem_env all_kinds) ''prepper'' []
             [demoPipeline ''two'' ''traces'', demoPipeline ''one'' ''logs''] fmempty = Inr ds)"
proof -
  let ?p = "demoPipeline ''one'' ''logs''" and ?q = "demoPipeline ''two'' ''traces''" and ?E = "mem_env all_kinds"
  let ?s1 = "snd (mem_create all_kinds (PipelineObj ?p) (mem_of []))"
  let ?s2 = "snd (mem_create all_kinds (PipelineObj ?q) ?s1)"
  have one: "pipelines_step ?E mem_view (mem_of []) ?s1"
    by (rule demo_create_step) (simp_all add: demo_well_formed demo_key_nonblank slot_free_def stored_pipelines_def mem_view_def mem_of_def)
  have s1: "?s1 = mem_of [PipelineObj ?p]"
    by (simp add: mem_create_def mem_view_def put_def demo_defs)
  have two: "pipelines_step ?E mem_view ?s1 ?s2"
  proof (rule demo_create_step)
    show "well_formed_definition ?q" by (rule demo_well_formed) (rule demo_key_nonblank)
    show "slot_free (mem_view ?s1) ?q" unfolding s1 by (rule demo_slot_free)
    show "mem_view ?s1 (pkey ?q) = None" unfolding s1 by (simp add: mem_view_def demo_defs)
  qed
  have s2: "?s2 = mem_of [PipelineObj ?q, PipelineObj ?p]"
    unfolding s1 by (simp add: mem_create_def mem_view_def put_def demo_defs)
  have steps: "(pipelines_step ?E mem_view)\<^sup>*\<^sup>* (mem_of []) ?s2" using one two by (meson converse_rtranclp_into_rtranclp rtranclp.rtrancl_refl)
  have "settled (mem_view (mem_of []))" by (rule settled_mem_of) simp
  moreover have "admissible (specs (mem_view (mem_of [])))" by (simp add: admissible_def specs_def mem_view_def mem_of_def)
  moreover have "set [?q, ?p] = stored_pipelines (mem_view ?s2) ''default''"
    unfolding s2 by (auto simp: stored_pipelines_def mem_view_def demo_defs)
  moreover have "distinct (pipeline_names [?q, ?p])" by (simp add: pipeline_names_def demo_defs)
  ultimately have "\<exists>ds. collectDefinitions ?E ''prepper'' [] [?q, ?p] fmempty = Inr ds"
    by (rule admitted_pipelines_merge [OF mem.api_server_axioms steps])
  with one two show ?thesis by blast
qed

end
