(* ===== verification/Manager.thy ===== *)
theory Manager
  imports Registration Flags Admission
begin

text \<open>
  cmd/main.go: the scheme, the options of the webhook and the metrics server, and the start of the
  manager; with it api/v1alpha1/groupversion\_info.go and the registration of the webhooks. What
  controller-runtime does is a parameter: a function that performs a call of the manager and answers
  with an error or success, and the two functions that add types to a scheme.
\<close>

section \<open>Definitions\<close>

subsection \<open>The scheme\<close>

text \<open>A scheme is the list of the registered types, with their group and version.\<close>

type_synonym group_version = "string \<times> string"
type_synonym scheme = "(group_version \<times> string) list"

definition SchemeGroupVersion :: group_version where
  "SchemeGroupVersion = (''dataprepper.gabia.com'', ''v1alpha1'')"

text \<open>What the \<^verbatim>\<open>init\<close> functions of the three type files hand to \<^verbatim>\<open>SchemeBuilder.Register\<close>.\<close>

definition registerClassTypes :: "string list" where
  "registerClassTypes = [''DataPrepperClass'', ''DataPrepperClassList'']"

definition registerClusterTypes :: "string list" where
  "registerClusterTypes = [''DataPrepperCluster'', ''DataPrepperClusterList'']"

definition registerPipelineTypes :: "string list" where
  "registerPipelineTypes = [''DataPrepperPipeline'', ''DataPrepperPipelineList'']"

type_synonym add_types = "group_version \<Rightarrow> string list \<Rightarrow> scheme \<Rightarrow> goerror + scheme"

definition AddToScheme :: "add_types \<Rightarrow> scheme \<Rightarrow> goerror + scheme" where
  "AddToScheme add = add SchemeGroupVersion (registerClassTypes @ registerClusterTypes @ registerPipelineTypes)"

text \<open>The \<^verbatim>\<open>init\<close> of the main package; \<^verbatim>\<open>utilruntime.Must\<close> panics on an error.\<close>

definition initScheme :: "(scheme \<Rightarrow> goerror + scheme) \<Rightarrow> add_types \<Rightarrow> goerror + scheme" where
  "initScheme clientgo add =
     (case clientgo [] of
        Inl err \<Rightarrow> Inl (Panic ''Must'')
      | Inr sch \<Rightarrow> (case AddToScheme add sch of Inl err \<Rightarrow> Inl (Panic ''Must'') | Inr sch' \<Rightarrow> Inr sch'))"

subsection \<open>Server options\<close>

record tls_config =
  NextProtos :: "string list"
  tls_Other :: string

type_synonym tls_opt = "tls_config \<Rightarrow> tls_config"

definition disableHTTP2 :: tls_opt where
  "disableHTTP2 c = c\<lparr>NextProtos := [''http/1.1'']\<rparr>"

definition tlsOpts :: "flag_values \<Rightarrow> tls_opt list" where
  "tlsOpts fl = (if \<not> enableHTTP2 fl then [disableHTTP2] else [])"

record webhook_options =
  wo_TLSOpts :: "tls_opt list"
  wo_CertDir :: string
  wo_CertName :: string
  wo_KeyName :: string

definition webhookServerOptions :: "flag_values \<Rightarrow> webhook_options" where
  "webhookServerOptions fl =
     (let opts = \<lparr>wo_TLSOpts = tlsOpts fl, wo_CertDir = [], wo_CertName = [], wo_KeyName = []\<rparr> in
      if length (webhookCertPath fl) > 0
      then opts\<lparr>wo_CertDir := webhookCertPath fl, wo_CertName := webhookCertName fl, wo_KeyName := webhookCertKey fl\<rparr>
      else opts)"

datatype filter_provider = WithAuthenticationAndAuthorization

record metrics_options =
  mo_BindAddress :: string
  mo_SecureServing :: bool
  mo_TLSOpts :: "tls_opt list"
  mo_FilterProvider :: "filter_provider option"
  mo_CertDir :: string
  mo_CertName :: string
  mo_KeyName :: string

definition metricsServerOptions :: "flag_values \<Rightarrow> metrics_options" where
  "metricsServerOptions fl =
     (let opts = \<lparr>mo_BindAddress = metricsAddr fl, mo_SecureServing = secureMetrics fl, mo_TLSOpts = tlsOpts fl,
                  mo_FilterProvider = None, mo_CertDir = [], mo_CertName = [], mo_KeyName = []\<rparr>;
          opts = (if secureMetrics fl then opts\<lparr>mo_FilterProvider := Some WithAuthenticationAndAuthorization\<rparr> else opts) in
      if length (metricsCertPath fl) > 0
      then opts\<lparr>mo_CertDir := metricsCertPath fl, mo_CertName := metricsCertName fl, mo_KeyName := metricsCertKey fl\<rparr>
      else opts)"

record manager_options =
  Scheme :: scheme
  Metrics :: metrics_options
  WebhookServer :: webhook_options
  HealthProbeBindAddress :: string
  LeaderElection :: bool
  LeaderElectionID :: string

definition managerOptions :: "scheme \<Rightarrow> flag_values \<Rightarrow> manager_options" where
  "managerOptions sch fl =
     \<lparr>Scheme = sch, Metrics = metricsServerOptions fl, WebhookServer = webhookServerOptions fl,
      HealthProbeBindAddress = probeAddr fl, LeaderElection = enableLeaderElection fl,
      LeaderElectionID = ''167b3f2c.gabia.com''\<rparr>"

subsection \<open>Webhook registration\<close>

record ('s, 'a) validator =
  ValidateCreate :: "'a \<Rightarrow> ('s, string list \<times> (goerror + unit)) state"
  ValidateUpdate :: "'a \<Rightarrow> 'a \<Rightarrow> ('s, string list \<times> (goerror + unit)) state"
  ValidateDelete :: "'a \<Rightarrow> ('s, string list \<times> (goerror + unit)) state"

datatype 's webhook =
    ClusterWebhook "('s, DataPrepperCluster) validator"
  | PipelineWebhook "('s, DataPrepperPipeline) validator"

definition SetupDataPrepperClusterWebhookWithManager :: "'s env \<Rightarrow> ('s webhook \<Rightarrow> 'r) \<Rightarrow> 'r" where
  "SetupDataPrepperClusterWebhookWithManager E Complete =
     Complete (ClusterWebhook
       \<lparr>ValidateCreate = DataPrepperClusterCustomValidator_ValidateCreate E,
        ValidateUpdate = DataPrepperClusterCustomValidator_ValidateUpdate E,
        ValidateDelete = DataPrepperClusterCustomValidator_ValidateDelete E\<rparr>)"

definition SetupDataPrepperPipelineWebhookWithManager :: "'s env \<Rightarrow> ('s webhook \<Rightarrow> 'r) \<Rightarrow> 'r" where
  "SetupDataPrepperPipelineWebhookWithManager E Complete =
     Complete (PipelineWebhook
       \<lparr>ValidateCreate = DataPrepperPipelineCustomValidator_ValidateCreate (Some E),
        ValidateUpdate = DataPrepperPipelineCustomValidator_ValidateUpdate (Some E),
        ValidateDelete = DataPrepperPipelineCustomValidator_ValidateDelete (Some E)\<rparr>)"

subsection \<open>The program\<close>

text \<open>
  The calls into controller-runtime that main makes. \<open>GetConfig\<close> is the part of \<^verbatim>\<open>GetConfigOrDie\<close> that
  can fail; on an error \<^verbatim>\<open>GetConfigOrDie\<close> exits with status 1.
\<close>

datatype 's manager_call =
    GetConfig
  | NewManager manager_options
  | CompleteController "'s controller"
  | CompleteWebhook "'s webhook"
  | AddHealthzCheck string
  | AddReadyzCheck string
  | Start

type_synonym ('s, 'm) manager = "'s manager_call \<Rightarrow> ('m, goerror + unit) state"

datatype outcome = Exit nat | Panicked | Returned

text \<open>\<^verbatim>\<open>if err := ...; err != nil { setupLog.Error(...); os.Exit(1) }\<close>\<close>

definition orExit :: "('m, goerror + unit) state \<Rightarrow> ('m, outcome) state \<Rightarrow> ('m, outcome) state" where
  "orExit m k = do { r \<leftarrow> m; (case r of Inl err \<Rightarrow> State_Monad.return (Exit 1) | Inr _ \<Rightarrow> k) }"

definition main ::
  "('s, 'm) manager \<Rightarrow> 's env \<Rightarrow> scheme \<Rightarrow> foreign_flags \<Rightarrow> (string \<Rightarrow> string) \<Rightarrow> string list \<Rightarrow> ('m, outcome) state" where
  "main mgr E sch foreign Getenv args =
     (case parseFlags foreign args flagDefaults of
        Inl err \<Rightarrow> State_Monad.return (Exit (if err = ErrHelp then 0 else 2))
      | Inr fl \<Rightarrow>
          orExit (mgr GetConfig)
         (orExit (mgr (NewManager (managerOptions sch fl)))
         (orExit (DataPrepperClusterReconciler_SetupWithManager E (\<lambda>ctl. mgr (CompleteController ctl)))
         (orExit (DataPrepperPipelineReconciler_SetupWithManager E (\<lambda>ctl. mgr (CompleteController ctl)))
         (orExit (if Getenv ''ENABLE_WEBHOOKS'' \<noteq> ''false''
                  then SetupDataPrepperPipelineWebhookWithManager E (\<lambda>hook. mgr (CompleteWebhook hook)) else returnE ())
         (orExit (if Getenv ''ENABLE_WEBHOOKS'' \<noteq> ''false''
                  then SetupDataPrepperClusterWebhookWithManager E (\<lambda>hook. mgr (CompleteWebhook hook)) else returnE ())
         (orExit (mgr (AddHealthzCheck ''healthz''))
         (orExit (mgr (AddReadyzCheck ''readyz''))
         (orExit (mgr Start)
         (State_Monad.return Returned))))))))))"

text \<open>The process: the \<^verbatim>\<open>init\<close> functions, then main.\<close>

definition program ::
  "(scheme \<Rightarrow> goerror + scheme) \<Rightarrow> add_types \<Rightarrow> ('s, 'm) manager \<Rightarrow> 's env \<Rightarrow> foreign_flags \<Rightarrow> (string \<Rightarrow> string) \<Rightarrow>
   string list \<Rightarrow> ('m, outcome) state" where
  "program clientgo add mgr E foreign Getenv args =
     (case initScheme clientgo add of
        Inl err \<Rightarrow> State_Monad.return Panicked
      | Inr sch \<Rightarrow> main mgr E sch foreign Getenv args)"

section \<open>The calls of a start\<close>

text \<open>A manager that records every call with its answer.\<close>

definition logged :: "('s, 'm) manager \<Rightarrow> ('s, 'm \<times> ('s manager_call \<times> (goerror + unit)) list) manager" where
  "logged mgr call = State (\<lambda>(m, log). case run_state (mgr call) m of (r, m') \<Rightarrow> (r, m', log @ [(call, r)]))"

lemma run_logged [simp]:
  "run_state (logged mgr call) (m, log) = (case run_state (mgr call) m of (r, m') \<Rightarrow> (r, m', log @ [(call, r)]))"
  by (simp add: logged_def)

text \<open>The plan of a start: everything that is registered, in order, and the start itself.\<close>

abbreviation webhooks :: "'s env \<Rightarrow> 's webhook list" where
  "webhooks E \<equiv> [SetupDataPrepperPipelineWebhookWithManager E (\<lambda>h. h), SetupDataPrepperClusterWebhookWithManager E (\<lambda>h. h)]"

definition startup_plan :: "'s env \<Rightarrow> manager_options \<Rightarrow> bool \<Rightarrow> 's manager_call list" where
  "startup_plan E opts hooks =
     [GetConfig, NewManager opts] @ map CompleteController [clusterController E, pipelineController E] @
     (if hooks then map CompleteWebhook (webhooks E) else []) @ [AddHealthzCheck ''healthz'', AddReadyzCheck ''readyz'', Start]"

fun make_calls :: "('s, 'm) manager \<Rightarrow> 's manager_call list \<Rightarrow> ('m, outcome) state" where
  "make_calls mgr [] = State_Monad.return Returned"
| "make_calls mgr (c # cs) = orExit (mgr c) (make_calls mgr cs)"

lemma orExit_returnE [simp]: "orExit (returnE x) k = k"
  by (rule state_ext) (simp add: orExit_def)

lemma main_make_calls:
  "main mgr E sch foreign Getenv args =
     (case parseFlags foreign args flagDefaults of
        Inl err \<Rightarrow> State_Monad.return (Exit (if err = ErrHelp then 0 else 2))
      | Inr fl \<Rightarrow> make_calls mgr (startup_plan E (managerOptions sch fl) (Getenv ''ENABLE_WEBHOOKS'' \<noteq> ''false'')))"
  by (simp add: main_def startup_plan_def DataPrepperClusterReconciler_SetupWithManager_def
      DataPrepperPipelineReconciler_SetupWithManager_def SetupDataPrepperClusterWebhookWithManager_def
      SetupDataPrepperPipelineWebhookWithManager_def split: sum.split)

text \<open>
  \<open>follows plan r log\<close>: the calls recorded are those of the plan up to the first that failed, and the
  outcome tells whether one did.
\<close>

definition follows :: "'c list \<Rightarrow> outcome \<Rightarrow> ('c \<times> (goerror + unit)) list \<Rightarrow> bool" where
  "follows plan r log \<longleftrightarrow>
     (if r = Returned then log = map (\<lambda>c. (c, Inr ())) plan
      else r = Exit 1 \<and> (\<exists>made failed rest e. plan = made @ failed # rest \<and>
             log = map (\<lambda>c. (c, Inr ())) made @ [(failed, Inl e)]))"

lemma follows_Nil: "follows [] Returned []"
  by (simp add: follows_def)

lemma follows_failed: "follows (c # cs) (Exit 1) [(c, Inl e)]"
  unfolding follows_def by (metis append_Nil list.map(1) outcome.distinct(3))

lemma follows_Cons: "follows cs r log \<Longrightarrow> follows (c # cs) r ((c, Inr ()) # log)"
  unfolding follows_def by (auto split: if_splits) (metis append_Cons list.map(2))

lemma make_calls_follow:
  "run_state (make_calls (logged mgr) cs) (m, log) = (r, m', log') \<Longrightarrow> \<exists>new. log' = log @ new \<and> follows cs r new"
proof (induction cs arbitrary: m log)
  case (Cons c cs)
  obtain a m1 where a: "run_state (mgr c) m = (a, m1)" by (metis surj_pair)
  show ?case
  proof (cases a)
    case (Inl e)
    with Cons.prems a show ?thesis using follows_failed [of c cs e] by (auto simp: orExit_def)
  next
    case (Inr u)
    with Cons.prems a have "run_state (make_calls (logged mgr) cs) (m1, log @ [(c, Inr ())]) = (r, m', log')" by (simp add: orExit_def)
    from Cons.IH [OF this] show ?thesis by (auto dest: follows_Cons)
  qed
qed (simp add: follows_Nil)

text \<open>The last call of a plan is made only when all others were, with success.\<close>

lemma follows_last:
  assumes "follows (cs @ [c]) r log" "c \<notin> set cs" "(c, a) \<in> set log"
  shows "log = map (\<lambda>c. (c, Inr ())) cs @ [(c, a)]"
proof (cases "r = Returned")
  case True
  with assms show ?thesis by (auto simp: follows_def)
next
  case False
  with assms(1) obtain made failed rest e where plan: "cs @ [c] = made @ failed # rest"
    and log: "log = map (\<lambda>c. (c, Inr ())) made @ [(failed, Inl e)]" by (auto simp: follows_def)
  show ?thesis
  proof (cases rest rule: rev_cases)
    case Nil
    with plan have "made = cs" "failed = c" by simp_all
    with log assms(2,3) show ?thesis by auto
  next
    case (snoc pre d)
    with plan have "cs = made @ failed # pre" by (metis append_Cons append_assoc butlast_snoc)
    with log assms(2,3) show ?thesis by auto
  qed
qed

section \<open>Properties\<close>

text \<open>
  C37: a start makes the calls of its plan in order and stops at the first one that fails, exiting with
  status 1; it returns exactly when every call of the plan, the run of the manager included, reported
  success. With a command line that does not parse nothing is called, and the status is 2, or 0 when
  help was asked for.
\<close>

theorem startup_follows_plan:
  assumes "run_state (main (logged mgr) E sch foreign Getenv args) (m, []) = (r, m', log)"
  shows "case parseFlags foreign args flagDefaults of
      Inl err \<Rightarrow> log = [] \<and> m' = m \<and> r = Exit (if err = ErrHelp then 0 else 2)
    | Inr fl \<Rightarrow> follows (startup_plan E (managerOptions sch fl) (Getenv ''ENABLE_WEBHOOKS'' \<noteq> ''false'')) r log"
proof (cases "parseFlags foreign args flagDefaults")
  case (Inr fl)
  with assms have "run_state (make_calls (logged mgr)
      (startup_plan E (managerOptions sch fl) (Getenv ''ENABLE_WEBHOOKS'' \<noteq> ''false''))) (m, []) = (r, m', log)"
    by (simp add: main_make_calls)
  from make_calls_follow [OF this] Inr show ?thesis by simp
qed (use assms in \<open>simp add: main_make_calls\<close>)

definition quietManager :: "('s, unit) manager" where
  "quietManager call = returnE ()"

definition noFlags :: foreign_flags where
  "noFlags n = None"

definition webhooksOff :: "string \<Rightarrow> string" where
  "webhooksOff n = (if n = ''ENABLE_WEBHOOKS'' then ''false'' else [])"

lemma quiet_make_calls [simp]:
  "run_state (make_calls (logged quietManager) cs) (m, log) = (Returned, m, log @ map (\<lambda>c. (c, Inr ())) cs)"
  by (induction cs arbitrary: log) (simp_all add: orExit_def quietManager_def)

lemma leader_flags [simp]:
  "parseFlags noFlags [''--leader-elect''] flagDefaults = Inr (flagDefaults\<lparr>enableLeaderElection := True\<rparr>)"
  by (simp add: parseFlags.simps bareName_def assign_def splitFlag_def ParseBool_def)

theorem startup_follows_plan_witness:
  "\<exists>m' log. run_state (main (logged quietManager) (mem_env all_kinds) [] noFlags webhooksOff [''--leader-elect'']) ((), []) = (Returned, m', log) \<and>
     length log = 7"
proof -
  obtain r m' log where run: "run_state (main (logged quietManager) (mem_env all_kinds) [] noFlags webhooksOff [''--leader-elect'']) ((), []) = (r, m', log)"
    by (metis surj_pair)
  then have "r = Returned" by (simp add: main_make_calls)
  moreover from startup_follows_plan [OF run] this have "length log = 7"
    by (auto simp: follows_def startup_plan_def webhooksOff_def)
  ultimately show ?thesis using run by blast
qed

text \<open>
  The manager is started last, and only after everything it needs was accepted: both controllers,
  both probes and, unless the environment disables them, both webhooks.
\<close>

theorem manager_started_last:
  assumes "run_state (main (logged mgr) E sch foreign Getenv args) (m, []) = (r, m', log)" "(Start, a) \<in> set log"
  shows "\<exists>before. log = before @ [(Start, a)] \<and>
     (\<forall>c\<in>{CompleteController (clusterController E), CompleteController (pipelineController E),
          AddHealthzCheck ''healthz'', AddReadyzCheck ''readyz''}. (c, Inr ()) \<in> set before) \<and>
     (Getenv ''ENABLE_WEBHOOKS'' \<noteq> ''false'' \<longrightarrow> (\<forall>h\<in>set (webhooks E). (CompleteWebhook h, Inr ()) \<in> set before)) \<and>
     (Getenv ''ENABLE_WEBHOOKS'' = ''false'' \<longrightarrow> (\<forall>h a. (CompleteWebhook h, a) \<notin> set before))"
proof -
  let ?hooks = "Getenv ''ENABLE_WEBHOOKS'' \<noteq> ''false''"
  obtain fl where follows: "follows (startup_plan E (managerOptions sch fl) ?hooks) r log"
  proof (cases "parseFlags foreign args flagDefaults")
    case (Inr fl)
    then show ?thesis using that make_calls_follow assms(1) by (fastforce simp: main_make_calls)
  qed (use assms in \<open>simp add: main_make_calls\<close>)
  define others where "others = butlast (startup_plan E (managerOptions sch fl) ?hooks)"
  then have plan: "startup_plan E (managerOptions sch fl) ?hooks = others @ [Start]" by (simp add: startup_plan_def)
  have "Start \<notin> set others" by (simp add: others_def startup_plan_def)
  with follows plan assms(2) have "log = map (\<lambda>c. (c, Inr ())) others @ [(Start, a)]" by (metis follows_last)
  moreover have "CompleteController (clusterController E) \<in> set others" "CompleteController (pipelineController E) \<in> set others"
    "AddHealthzCheck ''healthz'' \<in> set others" "AddReadyzCheck ''readyz'' \<in> set others"
    "?hooks \<longrightarrow> (\<forall>h\<in>set (webhooks E). CompleteWebhook h \<in> set others)" "\<not> ?hooks \<longrightarrow> (\<forall>h. CompleteWebhook h \<notin> set others)"
    by (auto simp: others_def startup_plan_def)
  ultimately show ?thesis by auto
qed

lemma Start_planned: "Start \<in> set (startup_plan E opts hooks)"
  by (simp add: startup_plan_def)

theorem manager_started_last_witness:
  "\<exists>r m' log before. run_state (main (logged quietManager) (mem_env all_kinds) [] noFlags (\<lambda>_. []) [''--leader-elect'']) ((), []) = (r, m', log) \<and>
     log = before @ [(Start, Inr ())] \<and> (\<forall>h\<in>set (webhooks (mem_env all_kinds)). (CompleteWebhook h, Inr ()) \<in> set before)"
proof -
  obtain r m' log where run: "run_state (main (logged quietManager) (mem_env all_kinds) [] noFlags (\<lambda>_. []) [''--leader-elect'']) ((), []) = (r, m', log)"
    by (metis surj_pair)
  then have "(Start, Inr ()) \<in> set log" using Start_planned by (force simp: main_make_calls simp del: make_calls.simps)
  from manager_started_last [OF run this] run show ?thesis by auto
qed

text \<open>The options the manager is created with come from the flags.\<close>

lemma follows_planned: "follows plan r log \<Longrightarrow> (c, a) \<in> set log \<Longrightarrow> c \<in> set plan"
  by (auto simp: follows_def split: if_splits)

lemma manager_options_from_flags:
  assumes "run_state (main (logged mgr) E sch foreign Getenv args) (m, []) = (r, m', log)" "(NewManager opts, a) \<in> set log"
  shows "\<exists>fl. parseFlags foreign args flagDefaults = Inr fl \<and> opts = managerOptions sch fl"
proof (cases "parseFlags foreign args flagDefaults")
  case (Inr fl)
  with assms(1) have "run_state (make_calls (logged mgr)
      (startup_plan E (managerOptions sch fl) (Getenv ''ENABLE_WEBHOOKS'' \<noteq> ''false''))) (m, []) = (r, m', log)"
    by (simp add: main_make_calls)
  from make_calls_follow [OF this] assms(2)
  have "NewManager opts \<in> set (startup_plan E (managerOptions sch fl) (Getenv ''ENABLE_WEBHOOKS'' \<noteq> ''false''))"
    by (auto intro: follows_planned)
  with Inr show ?thesis by (auto simp: startup_plan_def split: if_splits)
qed (use assms in \<open>simp add: main_make_calls\<close>)

text \<open>The TLS configuration of a server after its options were applied.\<close>

definition tls_applied :: "tls_opt list \<Rightarrow> tls_config \<Rightarrow> tls_config" where
  "tls_applied opts c = fold (\<lambda>f c. f c) opts c"

text \<open>
  C38: unless the command line names the flag enable-http2, neither server offers HTTP/2, whatever its
  TLS configuration was; and the metrics are served over TLS exactly when they are behind authentication
  and authorisation.
\<close>

theorem servers_hardened:
  assumes "run_state (main (logged mgr) E sch foreign Getenv args) (m, []) = (r, m', log)" "(NewManager opts, a) \<in> set log"
    and "list_all (\<lambda>s. flagName s \<noteq> ''enable-http2'') args"
  shows "NextProtos (tls_applied (wo_TLSOpts (WebhookServer opts)) c) = [''http/1.1''] \<and>
     NextProtos (tls_applied (mo_TLSOpts (Metrics opts)) c) = [''http/1.1''] \<and>
     (mo_SecureServing (Metrics opts) \<longleftrightarrow> mo_FilterProvider (Metrics opts) = Some WithAuthenticationAndAuthorization)"
proof -
  obtain fl where fl: "parseFlags foreign args flagDefaults = Inr fl" "opts = managerOptions sch fl"
    using manager_options_from_flags [OF assms(1,2)] by blast
  from parse_keeps_http2 [OF fl(1) assms(3)] have "\<not> enableHTTP2 fl" by (simp add: flagDefaults_def)
  with fl(2) show ?thesis
    by (simp add: managerOptions_def webhookServerOptions_def metricsServerOptions_def tlsOpts_def tls_applied_def disableHTTP2_def Let_def)
qed

lemma quiet_main:
  "\<exists>r m' log opts. run_state (main (logged quietManager) E sch noFlags Getenv [''--leader-elect'']) ((), []) = (r, m', log) \<and>
     (NewManager opts, Inr ()) \<in> set log"
  by (simp add: main_make_calls del: make_calls.simps) (auto simp: startup_plan_def)

theorem servers_hardened_witness:
  "\<exists>r m' log opts. run_state (main (logged quietManager) (mem_env all_kinds) [] noFlags (\<lambda>_. []) [''--leader-elect'']) ((), []) = (r, m', log) \<and>
     (NewManager opts, Inr ()) \<in> set log \<and>
     NextProtos (tls_applied (mo_TLSOpts (Metrics opts)) \<lparr>NextProtos = [''h2''], tls_Other = []\<rparr>) = [''http/1.1'']"
proof -
  obtain r m' log opts where run: "run_state (main (logged quietManager) (mem_env all_kinds) [] noFlags (\<lambda>_. []) [''--leader-elect'']) ((), []) = (r, m', log)"
    "(NewManager opts, Inr ()) \<in> set log" using quiet_main by blast
  have "list_all (\<lambda>s. flagName s \<noteq> ''enable-http2'') [''--leader-elect'']" by (simp add: flagName_def bareName_def splitFlag_def)
  from servers_hardened [OF run this] run show ?thesis by blast
qed

text \<open>The Go types of the operator's own kinds and of lists of them.\<close>

definition operator_types :: "(group_version \<times> string) set" where
  "operator_types = {(''dataprepper.gabia.com'', ''v1alpha1'')} \<times>
     {''DataPrepperCluster'', ''DataPrepperClusterList'', ''DataPrepperPipeline'', ''DataPrepperPipelineList'',
      ''DataPrepperClass'', ''DataPrepperClassList''}"

text \<open>
  \<^verbatim>\<open>scheme.Builder\<close> adds at least the types it was given, under its group and version, and takes none away; it
  also adds the types of options and watch events that every group version has.
\<close>

definition registers :: "add_types \<Rightarrow> bool" where
  "registers add \<longleftrightarrow> (\<forall>gv ts sch sch'. add gv ts sch = Inr sch' \<longrightarrow> set sch \<union> Pair gv ` set ts \<subseteq> set sch')"

lemma own_types_registered:
  assumes "registers add" "AddToScheme add sch = Inr sch'"
  shows "set sch \<union> operator_types \<subseteq> set sch'"
proof -
  have "set sch \<union> Pair SchemeGroupVersion ` set (registerClassTypes @ registerClusterTypes @ registerPipelineTypes) \<subseteq> set sch'"
    using assms unfolding registers_def AddToScheme_def by blast
  then show ?thesis
    by (simp add: operator_types_def SchemeGroupVersion_def registerClassTypes_def registerClusterTypes_def registerPipelineTypes_def)
qed

text \<open>
  C39: a manager is created only after both registrations of the init function succeeded, client-go's on an
  empty scheme and then the operator's. Its scheme is the result: it has everything client-go registered and,
  under the operator's group and version, the types of clusters, pipelines and classes and of lists of them.
\<close>

theorem scheme_knows_kinds:
  assumes "registers add"
    and "run_state (program clientgo add (logged mgr) E foreign Getenv args) (m, []) = (r, m', log)"
    and "(NewManager opts, a) \<in> set log"
  shows "\<exists>base. clientgo [] = Inr base \<and> AddToScheme add base = Inr (Scheme opts) \<and>
    set base \<union> operator_types \<subseteq> set (Scheme opts)"
proof -
  obtain sch where init: "initScheme clientgo add = Inr sch" and run: "run_state (main (logged mgr) E sch foreign Getenv args) (m, []) = (r, m', log)"
    using assms(2,3) by (cases "initScheme clientgo add") (auto simp: program_def)
  from init obtain base where base: "clientgo [] = Inr base" "AddToScheme add base = Inr sch"
    by (auto simp: initScheme_def split: sum.splits)
  have "Scheme opts = sch" using manager_options_from_flags [OF run assms(3)] by (auto simp: managerOptions_def)
  with base own_types_registered [OF assms(1) base(2)] show ?thesis by simp
qed

definition demoBase :: scheme where
  "demoBase = [((''apps'', ''v1''), ''Deployment''), ((''apps'', ''v1''), ''DeploymentList'')]"

definition demoAdd :: add_types where
  "demoAdd gv ts sch = Inr (sch @ map (Pair gv) (ts @ [''ListOptions'', ''WatchEvent'']))"

theorem scheme_knows_kinds_witness:
  "\<exists>r m' log opts. run_state (program (\<lambda>_. Inr demoBase) demoAdd (logged quietManager) (mem_env all_kinds) noFlags (\<lambda>_. []) [''--leader-elect''])
       ((), []) = (r, m', log) \<and> (NewManager opts, Inr ()) \<in> set log \<and>
     set demoBase \<union> operator_types \<subseteq> set (Scheme opts)"
proof -
  have init: "\<exists>sch. initScheme (\<lambda>_. Inr demoBase) demoAdd = Inr sch" by (simp add: initScheme_def AddToScheme_def demoAdd_def)
  obtain r m' log opts where run: "run_state (program (\<lambda>_. Inr demoBase) demoAdd (logged quietManager) (mem_env all_kinds) noFlags (\<lambda>_. []) [''--leader-elect''])
       ((), []) = (r, m', log)" "(NewManager opts, Inr ()) \<in> set log"
    using init quiet_main [of "mem_env all_kinds" _ "\<lambda>_. []"] unfolding program_def by fastforce
  have "registers demoAdd" unfolding registers_def demoAdd_def by auto
  from scheme_knows_kinds [OF this run] run show ?thesis by auto
qed

end
