(* ===== verification/Convergence.thy ===== *)
theory Convergence
  imports Pipeline_Lifecycle
begin

text \<open>
  Repeated reconciles of one pipeline: the controller's own writes do not keep it going. Recording the
  calls of a program does not change what it does (\<open>erases\<close>), a reconcile makes a bounded number of
  writes (\<open>writes_at_most\<close>), and after the finalizer and the application no write is left to make.
\<close>

section \<open>Recording the calls changes nothing\<close>

definition erases :: "('s \<times> call list, 'a) state \<Rightarrow> ('s, 'a) state \<Rightarrow> bool" where
  "erases mt m \<longleftrightarrow> (\<forall>s tr r s' tr'. run_state mt (s, tr) = (r, s', tr') \<longrightarrow> run_state m s = (r, s'))"

lemma erasesD: "erases mt m \<Longrightarrow> run_state mt (s, tr) = (r, s', tr') \<Longrightarrow> run_state m s = (r, s')"
  unfolding erases_def by blast

lemma erases_bind:
  assumes "erases mt m" "\<And>x. erases (ft x) (f x)"
  shows "erases (State_Monad.bind mt ft) (State_Monad.bind m f)"
  using assms unfolding erases_def by (fastforce split: prod.splits)

lemma erases_return: "erases (State_Monad.return x) (State_Monad.return x)" "erases (returnE x) (returnE x)"
  "erases (throwE e) (throwE e)" "erases (liftE r) (liftE r)"
  by (auto simp: erases_def)

lemma erases_calls: "erases (record_call c m) m" "erases (silent m) m"
  by (auto simp: erases_def split: prod.splits)

lemma erases_cases:
  "(\<And>e. erases (ft e) (f e)) \<Longrightarrow> (\<And>x. erases (gt x) (g x)) \<Longrightarrow>
     erases (case r of Inl e \<Rightarrow> ft e | Inr x \<Rightarrow> gt x) (case r of Inl e \<Rightarrow> f e | Inr x \<Rightarrow> g x)"
  "erases mt m \<Longrightarrow> erases nt n \<Longrightarrow> erases (if b then mt else nt) (if b then m else n)"
  by (auto split: sum.split)

lemma erases_bindE:
  assumes "erases mt m" "\<And>x. erases (ft x) (f x)"
  shows "erases (bindE mt ft) (bindE m f)"
  unfolding bindE_def by (intro erases_bind erases_cases erases_return assms)

lemmas erases_rules = erases_bind erases_bindE erases_return erases_calls erases_cases

lemma erases_pipeline:
  "erases (DataPrepperPipelineReconciler_Reconcile (traced E) req) (DataPrepperPipelineReconciler_Reconcile E req)"
  unfolding Reconcile_parts handleFetched_def handleDeleted_def handleLive_def dropFinalizer_def rebuild_parts
    writeContent_def stampHash_def setStatus_def inspectClusterHealth_def getAs_traced listAs_traced traced_sel
    collect_traced render_traced inspectPods_traced readyCondition_traced
  by (intro erases_rules)

section \<open>Counting writes\<close>

definition writes_at_most :: "nat \<Rightarrow> ('s \<times> call list, 'a) state \<Rightarrow> bool" where
  "writes_at_most k m \<longleftrightarrow> (\<forall>s tr r s' tr'. run_state m (s, tr) = (r, s', tr') \<longrightarrow>
     (\<exists>cs. tr' = tr @ cs \<and> length (filter is_write cs) \<le> k))"

lemma writesD:
  "writes_at_most k m \<Longrightarrow> run_state m (s, tr) = (r, s', tr') \<Longrightarrow> \<exists>cs. tr' = tr @ cs \<and> length (filter is_write cs) \<le> k"
  unfolding writes_at_most_def by blast

lemma writes_mono: "writes_at_most k m \<Longrightarrow> k \<le> j \<Longrightarrow> writes_at_most j m"
  unfolding writes_at_most_def by (meson order_trans)

lemma writes_bind:
  assumes "writes_at_most k m" "\<And>x. writes_at_most j (f x)"
  shows "writes_at_most (k + j) (State_Monad.bind m f)"
  unfolding writes_at_most_def
proof (intro allI impI)
  fix s tr r s' tr' assume "run_state (State_Monad.bind m f) (s, tr) = (r, s', tr')"
  then obtain x s1 tr1 where "run_state m (s, tr) = (x, s1, tr1)" "run_state (f x) (s1, tr1) = (r, s', tr')"
    by (auto split: prod.splits)
  then obtain cs ds where "tr1 = tr @ cs" "length (filter is_write cs) \<le> k" "tr' = tr1 @ ds" "length (filter is_write ds) \<le> j"
    using assms unfolding writes_at_most_def by meson
  then show "\<exists>cs. tr' = tr @ cs \<and> length (filter is_write cs) \<le> k + j" by (intro exI [of _ "cs @ ds"]) simp
qed

lemma writes_silent: "writes_at_most k (State_Monad.return x)" "writes_at_most k (returnE x)"
  "writes_at_most k (throwE e)" "writes_at_most k (liftE r)" "writes_at_most k (silent m)"
  by (auto simp: writes_at_most_def split: prod.splits)

lemma writes_record: "\<not> is_write c \<Longrightarrow> writes_at_most k (record_call c m)" "writes_at_most (Suc k) (record_call c m)"
  by (auto simp: writes_at_most_def split: prod.splits)

lemma writes_cases:
  "(\<And>e. writes_at_most k (f e)) \<Longrightarrow> (\<And>x. writes_at_most k (g x)) \<Longrightarrow> writes_at_most k (case r of Inl e \<Rightarrow> f e | Inr x \<Rightarrow> g x)"
  "writes_at_most k m \<Longrightarrow> writes_at_most k n \<Longrightarrow> writes_at_most k (if b then m else n)"
  by (auto split: sum.split)

lemma writes_bindE:
  assumes "writes_at_most k m" "\<And>x. writes_at_most j (f x)"
  shows "writes_at_most (k + j) (bindE m f)"
  unfolding bindE_def by (intro writes_bind writes_cases writes_silent assms)

text \<open>A first step that writes nothing does not count.\<close>

lemmas writes_read = writes_bind [where k = 0, simplified] writes_bindE [where k = 0, simplified]
lemmas writes_rules = writes_read writes_silent writes_record writes_cases

lemma writes_rebuild: "writes_at_most 2 (rebuildClusterConfig (traced E) ns ref excl)"
proof -
  have "writes_at_most 1 (writeContent (traced E) ns ref content)" "writes_at_most 1 (stampHash (traced E) ns ref content)" for content
    unfolding writeContent_def stampHash_def getAs_traced traced_sel One_nat_def by (intro writes_rules; simp)+
  then have "writes_at_most (1 + 1) (bindE (writeContent (traced E) ns ref content) (\<lambda>_. stampHash (traced E) ns ref content))" for content
    by (intro writes_bindE)
  then have parts: "writes_at_most 2 (bindE (writeContent (traced E) ns ref content) (\<lambda>_. stampHash (traced E) ns ref content))" for content
    by (simp add: numeral_2_eq_2)
  have "writes_at_most 2 (bindE (liftE r) (\<lambda>ds. bindE (liftE (renderDefinitions (traced E) ds)) (\<lambda>content.
      bindE (writeContent (traced E) ns ref content) (\<lambda>_. stampHash (traced E) ns ref content))))" for r
    by (rule writes_read(2), rule writes_silent, rule writes_read(2), rule writes_silent, rule parts)
  then show ?thesis unfolding rebuild_parts listAs_traced by (intro writes_read(2) [OF writes_record(1)]) simp_all
qed

lemma writes_setStatus: "writes_at_most 1 (setStatus (traced E) p phase h)"
  unfolding setStatus_def traced_sel One_nat_def by (intro writes_rules)

lemma writes_inspect: "writes_at_most 0 (inspectClusterHealth (traced E) ns ref)"
  unfolding inspectClusterHealth_def listAs_traced by (intro writes_rules) simp

lemma writes_handleDeleted: "writes_at_most 3 (handleDeleted (traced E) p)"
proof -
  have "writes_at_most (2 + 1) (handleDeleted (traced E) p)"
    unfolding handleDeleted_def dropFinalizer_def traced_sel
    by (intro writes_cases writes_bind writes_rebuild writes_silent writes_mono [OF writes_record(2) [of 0]]) simp_all
  then show ?thesis by simp
qed

lemma writes_handleLive: "writes_at_most 3 (handleLive (traced E) p)"
proof -
  have "writes_at_most (2 + (0 + 1)) (bindE (rebuildClusterConfig (traced E) ns ref []) (\<lambda>_. do {
      health \<leftarrow> inspectClusterHealth (traced E) ns ref; setStatus (traced E) p phase health }))" for ns ref phase
    by (intro writes_bindE writes_bind writes_rebuild writes_inspect writes_setStatus)
  then show ?thesis unfolding handleLive_def getAs_traced
    by (intro writes_read(1) [OF writes_record(1)] writes_cases writes_silent writes_mono [OF writes_setStatus]) simp_all
qed

lemma writes_handleFetched: "writes_at_most 3 (handleFetched (traced E) p)"
proof -
  have upd: "writes_at_most 3 (bindE (record_call c m) (\<lambda>_. returnE x))" for c m and x :: unit
    using writes_bindE [OF writes_record(2) [of 2] writes_silent(2) [of 0]] by (simp add: numeral_3_eq_3 numeral_2_eq_2)
  show ?thesis unfolding handleFetched_def traced_sel
    by (intro writes_cases writes_handleDeleted writes_handleLive upd)
qed

lemma writes_reconcile: "writes_at_most 3 (DataPrepperPipelineReconciler_Reconcile (traced E) req)"
  unfolding Reconcile_parts getAs_traced
  by (intro writes_read(1) [OF writes_record(1)] writes_cases writes_silent writes_handleFetched) simp

section \<open>Repeated reconciles\<close>

fun reconcile_times :: "nat \<Rightarrow> 's env \<Rightarrow> namespaced_name \<Rightarrow> ('s, unit) state" where
  "reconcile_times 0 E req = State_Monad.return ()"
| "reconcile_times (Suc k) E req = do { _ \<leftarrow> DataPrepperPipelineReconciler_Reconcile E req; reconcile_times k E req }"

text \<open>A state in which a reconcile of the pipeline writes nothing stays as it is.\<close>

definition stable :: "'s env \<Rightarrow> ('s \<Rightarrow> store) \<Rightarrow> namespaced_name \<Rightarrow> store \<Rightarrow> bool" where
  "stable E view req v \<longleftrightarrow>
     wpt view (DataPrepperPipelineReconciler_Reconcile (traced E) req) (\<lambda>r w cs. w = v \<and> quiet cs) v"

lemma stable_forever:
  assumes "stable E view req (view s)" "run_state (reconcile_times k (traced E) req) (s, tr) = (u, s', tr')"
  shows "view s' = view s \<and> filter is_write tr' = filter is_write tr"
  using assms
proof (induction k arbitrary: s tr)
  case (Suc k)
  obtain r s1 tr1 where one: "run_state (DataPrepperPipelineReconciler_Reconcile (traced E) req) (s, tr) = (r, s1, tr1)"
    by (metis surj_pair)
  from wptD [OF Suc.prems(1) [unfolded stable_def] refl one] have s1: "view s1 = view s" "filter is_write tr1 = filter is_write tr"
    by (auto simp: list_all_iff filter_empty_conv)
  with Suc.IH [of s1 tr1] Suc.prems one show ?case by simp
qed simp

text \<open>A pipeline that can be applied: it lives, its cluster exists, its content merges, no pod fails.\<close>

definition ready_to_apply :: "'s env \<Rightarrow> store \<Rightarrow> DataPrepperPipeline \<Rightarrow> bool" where
  "ready_to_apply E v p \<longleftrightarrow>
     v (pkey p) = Some (PipelineObj p) \<and> settled v \<and> IsZero E (DeletionTimestamp (p_Meta p)) \<and>
     v (KCluster, ns_of p, ref_of p) \<noteq> None \<and> applicable E v p \<and>
     (\<forall>q\<in>stored_pods v (ns_of p) (app_selector (ref_of p)). \<not> pod_fails E q)"

context available_server
begin

text \<open>The first reconcile of a new pipeline leaves it with the finalizer and as ready as it was.\<close>

lemma reconcile_finalizes:
  assumes p: "ready_to_apply E v p" "pipelineFinalizer \<notin> set (Finalizers (p_Meta p))"
    and keyed: "\<And>key ob. v key = Some ob \<Longrightarrow> obj_key ob = key" and inst: "installed KPipeline"
  shows "wpv view (DataPrepperPipelineReconciler_Reconcile E (ns_of p, Name (p_Meta p)))
    (\<lambda>r w. \<exists>p'. same_role p p' \<and> pipelineFinalizer \<in> set (Finalizers (p_Meta p')) \<and> ready_to_apply E w p') v"
proof -
  let ?q = "p\<lparr>p_Meta := (p_Meta p)\<lparr>Finalizers := Finalizers (p_Meta p) @ [pipelineFinalizer]\<rparr>\<rparr>"
  have post: "\<exists>p'. same_role p p' \<and> pipelineFinalizer \<in> set (Finalizers (p_Meta p')) \<and> ready_to_apply E w p'"
    if eff: "update_effect (PipelineObj ?q) v w" for w
  proof -
    from eff p(1) obtain ob where ob: "stored_as (PipelineObj ?q) ob" "DeletionTimestamp (obj_meta ob) = DeletionTimestamp (p_Meta p)"
      "w = v(pkey p \<mapsto> ob)" by (auto simp: update_effect_def ready_to_apply_def)
    then obtain p' where p': "ob = PipelineObj p'" by (auto simp: stored_as_def)
    with ob have role: "same_role p p'" "pipelineFinalizer \<in> set (Finalizers (p_Meta p'))" and key: "pkey p' = pkey p"
      by (auto simp: same_role_def stored_as_def meta_kept_def)
    have frame: "only_changes (footprint p) v w" using ob(3) by (auto simp: only_changes_def footprint_def)
    have core: "ns_of p' = ns_of p" "ref_of p' = ref_of p" using role(1) by (simp_all add: same_role_def)
    have "content_of E w (ns_of p) (ref_of p) [] c \<longleftrightarrow> content_of E v (ns_of p) (ref_of p) [] c" for c
      by (rule content_of_status [of v p w p', OF keyed _ _ role(1) frame]) (use p(1) ob p' in \<open>auto simp: ready_to_apply_def\<close>)
    moreover have "config_data w a b = config_data v a b" "pod_annotations w a b = pod_annotations v a b"
      "stored_pods w a sel = stored_pods v a sel" "w (KCluster, a, b) = v (KCluster, a, b)" for a b sel
      using ob(3) by (simp_all add: config_data_def pod_annotations_def stored_pods_def)
    moreover have "settled w" using update_settled [OF eff] p(1) by (simp add: ready_to_apply_def)
    ultimately have "ready_to_apply E w p'" using p(1) role(1) ob(3) p' key
      by (simp add: ready_to_apply_def applicable_def core same_role_def)
    with role show ?thesis by blast
  qed
  show ?thesis unfolding Reconcile_parts
    by (intro wpv_bind up_getPipeline inst)
      (use p inst post in \<open>auto simp: ready_to_apply_def handleFetched_def ContainsFinalizer AddFinalizer intro!: wpv_bindE up_Update wpv_returnE\<close>)
qed

lemma reconcile_settles:
  assumes inst: "list_all installed [KPipeline, KCluster, KConfigMap, KDeployment, KPod]"
    and p: "ready_to_apply E (view s) p" "pipelineFinalizer \<in> set (Finalizers (p_Meta p))"
    and run: "run_state (DataPrepperPipelineReconciler_Reconcile E (ns_of p, Name (p_Meta p))) s = (r, s')"
  shows "applied E (view s) p (view s')" "in_sync E (view s') (ns_of p) (ref_of p) []"
    "stable E view (ns_of p, Name (p_Meta p)) (view s')"
proof -
  note ready = p(1) [unfolded ready_to_apply_def]
  have "wpv view (DataPrepperPipelineReconciler_Reconcile E (ns_of p, Name (p_Meta p)))
      (\<lambda>r w. (r = Inr () \<longleftrightarrow> applicable E (view s) p) \<and> (r = Inr () \<longrightarrow> applied E (view s) p w)) (view s)"
    by (rule reconcile_applied) (use inst ready p(2) in auto)
  from wpvD [OF this refl run] ready show app: "applied E (view s) p (view s')" by simp
  have frame: "only_changes (footprint p) (view s) (view s')"
    by (rule wpvD [OF reconcile_frame refl run]) (use ready in simp)
  show "in_sync E (view s') (ns_of p) (ref_of p) []" by (rule applied_in_sync [OF app _ frame]) (use ready in simp)
  show "stable E view (ns_of p, Name (p_Meta p)) (view s')" unfolding stable_def
    by (rule applied_quiet [OF app _ frame]) (use ready p(2) in auto)
qed

text \<open>From a ready pipeline with the finalizer: three writes, all in the first reconcile.\<close>

lemma converges_finalized:
  assumes inst: "list_all installed [KPipeline, KCluster, KConfigMap, KDeployment, KPod]"
    and p: "ready_to_apply E (view s) p" "pipelineFinalizer \<in> set (Finalizers (p_Meta p))"
    and run: "run_state (reconcile_times k (traced E) (ns_of p, Name (p_Meta p))) (s, tr) = (u, s', tr')"
  shows "length (filter is_write tr') \<le> length (filter is_write tr) + 3 \<and>
    (1 \<le> k \<longrightarrow> (\<exists>p'. view s' (pkey p) = Some (PipelineObj p') \<and> pt_Phase (p_Stat p') = DataPrepperPipelinePhaseApplied) \<and>
       in_sync E (view s') (ns_of p) (ref_of p) [])"
proof (cases k)
  case (Suc j)
  obtain r s1 tr1 where one: "run_state (DataPrepperPipelineReconciler_Reconcile (traced E) (ns_of p, Name (p_Meta p))) (s, tr) = (r, s1, tr1)"
    by (metis surj_pair)
  with run Suc have rest: "run_state (reconcile_times j (traced E) (ns_of p, Name (p_Meta p))) (s1, tr1) = (u, s', tr')" by simp
  note settles = reconcile_settles [OF inst p erasesD [OF erases_pipeline one]]
  from stable_forever [OF settles(3) rest] have s': "view s' = view s1" "filter is_write tr' = filter is_write tr1" by simp_all
  obtain cs where "tr1 = tr @ cs" "length (filter is_write cs) \<le> 3"
    using writesD [OF writes_reconcile one] by blast
  moreover have "\<exists>p'. view s1 (pkey p) = Some (PipelineObj p') \<and> pt_Phase (p_Stat p') = DataPrepperPipelinePhaseApplied"
    using settles(1) by (auto simp: applied_def status_written_def reports_def)
  ultimately show ?thesis using s' settles(2) by simp
qed (use run in simp)

lemma converges:
  assumes inst: "list_all installed [KPipeline, KCluster, KConfigMap, KDeployment, KPod]"
    and p: "ready_to_apply E (view s) p"
    and run: "run_state (reconcile_times k (traced E) (ns_of p, Name (p_Meta p))) (s, []) = (u, s', calls)"
  shows "length (filter is_write calls) \<le> 4 \<and>
    (2 \<le> k \<longrightarrow> (\<exists>p'. view s' (pkey p) = Some (PipelineObj p') \<and> pt_Phase (p_Stat p') = DataPrepperPipelinePhaseApplied) \<and>
       in_sync E (view s') (ns_of p) (ref_of p) [])"
proof (cases "pipelineFinalizer \<in> set (Finalizers (p_Meta p))")
  case True
  from converges_finalized [OF inst p True run] show ?thesis by auto
next
  case new: False
  show ?thesis
  proof (cases k)
    case (Suc j)
    obtain r s1 tr1 where one: "run_state (DataPrepperPipelineReconciler_Reconcile (traced E) (ns_of p, Name (p_Meta p))) (s, []) = (r, s1, tr1)"
      by (metis surj_pair)
    with run Suc have rest: "run_state (reconcile_times j (traced E) (ns_of p, Name (p_Meta p))) (s1, tr1) = (u, s', calls)" by simp
    have "\<exists>p'. same_role p p' \<and> pipelineFinalizer \<in> set (Finalizers (p_Meta p')) \<and> ready_to_apply E (view s1) p'"
      by (rule wpvD [OF reconcile_finalizes [OF p new view_key] refl erasesD [OF erases_pipeline one]]) (use inst in simp_all)
    then obtain p' where p': "same_role p p'" "pipelineFinalizer \<in> set (Finalizers (p_Meta p'))" "ready_to_apply E (view s1) p'" by blast
    have core: "ns_of p' = ns_of p" "Name (p_Meta p') = Name (p_Meta p)" "ref_of p' = ref_of p" using p'(1) by (simp_all add: same_role_def)
    have "filter is_write tr1 \<in> {[], [CUpdate (PipelineObj
        (p\<lparr>p_Meta := (p_Meta p)\<lparr>Finalizers := Finalizers (p_Meta p) @ [pipelineFinalizer]\<rparr>\<rparr>))]}"
      using wptD [OF reconcile_new [of "view s" "(ns_of p, Name (p_Meta p))" p] refl one] p new by (auto simp: ready_to_apply_def)
    then have "length (filter is_write tr1) \<le> 1" by auto
    with converges_finalized [OF inst p'(3,2), unfolded core, OF rest] Suc show ?thesis by auto
  qed (use run in simp)
qed

end

section \<open>Properties\<close>

text \<open>
  C15: reconciling comes to rest: however often a pipeline that can be applied is reconciled, with no
  other writer, at most four writes are made in all (the finalizer, the ConfigMap, the Deployment and
  the status), and after two reconciles the pipeline is Applied and the content and its hash are in sync.
\<close>

theorem pipeline_converges:
  assumes "available_server E view installed" "list_all installed [KPipeline, KCluster, KConfigMap, KDeployment, KPod]"
    and "ready_to_apply E (view s) p"
    and "run_state (reconcile_times k (traced E) (ns_of p, Name (p_Meta p))) (s, []) = (u, s', calls)"
  shows "length (filter is_write calls) \<le> 4 \<and>
    (2 \<le> k \<longrightarrow> (\<exists>p'. view s' (pkey p) = Some (PipelineObj p') \<and> pt_Phase (p_Stat p') = DataPrepperPipelinePhaseApplied) \<and>
       in_sync E (view s') (ns_of p) (ref_of p) [])"
  using available_server.converges [OF assms] .

theorem pipeline_converges_witness:
  "\<exists>u s' calls p'. run_state (reconcile_times 5 (traced (mem_env all_kinds)) (''default'', ''one'')) (demoWith (demoPipeline ''one'' ''logs''), []) =
       (u, s', calls) \<and> length (filter is_write calls) \<le> 4 \<and>
     mem_view s' (KPipeline, ''default'', ''one'') = Some (PipelineObj p') \<and> pt_Phase (p_Stat p') = DataPrepperPipelinePhaseApplied"
proof -
  let ?p = "demoPipeline ''one'' ''logs''" and ?E = "mem_env all_kinds"
  have p: "demoOne ?p" by (simp add: demoOne_def)
  note facts = demoOne_facts [OF p]
  have ready: "ready_to_apply ?E (mem_view (demoWith ?p)) ?p"
    using demoWith_view(1,2) [OF p] demoWith_settled [OF p] demo_applicable [OF p, of all_kinds] demo_pods [OF p]
    by (simp add: ready_to_apply_def facts(1-3)) (simp add: demoPipeline_def demo_metas)
  obtain u s' calls where run: "run_state (reconcile_times 5 (traced ?E) (''default'', ''one'')) (demoWith ?p, []) = (u, s', calls)"
    by (metis surj_pair)
  from pipeline_converges [OF mem.available_server_axioms _ ready, of 5 u s' calls] run show ?thesis by (auto simp: facts(1,2))
qed

end
