(* ===== verification/Operator.thy ===== *)
theory Operator
  imports Controllers Convergence "HOL-Library.Sublist"
begin

text \<open>
  The operator as a whole: both controllers serve a queue of requests. Whatever else the queue holds, a
  request for a cluster followed by two for one of its pipelines bring the pipeline up, and up it stays.
\<close>

section \<open>Serving requests\<close>

datatype request = ClusterRequest namespaced_name | PipelineRequest namespaced_name

fun serve :: "'s env \<Rightarrow> request \<Rightarrow> ('s, goerror + unit) state" where
  "serve E (ClusterRequest req) = DataPrepperClusterReconciler_Reconcile E req"
| "serve E (PipelineRequest req) = DataPrepperPipelineReconciler_Reconcile E req"

text \<open>Whatever a reconcile returns, the next request is served.\<close>

fun serve_all :: "'s env \<Rightarrow> request list \<Rightarrow> ('s, unit) state" where
  "serve_all E [] = State_Monad.return ()"
| "serve_all E (req # reqs) = do { _ \<leftarrow> serve E req; serve_all E reqs }"

section \<open>A pipeline's reconcile removes no object of a cluster\<close>

definition objects_kept :: "store \<Rightarrow> store \<Rightarrow> bool" where
  "objects_kept v w \<longleftrightarrow>
     (\<forall>ns n. has_container (v (KDeployment, ns, n)) \<longrightarrow> has_container (w (KDeployment, ns, n))) \<and>
     (\<forall>ns n. pod_annotations v ns n \<noteq> None \<longrightarrow> pod_annotations w ns n \<noteq> None) \<and>
     (\<forall>ns n. config_data v ns n \<noteq> None \<longrightarrow> config_data w ns n \<noteq> None)"

lemma objects_kept_refl [simp]: "objects_kept v v"
  by (simp add: objects_kept_def)

lemma objects_kept_trans: "objects_kept u v \<Longrightarrow> objects_kept v w \<Longrightarrow> objects_kept u w"
  by (simp add: objects_kept_def)

lemma objects_kept_own: "only_changes {pkey p} v w \<Longrightarrow> objects_kept v w"
  unfolding objects_kept_def by (simp add: config_data_only pod_annotations_only only_changesD)

lemma objects_kept_write:
  "objects_kept u v \<Longrightarrow> write_result (update_effect (PipelineObj q)) v r w \<Longrightarrow> objects_kept u w"
  by (erule objects_kept_trans, rule objects_kept_own [of q], drule writes_only(2)) simp

text \<open>An update that keeps the finalizers it read removes nothing from a settled store.\<close>

lemma update_stores:
  assumes "update_effect ob v w" "v (obj_key ob) = Some old" "settled v" "Finalizers (obj_meta ob) = Finalizers (obj_meta old)"
  shows "\<exists>ob'. stored_as ob ob' \<and> w = v(obj_key ob \<mapsto> ob')"
proof -
  have "\<not> (DeletionTimestamp (obj_meta old) \<noteq> None \<and> Finalizers (obj_meta ob) = [])"
    using assms(2-4) unfolding settled_def by metis
  with assms(1,2) show ?thesis by (auto simp: update_effect_def)
qed

lemma config_write_objects:
  assumes "write_result (update_effect (ConfigMapObj (cm\<lparr>cm_Data := dat\<rparr>))) v r w" "v (obj_key (ConfigMapObj cm)) = Some (ConfigMapObj cm)" "settled v"
  shows "objects_kept v w"
proof (cases "w = v")
  case False
  with assms(1) have "update_effect (ConfigMapObj (cm\<lparr>cm_Data := dat\<rparr>)) v w" by (auto simp: write_result_def)
  from update_stores [OF this _ assms(3)] assms(2) obtain ob' where
    "stored_as (ConfigMapObj (cm\<lparr>cm_Data := dat\<rparr>)) ob'" "w = v(obj_key (ConfigMapObj cm) \<mapsto> ob')" by auto
  then show ?thesis by (auto simp: objects_kept_def config_data_def pod_annotations_def stored_as_def)
qed simp

lemma deployment_write_objects:
  assumes "write_result (update_effect (DeploymentObj (d\<lparr>d_Template := (d_Template d)\<lparr>pt_Annotations := ann\<rparr>\<rparr>))) v r w"
    and "v (obj_key (DeploymentObj d)) = Some (DeploymentObj d)" "settled v"
  shows "objects_kept v w"
proof (cases "w = v")
  case False
  let ?d = "d\<lparr>d_Template := (d_Template d)\<lparr>pt_Annotations := ann\<rparr>\<rparr>"
  from False assms(1) have "update_effect (DeploymentObj ?d) v w" by (auto simp: write_result_def)
  from update_stores [OF this _ assms(3)] assms(2) obtain ob' where
    "stored_as (DeploymentObj ?d) ob'" "w = v(obj_key (DeploymentObj d) \<mapsto> ob')" by auto
  then show ?thesis using assms(2)
    by (auto simp: objects_kept_def config_data_def pod_annotations_def stored_as_def has_container_def template_kept_def)
qed simp

context api_server
begin

lemma rebuild_objects:
  assumes v: "settled v"
  shows "wpv view (rebuildClusterConfig E ns ref excl) (\<lambda>r w. settled w \<and> objects_kept v w) v"
proof -
  have content: "wpv view (writeContent E ns ref content) (\<lambda>r w. settled w \<and> objects_kept v w) v" for content
    unfolding writeContent_def
    by (intro wpv_bindE wpv_getConfigMap)
      (auto intro!: wpv_rules wpv_Update dest: writes_settled(2) config_write_objects simp: v)
  have stamp: "wpv view (stampHash E ns ref content) (\<lambda>r w. settled w \<and> objects_kept v w) u"
    if "settled u" "objects_kept v u" for content u
    unfolding stampHash_def
    by (intro wpv_bindE wpv_getDeployment)
      (use that in \<open>auto intro!: wpv_rules wpv_Update dest: writes_settled(2) deployment_write_objects intro: objects_kept_trans\<close>)
  show ?thesis
    by (rule wpv_rebuild) (auto simp: v intro!: wpv_bindE wpv_mono [OF content] stamp split: sum.splits)
qed

lemma pipeline_step_objects:
  assumes v: "settled v"
  shows "wpv view (DataPrepperPipelineReconciler_Reconcile E req) (\<lambda>r w. objects_kept v w) v"
  unfolding Reconcile_parts
proof (intro wpv_bind wpv_getPipeline, goal_cases)
  case (1 ob p)
  then have p: "v (pkey p) = Some (PipelineObj p)" by simp
  have rebuild: "wpv view (rebuildClusterConfig E ns ref excl) (\<lambda>r w. objects_kept v w \<and> w (pkey p) = v (pkey p)) v" for ns ref excl
    by (rule wpv_mono [OF wpv_conj [OF rebuild_objects [OF v] rebuild_frame]]) (auto simp: rebuild_keeps_pipeline)
  have stat: "wpv view (setStatus E p phase h) (\<lambda>r w. objects_kept v w) u" if "objects_kept v u" "u (pkey p) = v (pkey p)" for u phase h
    by (rule wpv_mono [OF setStatus_spec]) (use that p in \<open>auto intro: objects_kept_trans objects_kept_own\<close>)
  have own: "wpv view (Update E (PipelineObj q)) (\<lambda>r w. objects_kept v w) u" if "objects_kept v u" for q u
    by (rule wpv_Update) (rule objects_kept_write [OF that])
  show ?case
    unfolding handleFetched_def handleDeleted_def handleLive_def dropFinalizer_def
    by (auto intro!: wpv_rules wpv_getCluster wpv_mono [OF rebuild] stat wpv_mono [OF inspect_frame] own split: sum.splits)
qed (auto intro!: wpv_rules)

end

section \<open>How far a pipeline has come\<close>

text \<open>
  A cluster whose requests can be served: it has a configuration, a Deployment that is there has a
  container, and its pipelines merge. The API server accepts no empty names.
\<close>

definition serviceable :: "'s env \<Rightarrow> store \<Rightarrow> string \<Rightarrow> string \<Rightarrow> string \<Rightarrow> bool" where
  "serviceable E v ns ref content \<longleftrightarrow>
     settled v \<and> v (KPipeline, ns, []) = None \<and>
     (\<exists>c cfg. v (KCluster, ns, ref) = Some (ClusterObj c) \<and> config_for v c cfg) \<and>
     has_container (v (KDeployment, ns, ref)) \<and> content_of E v ns ref [] content"

text \<open>
  The stages of a pipeline: 0 stored and live, 1 its cluster's objects exist, 2 it has the finalizer,
  3 it is applied and content and stamp are in sync.
\<close>

definition stage_reached :: "'s env \<Rightarrow> nat \<Rightarrow> store \<Rightarrow> string \<Rightarrow> string \<Rightarrow> DataPrepperPipeline \<Rightarrow> bool" where
  "stage_reached E k v ns n p \<longleftrightarrow>
     (\<exists>q. v (KPipeline, ns, n) = Some (PipelineObj q) \<and> p_Spec q = p_Spec p \<and> IsZero E (DeletionTimestamp (p_Meta q)) \<and>
        (2 \<le> k \<longrightarrow> pipelineFinalizer \<in> set (Finalizers (p_Meta q))) \<and>
        (3 \<le> k \<longrightarrow> pt_Phase (p_Stat q) = DataPrepperPipelinePhaseApplied)) \<and>
     (1 \<le> k \<longrightarrow> config_data v ns (pipelines_cm (ref_of p)) \<noteq> None \<and> pod_annotations v ns (ref_of p) \<noteq> None) \<and>
     (3 \<le> k \<longrightarrow> in_sync E v ns (ref_of p) [])"

lemma stage_mono: "stage_reached E k v ns n p \<Longrightarrow> j \<le> k \<Longrightarrow> stage_reached E j v ns n p"
  unfolding stage_reached_def by (meson order_trans)

lemma config_for_cong:
  "c_Spec c' = c_Spec c \<Longrightarrow> (\<And>k. w (KClass, k) = v (KClass, k)) \<Longrightarrow> config_for w c' cfg \<longleftrightarrow> config_for v c cfg"
  by (simp add: config_for_def class_of_def standalone_def inherits_def)

text \<open>A step that keeps what these say, as far as it depends on other objects than the pipelines.\<close>

lemma serviceable_step:
  assumes v: "serviceable E v ns ref content" "keyed v" "keyed w"
    and w: "settled w" "pipelines_kept E v w" "\<And>k. w (KClass, k) = v (KClass, k)"
    and c: "\<And>c. v (KCluster, ns, ref) = Some (ClusterObj c) \<Longrightarrow> \<exists>c'. w (KCluster, ns, ref) = Some (ClusterObj c') \<and> c_Spec c' = c_Spec c"
    and d: "has_container (v (KDeployment, ns, ref)) \<Longrightarrow> has_container (w (KDeployment, ns, ref))"
  shows "serviceable E w ns ref content"
proof -
  have "content_of E w ns ref [] content" using v content_of_core [OF v(2,3) contributors_kept [OF w(2) v(2,3)]]
    by (simp add: serviceable_def)
  moreover have "w (KPipeline, ns, []) = None"
    using pipelines_keptD [OF w(2), of "(ns, [])"] v(1) by (auto simp: serviceable_def pipeline_kept_def)
  moreover obtain c cfg where "v (KCluster, ns, ref) = Some (ClusterObj c)" "config_for v c cfg"
    using v(1) by (auto simp: serviceable_def)
  then have "\<exists>c cfg. w (KCluster, ns, ref) = Some (ClusterObj c) \<and> config_for w c cfg"
    using c config_for_cong [where v = v and w = w, OF _ w(3)] by metis
  ultimately show ?thesis using v(1) w(1) d by (simp add: serviceable_def)
qed

definition operator_kinds :: "kind set" where
  "operator_kinds = insert KPod workload_kinds"

context available_server
begin

text \<open>A reconcile of the cluster brings its objects up.\<close>

lemma cluster_served:
  assumes kinds: "\<forall>kd\<in>operator_kinds. installed kd" and v: "serviceable E (view s) ns ref content"
    and run: "run_state (DataPrepperClusterReconciler_Reconcile E (ns, ref)) s = (r, s')"
  shows "config_data (view s') ns (pipelines_cm ref) \<noteq> None" "pod_annotations (view s') ns ref \<noteq> None"
    "has_container (view s' (KDeployment, ns, ref))"
    "view s (KCluster, ns, ref) = Some (ClusterObj c0) \<Longrightarrow> \<exists>c'. view s' (KCluster, ns, ref) = Some (ClusterObj c') \<and> c_Spec c' = c_Spec c0"
proof -
  obtain c cfg where c: "view s (KCluster, ns, ref) = Some (ClusterObj c)" "config_for (view s) c cfg"
    using v by (auto simp: serviceable_def)
  have key: "cns c = ns" "cname c = ref" using view_key [OF c(1)] by simp_all
  have "wpv view (DataPrepperClusterReconciler_Reconcile E (ns, ref))
      (\<lambda>r w. r = Inr () \<longleftrightarrow> (\<exists>cfg. config_for (view s) c cfg) \<and> has_container (view s (deploymentKey c))) (view s)"
    by (rule cluster_reconcile_up) (use kinds v c(1) in \<open>auto simp: operator_kinds_def serviceable_def\<close>)
  from wpvD [OF this refl run] have "r = Inr ()" using v c(2) key by (auto simp: serviceable_def)
  moreover have "settled (view s)" using v by (simp add: serviceable_def)
  ultimately have "reconciled E c (view s) (view s')"
    using wpvD [OF cluster_reconcile_spec [of "view s", OF _ c(1)] refl run] by simp
  then obtain cfg h where est: "established c cfg h (view s) (view s')" and stat: "status_reported E (view s') c (view s')"
    by (auto simp: reconciled_def)
  show "config_data (view s') ns (pipelines_cm ref) \<noteq> None"
  proof (cases "view s (pipelinesKey c)")
    case (Some ob)
    then obtain cm where "ob = ConfigMapObj cm" using view_key [OF Some] by (cases ob) auto
    with Some est show ?thesis by (simp add: established_def pipelines_config_post_def config_data_def key pipelinesConfigMapSuffix_def)
  qed (use est in \<open>auto simp: established_def pipelines_config_post_def config_data_def key pipelinesConfigMapSuffix_def\<close>)
  show "pod_annotations (view s') ns ref \<noteq> None" "has_container (view s' (KDeployment, ns, ref))"
    using est by (auto simp: established_def deployment_post_def pod_annotations_def has_container_def runs_cluster_def key)
  show "\<exists>c'. view s' (KCluster, ns, ref) = Some (ClusterObj c') \<and> c_Spec c' = c_Spec c0" if "view s (KCluster, ns, ref) = Some (ClusterObj c0)"
    using that stat c(1) unfolding status_reported_def key by auto
qed

text \<open>What each kind of step leaves alone.\<close>

lemma pipeline_absent:
  assumes "v (KPipeline, req) = None"
  shows "wpv view (DataPrepperPipelineReconciler_Reconcile E req) (\<lambda>r w. w = v) v"
  unfolding Reconcile_parts
  by (intro wpv_bind wpv_getPipeline) (auto simp: assms intro!: wpv_rules)

lemma cluster_step_frame:
  assumes run: "run_state (DataPrepperClusterReconciler_Reconcile E req) s = (r, s')" and v: "settled (view s)"
  shows "settled (view s')" "fst k = KPipeline \<Longrightarrow> view s' k = view s k" "fst k = KClass \<Longrightarrow> view s' k = view s k"
    "(ns, ref) \<noteq> req \<Longrightarrow> view s' (KCluster, ns, ref) = view s (KCluster, ns, ref)"
    "(ns, ref) \<noteq> req \<Longrightarrow> view s' (KDeployment, ns, ref) = view s (KDeployment, ns, ref)"
    "(ns, ref) \<noteq> req \<Longrightarrow> view s' (KConfigMap, ns, pipelines_cm ref) = view s (KConfigMap, ns, pipelines_cm ref)"
proof -
  have "settled (view s') \<and> (\<forall>k. (\<forall>c. (cns c, cname c) = req \<longrightarrow> k \<notin> touched c) \<longrightarrow> view s' k = view s k)"
  proof (cases "view s (KCluster, req)")
    case None
    with wpvD [OF cluster_reconcile_absent [of "view s", OF None] refl run] v show ?thesis by simp
  next
    case (Some ob)
    then obtain c where c: "ob = ClusterObj c" "(cns c, cname c) = req" using view_key [OF Some] by (cases ob) auto
    with Some have "view s (KCluster, req) = Some (ClusterObj c)" by simp
    from wpvD [OF cluster_reconcile_spec [of "view s", OF v this] refl run] c(2) show ?thesis by (auto dest: only_changesD)
  qed
  then have same: "settled (view s')" "\<And>k. (\<And>c. (cns c, cname c) = req \<Longrightarrow> k \<notin> touched c) \<Longrightarrow> view s' k = view s k" by blast+
  show "settled (view s')" by (rule same(1))
  show "fst k = KPipeline \<Longrightarrow> view s' k = view s k" "fst k = KClass \<Longrightarrow> view s' k = view s k"
    by (rule same(2), auto simp: owned_keys_def)+
  assume "(ns, ref) \<noteq> req"
  then show "view s' (KCluster, ns, ref) = view s (KCluster, ns, ref)" "view s' (KDeployment, ns, ref) = view s (KDeployment, ns, ref)"
    "view s' (KConfigMap, ns, pipelines_cm ref) = view s (KConfigMap, ns, pipelines_cm ref)"
    using peer_not_pipelines [symmetric] by (intro same(2); auto simp: owned_keys_def pipelinesConfigMapSuffix_def)+
qed

lemma pipeline_step_frame:
  assumes run: "run_state (DataPrepperPipelineReconciler_Reconcile E req) s = (r, s')"
  shows "fst k \<notin> {KPipeline, KConfigMap, KDeployment} \<Longrightarrow> view s' k = view s k"
    "fst k = KPipeline \<Longrightarrow> snd k \<noteq> req \<Longrightarrow> view s' k = view s k"
proof -
  have same: "view s' k = view s k" if "fst k \<notin> {KConfigMap, KDeployment}" "k \<noteq> (KPipeline, req)"
  proof (cases "view s (KPipeline, req)")
    case None
    from wpvD [OF pipeline_absent [of "view s", OF None] refl run] show ?thesis by simp
  next
    case (Some ob)
    then obtain p where p: "ob = PipelineObj p" "pkey p = (KPipeline, req)" using view_key [OF Some] by (cases ob) auto
    with Some have "view s (KPipeline, req) = Some (PipelineObj p)" by simp
    from wpvD [OF reconcile_frame [of "view s", OF this] refl run] show ?thesis
      by (rule only_changesD) (use that p(2) in \<open>auto simp: footprint_def\<close>)
  qed
  then show "fst k \<notin> {KPipeline, KConfigMap, KDeployment} \<Longrightarrow> view s' k = view s k"
    "fst k = KPipeline \<Longrightarrow> snd k \<noteq> req \<Longrightarrow> view s' k = view s k" by (cases k; auto)+
qed

text \<open>No request undoes what has been reached.\<close>

lemma serve_serviceable:
  assumes kinds: "\<forall>kd\<in>operator_kinds. installed kd" and v: "serviceable E (view s) ns ref content"
    and run: "run_state (serve E req) s = (r, s')"
  shows "serviceable E (view s') ns ref content"
proof -
  have settled: "settled (view s)" using v by (simp add: serviceable_def)
  show ?thesis
  proof (cases req)
    case (ClusterRequest k)
    then have run: "run_state (DataPrepperClusterReconciler_Reconcile E k) s = (r, s')" using run by simp
    note frame = cluster_step_frame [OF run settled]
    show ?thesis
    proof (rule serviceable_step [OF v])
      show "pipelines_kept E (view s) (view s')" using frame(2) by (simp add: pipelines_kept_def pipeline_kept_def)
    next
      fix c assume "view s (KCluster, ns, ref) = Some (ClusterObj c)"
      then show "\<exists>c'. view s' (KCluster, ns, ref) = Some (ClusterObj c') \<and> c_Spec c' = c_Spec c"
        using cluster_served(4) [OF kinds v] run frame(4) by (cases "k = (ns, ref)") auto
    next
      assume "has_container (view s (KDeployment, ns, ref))"
      then show "has_container (view s' (KDeployment, ns, ref))"
        using cluster_served(3) [OF kinds v] run frame(5) by (cases "k = (ns, ref)") auto
    qed (simp_all add: frame(1,3))
  next
    case (PipelineRequest k)
    then have run: "run_state (DataPrepperPipelineReconciler_Reconcile E k) s = (r, s')" using run by simp
    show ?thesis
    proof (rule serviceable_step [OF v])
      show "settled (view s')" by (rule wpvD [OF pipeline_step_settled [OF settled] refl run])
      show "pipelines_kept E (view s) (view s')" by (rule wpvD [OF pipeline_step_pipelines refl run]) simp
      show "has_container (view s (KDeployment, ns, ref)) \<Longrightarrow> has_container (view s' (KDeployment, ns, ref))"
        using wpvD [OF pipeline_step_objects [OF settled] refl run] by (simp add: objects_kept_def)
    qed (simp_all add: pipeline_step_frame(1) [OF run])
  qed
qed

text \<open>A reconcile of the pipeline itself takes it one stage on.\<close>

lemma own_applied:
  assumes kinds: "\<forall>kd\<in>operator_kinds. installed kd" and v: "serviceable E (view s) ns (ref_of p) content"
    and stage: "stage_reached E 2 (view s) ns n p"
    and run: "run_state (DataPrepperPipelineReconciler_Reconcile E (ns, n)) s = (r, s')"
  shows "stage_reached E 3 (view s') ns n p"
proof -
  obtain q where q: "view s (KPipeline, ns, n) = Some (PipelineObj q)" "p_Spec q = p_Spec p" "IsZero E (DeletionTimestamp (p_Meta q))"
    "pipelineFinalizer \<in> set (Finalizers (p_Meta q))" using stage by (auto simp: stage_reached_def)
  have key: "ns_of q = ns" "Name (p_Meta q) = n" using view_key [OF q(1)] by simp_all
  have app: "applicable E (view s) q" using v stage q(2) key by (auto simp: applicable_def serviceable_def stage_reached_def)
  have "wpv view (DataPrepperPipelineReconciler_Reconcile E (ns, n))
      (\<lambda>r w. (r = Inr () \<longleftrightarrow> applicable E (view s) q) \<and> (r = Inr () \<longrightarrow> applied E (view s) q w)) (view s)"
    by (rule reconcile_applied)
      (use kinds v q key in \<open>auto simp: operator_kinds_def workload_kinds_def serviceable_def\<close>)
  from wpvD [OF this refl run] app have applied: "applied E (view s) q (view s')" by simp
  have "only_changes (footprint q) (view s) (view s')" by (rule wpvD [OF reconcile_frame [of "view s", OF q(1)] refl run])
  then have "in_sync E (view s') ns (ref_of p) []" using applied_in_sync [OF applied] q(1,2) key by simp
  moreover have "objects_kept (view s) (view s')"
    by (rule wpvD [OF pipeline_step_objects refl run]) (use v in \<open>simp add: serviceable_def\<close>)
  moreover obtain q' where "view s' (pkey q) = Some (PipelineObj q')" "same_core q q'" "pt_Phase (p_Stat q') = DataPrepperPipelinePhaseApplied"
    using applied by (auto simp: applied_def status_written_def reports_def)
  ultimately show ?thesis using stage q key by (auto simp: stage_reached_def objects_kept_def same_core_def)
qed

lemma own_finalized:
  assumes kinds: "\<forall>kd\<in>operator_kinds. installed kd" and v: "serviceable E (view s) ns (ref_of p) content"
    and stage: "stage_reached E 1 (view s) ns n p"
    and run: "run_state (DataPrepperPipelineReconciler_Reconcile E (ns, n)) s = (r, s')"
  shows "stage_reached E 2 (view s') ns n p"
proof (cases "stage_reached E 2 (view s) ns n p")
  case True
  from own_applied [OF kinds v True run] show ?thesis by (rule stage_mono) simp
next
  case False
  then obtain q where q: "view s (KPipeline, ns, n) = Some (PipelineObj q)" "p_Spec q = p_Spec p" "IsZero E (DeletionTimestamp (p_Meta q))"
    "pipelineFinalizer \<notin> set (Finalizers (p_Meta q))" using stage by (auto simp: stage_reached_def)
  let ?q = "q\<lparr>p_Meta := (p_Meta q)\<lparr>Finalizers := Finalizers (p_Meta q) @ [pipelineFinalizer]\<rparr>\<rparr>"
  have key: "ns_of q = ns" "Name (p_Meta q) = n" using view_key [OF q(1)] by simp_all
  have eff: "\<exists>q'. w (KPipeline, ns, n) = Some (PipelineObj q') \<and> p_Spec q' = p_Spec p \<and> IsZero E (DeletionTimestamp (p_Meta q')) \<and>
      pipelineFinalizer \<in> set (Finalizers (p_Meta q'))" if "update_effect (PipelineObj ?q) (view s) w" for w
    using that q key by (auto simp: update_effect_def stored_as_def meta_kept_def)
  have "wpv view (DataPrepperPipelineReconciler_Reconcile E (ns, n)) (\<lambda>r w.
      \<exists>q'. w (KPipeline, ns, n) = Some (PipelineObj q') \<and> p_Spec q' = p_Spec p \<and> IsZero E (DeletionTimestamp (p_Meta q')) \<and>
        pipelineFinalizer \<in> set (Finalizers (p_Meta q'))) (view s)"
    unfolding Reconcile_parts
    by (intro wpv_bind up_getPipeline)
      (use kinds q key eff in \<open>auto simp: operator_kinds_def workload_kinds_def handleFetched_def ContainsFinalizer AddFinalizer
        intro!: wpv_bindE up_Update wpv_returnE\<close>)
  from wpvD [OF this refl run] wpvD [OF pipeline_step_objects refl run] v stage show ?thesis
    by (auto simp: stage_reached_def serviceable_def objects_kept_def)
qed

lemma serve_reconciles: "run_state (serve E req) s = (r, s') \<Longrightarrow> reconciles E s s'"
  by (cases req) (auto intro: reconciles.intros)

lemma serve_stage:
  assumes kinds: "\<forall>kd\<in>operator_kinds. installed kd" and v: "serviceable E (view s) ns (ref_of p) content"
    and stage: "stage_reached E k (view s) ns n p" and run: "run_state (serve E req) s = (r, s')"
  shows "stage_reached E k (view s') ns n p"
proof -
  have settled: "settled (view s)" using v by (simp add: serviceable_def)
  have sync: "in_sync E (view s') ns (ref_of p) []" if "3 \<le> k"
    using reconciles_synced [OF serve_reconciles [OF run] settled, of ns "ref_of p"] that stage v
    by (simp add: synced_def stage_reached_def serviceable_def)
  have objects: "config_data (view s') ns (pipelines_cm (ref_of p)) \<noteq> None \<and> pod_annotations (view s') ns (ref_of p) \<noteq> None" if "1 \<le> k"
  proof (cases req)
    case (ClusterRequest c)
    then have run: "run_state (DataPrepperClusterReconciler_Reconcile E c) s = (r, s')" using run by simp
    show ?thesis
    proof (cases "c = (ns, ref_of p)")
      case True
      with cluster_served(1,2) [OF kinds v] run show ?thesis by simp
    next
      case False
      with cluster_step_frame(5,6) [OF run settled, of ns "ref_of p"] stage that show ?thesis
        by (simp add: stage_reached_def config_data_def pod_annotations_def)
    qed
  next
    case (PipelineRequest c)
    then have "objects_kept (view s) (view s')"
      using run by (auto intro: wpvD [OF pipeline_step_objects [OF settled] refl])
    then show ?thesis using stage that by (simp add: stage_reached_def objects_kept_def)
  qed
  show ?thesis
  proof (cases "req = PipelineRequest (ns, n) \<and> 2 \<le> k")
    case True
    then have "stage_reached E 3 (view s') ns n p" using run own_applied [OF kinds v stage_mono [OF stage, of 2]] by simp
    then show ?thesis using stage by (auto simp: stage_reached_def)
  next
    case other: False
    obtain q where q: "view s (KPipeline, ns, n) = Some (PipelineObj q)" "p_Spec q = p_Spec p" "IsZero E (DeletionTimestamp (p_Meta q))"
      using stage by (auto simp: stage_reached_def)
    show ?thesis
    proof (cases "view s' (KPipeline, ns, n) = view s (KPipeline, ns, n)")
      case True
      with stage sync objects show ?thesis by (simp add: stage_reached_def)
    next
      case changed: False
      have "req = PipelineRequest (ns, n)"
      proof (cases req)
        case (ClusterRequest c)
        with run cluster_step_frame(2) [of c s r s' "(KPipeline, ns, n)"] settled changed show ?thesis by simp
      next
        case (PipelineRequest c)
        with run pipeline_step_frame(2) [of c s r s' "(KPipeline, ns, n)"] changed show ?thesis by auto
      qed
      with run have "run_state (DataPrepperPipelineReconciler_Reconcile E (ns, n)) s = (r, s')" by simp
      from wpvD [OF pipeline_step_pipelines refl this] have "pipelines_kept E (view s) (view s')" by simp
      from pipelines_keptD [OF this, of "(ns, n)"] q changed obtain q' where
        "view s' (KPipeline, ns, n) = Some (PipelineObj q')" "p_Spec q' = p_Spec p" "IsZero E (DeletionTimestamp (p_Meta q'))"
        by (auto simp: pipeline_kept_def)
      then show ?thesis using other \<open>req = PipelineRequest (ns, n)\<close> sync objects by (simp add: stage_reached_def)
    qed
  qed
qed

text \<open>The three requests that take a pipeline from stage 0 to stage 3, with any others in between.\<close>

lemma serve_next:
  assumes kinds: "\<forall>kd\<in>operator_kinds. installed kd" and v: "serviceable E (view s) ns (ref_of p) content"
    and stage: "stage_reached E k (view s) ns n p" "k < 3"
    and run: "run_state (serve E ([ClusterRequest (ns, ref_of p), PipelineRequest (ns, n), PipelineRequest (ns, n)] ! k)) s = (r, s')"
  shows "stage_reached E (Suc k) (view s') ns n p"
proof -
  consider "k = 0" | "k = 1" | "k = 2" using stage(2) by linarith
  then show ?thesis
  proof cases
    case 1
    with run have "run_state (serve E (ClusterRequest (ns, ref_of p))) s = (r, s')" by simp
    from serve_stage [OF kinds v stage(1) this] cluster_served(1,2) [OF kinds v, of r s'] run 1 show ?thesis
      by (simp add: stage_reached_def)
  next
    case 2
    with run stage own_finalized [OF kinds v, of n r s'] show ?thesis by (simp add: numeral_2_eq_2)
  next
    case 3
    with run stage own_applied [OF kinds v, of n r s'] show ?thesis by (simp add: numeral_3_eq_3)
  qed
qed

lemma serve_all_stages:
  assumes kinds: "\<forall>kd\<in>operator_kinds. installed kd"
  shows "serviceable E (view s) ns (ref_of p) content \<Longrightarrow> stage_reached E k (view s) ns n p \<Longrightarrow> k \<le> 3 \<Longrightarrow>
    subseq (drop k [ClusterRequest (ns, ref_of p), PipelineRequest (ns, n), PipelineRequest (ns, n)]) reqs \<Longrightarrow>
    run_state (serve_all E reqs) s = (u, s') \<Longrightarrow>
    serviceable E (view s') ns (ref_of p) content \<and> stage_reached E 3 (view s') ns n p"
proof (induction reqs arbitrary: s k)
  case Nil
  then have "k = 3" by (cases "k = 3") auto
  with Nil show ?case by simp
next
  case (Cons req reqs)
  define plan where "plan = [ClusterRequest (ns, ref_of p), PipelineRequest (ns, n), PipelineRequest (ns, n)]"
  have split: "drop k plan = plan ! k # drop (Suc k) plan" if "k < 3"
    by (rule Cons_nth_drop_Suc [symmetric]) (use that in \<open>simp add: plan_def\<close>)
  have sub: "subseq (drop k plan) (req # reqs)" using Cons.prems(4) by (simp only: plan_def)
  note IH = Cons.IH [folded plan_def]
  obtain r s1 where one: "run_state (serve E req) s = (r, s1)" by (metis surj_pair)
  with Cons.prems(5) have rest: "run_state (serve_all E reqs) s1 = (u, s')" by simp
  note v1 = serve_serviceable [OF kinds Cons.prems(1) one]
  show ?case
  proof (cases "k < 3 \<and> req = plan ! k")
    case True
    with sub split have "subseq (drop (Suc k) plan) reqs" by simp
    moreover have "stage_reached E (Suc k) (view s1) ns n p"
      by (rule serve_next [OF kinds Cons.prems(1,2)]) (use True one in \<open>simp_all add: plan_def\<close>)
    ultimately show ?thesis using IH [OF v1 _ _ _ rest, of "Suc k"] True by simp
  next
    case False
    have "subseq (drop k plan) reqs"
    proof (cases "k < 3")
      case True
      with sub split False show ?thesis by (metis subseq_Cons2_neq)
    qed (use Cons.prems(3) in \<open>simp add: plan_def\<close>)
    then show ?thesis using IH [OF v1 serve_stage [OF kinds Cons.prems(1,2) one] Cons.prems(3) _ rest] by simp
  qed
qed

end

section \<open>Properties\<close>

text \<open>
  C1: the operator brings every pipeline up. Take a cluster with a configuration whose pipelines merge,
  and a live pipeline of it, new or not. However the requests for all clusters and pipelines are
  ordered and whatever else is requested in between, once the cluster has been requested and after that
  twice the pipeline, the pipeline is Applied, the cluster's ConfigMap holds the merged content and its
  Deployment the hash of it, and it stays so however the requests go on.
\<close>

theorem operator_applies_pipelines:
  assumes "available_server E view installed" "\<forall>kd\<in>operator_kinds. installed kd"
    and "serviceable E (view s) ns (ref_of p) content"
    and "view s (KPipeline, ns, n) = Some (PipelineObj p)" "IsZero E (DeletionTimestamp (p_Meta p))"
    and "subseq [ClusterRequest (ns, ref_of p), PipelineRequest (ns, n), PipelineRequest (ns, n)] reqs"
    and "run_state (serve_all E reqs) s = (u, s')"
  shows "(\<exists>q. view s' (KPipeline, ns, n) = Some (PipelineObj q) \<and> p_Spec q = p_Spec p \<and>
           pt_Phase (p_Stat q) = DataPrepperPipelinePhaseApplied) \<and>
    config_data (view s') ns (pipelines_cm (ref_of p)) \<noteq> None \<and>
    goget (config_data (view s') ns (pipelines_cm (ref_of p))) pipelinesConfigMapKey = content \<and>
    goget (pod_annotations (view s') ns (ref_of p)) pipelinesHashAnnotation = content_hash content"
proof -
  have "stage_reached E 0 (view s) ns n p" using assms(4,5) by (simp add: stage_reached_def)
  with available_server.serve_all_stages [OF assms(1-3), of 0 n reqs u s'] assms(6,7)
  have "serviceable E (view s') ns (ref_of p) content" "stage_reached E 3 (view s') ns n p" by simp_all
  then show ?thesis
    using content_of_unique unfolding serviceable_def stage_reached_def in_sync_def by fastforce
qed

lemma clusterDemo_pipelines: "stored_pipelines (mem_view clusterDemo) ''default'' = {demoPipeline ''one'' ''logs''}"
proof -
  have "mem_view clusterDemo (KPipeline, ''default'', n) = Some (PipelineObj q) \<longleftrightarrow> n = ''one'' \<and> q = demoPipeline ''one'' ''logs''" for n q
    by (auto simp: clusterDemo_def mem_view_def demo_defs)
  then show ?thesis by (simp add: stored_pipelines_def)
qed

lemma clusterDemo_serviceable: "\<exists>content. serviceable (mem_env inst) (mem_view clusterDemo) ''default'' ''prepper'' content"
proof -
  let ?p = "demoPipeline ''one'' ''logs''" and ?E = "mem_env inst"
  have "contributors ?E (mem_view clusterDemo) ''default'' ''prepper'' [] = set [?p]"
    unfolding contributors_def clusterDemo_pipelines by (auto simp: contributes_def demo_defs)
  moreover have "mergeable ?p" using demo_key_nonblank by (simp add: mergeable_def demoPipeline_def demoRaw_keys)
  then have "merged (set [?p]) (insertAll [?p] fmempty)" by (intro merged_insertAll) auto
  ultimately have "\<exists>content. content_of ?E (mem_view clusterDemo) ''default'' ''prepper'' [] content"
    unfolding content_of_def using mem_renders by metis
  moreover have "mem_view clusterDemo (KPipeline, ''default'', []) = None" "has_container (mem_view clusterDemo (KDeployment, ''default'', ''prepper''))"
    by (simp_all add: clusterDemo_def mem_view_def demo_defs has_container_def)
  ultimately show ?thesis using clusterDemo_settled clusterDemo_cluster clusterDemo_config by (auto simp: serviceable_def)
qed

text \<open>A new cluster and a new pipeline: the first requests for the pipeline come too early.\<close>

theorem operator_applies_pipelines_witness:
  "\<exists>u s' q content. run_state (serve_all (mem_env all_kinds)
       [PipelineRequest (''default'', ''one''), PipelineRequest (''default'', ''one''), ClusterRequest (''default'', ''prepper''),
        PipelineRequest (''default'', ''one''), ClusterRequest (''default'', ''prepper''), PipelineRequest (''default'', ''one'')]) clusterDemo = (u, s') \<and>
     mem_view s' (KPipeline, ''default'', ''one'') = Some (PipelineObj q) \<and> pt_Phase (p_Stat q) = DataPrepperPipelinePhaseApplied \<and>
     goget (config_data (mem_view s') ''default'' (pipelines_cm ''prepper'')) pipelinesConfigMapKey = content \<and>
     goget (pod_annotations (mem_view s') ''default'' ''prepper'') pipelinesHashAnnotation = content_hash content"
proof -
  let ?P = "PipelineRequest (''default'', ''one'')" and ?C = "ClusterRequest (''default'', ''prepper'')" and ?p = "demoPipeline ''one'' ''logs''"
  let ?reqs = "[?P, ?P, ?C, ?P, ?C, ?P]" and ?E = "mem_env all_kinds"
  have p: "mem_view clusterDemo (KPipeline, ''default'', ''one'') = Some (PipelineObj ?p)" "IsZero ?E (DeletionTimestamp (p_Meta ?p))"
    "ref_of ?p = ''prepper''" by (simp_all add: clusterDemo_def mem_view_def demo_defs)
  obtain content where v: "serviceable ?E (mem_view clusterDemo) ''default'' (ref_of ?p) content"
    using clusterDemo_serviceable p(3) by metis
  obtain u s' where run: "run_state (serve_all ?E ?reqs) clusterDemo = (u, s')" by (metis surj_pair)
  have sub: "subseq [ClusterRequest (''default'', ref_of ?p), ?P, ?P] ?reqs" by (simp add: p(3))
  from operator_applies_pipelines [OF mem.available_server_axioms _ v p(1,2) sub run] run show ?thesis unfolding p(3) by auto
qed

end
