(* ===== verification/Shared_Server.thy ===== *)
theory Shared_Server
  imports Api_Server
begin

text \<open>
  The API server with other writers. Its history is the list of all writes to objects, latest first, by
  this client or by others; others may write between any two calls, and a read may come from a cache and
  return anything that was ever stored under its key. What protects an update is optimistic locking: the
  object carries the resource version it was read at, and the server refuses an update of a stored
  object with another version.

  \<open>guar G m Q S\<close> is the logic for this setting, in the rely-guarantee style with an arbitrary rely:
  started when the objects \<open>S\<close> have been stored at some time, \<open>m\<close> only makes writes that satisfy \<open>G\<close>,
  and its result satisfies \<open>Q\<close> with the objects then known to have been stored.
\<close>

section \<open>Histories\<close>

datatype api_write = Write (by_client: bool) (key_of: object_key) (old_of: "kobject option") (new_of: "kobject option")

definition stored_ever :: "api_write list \<Rightarrow> kobject set" where
  "stored_ever h = {ob. \<exists>w\<in>set h. new_of w = Some ob}"

text \<open>The object stored under a key is the one of the latest write to the key.\<close>

fun current :: "api_write list \<Rightarrow> object_key \<Rightarrow> kobject option" where
  "current [] key = None"
| "current (w # h) key = (if key_of w = key then new_of w else current h key)"

text \<open>Every write replaces what is stored under its key.\<close>

fun linked :: "api_write list \<Rightarrow> bool" where
  "linked [] \<longleftrightarrow> True"
| "linked (w # h) \<longleftrightarrow> old_of w = current h (key_of w) \<and> linked h"

text \<open>
  In a coherent history, moreover, an object is stored under its key, the resource version, a part of the
  metadata the operator carries along unread, tells the objects of a key apart, and an object marked for
  deletion holds a finalizer.
\<close>

definition coherent :: "(string \<Rightarrow> string) \<Rightarrow> api_write list \<Rightarrow> bool" where
  "coherent version h \<longleftrightarrow> linked h \<and>
     (\<forall>w\<in>set h. \<forall>ob. new_of w = Some ob \<longrightarrow> obj_key ob = key_of w) \<and>
     (\<forall>ob\<in>stored_ever h. version (MetaOther (obj_meta ob)) \<noteq> [] \<and>
        (DeletionTimestamp (obj_meta ob) \<noteq> None \<longrightarrow> Finalizers (obj_meta ob) \<noteq> [])) \<and>
     (\<forall>ob\<in>stored_ever h. \<forall>ob'\<in>stored_ever h. obj_key ob = obj_key ob' \<longrightarrow>
        version (MetaOther (obj_meta ob)) = version (MetaOther (obj_meta ob')) \<longrightarrow> ob = ob')"

lemma stored_ever_simps [simp]:
  "stored_ever [] = {}" "stored_ever (w # h) = set_option (new_of w) \<union> stored_ever h"
  "stored_ever (ws @ h) = stored_ever ws \<union> stored_ever h"
  by (auto simp: stored_ever_def elem_set)

lemma currentD: "current h key = Some ob \<Longrightarrow> \<exists>w\<in>set h. key_of w = key \<and> new_of w = Some ob"
  by (induction h) (auto split: if_splits)

lemma linked_old: "linked h \<Longrightarrow> w \<in> set h \<Longrightarrow> old_of w = Some ob \<Longrightarrow> \<exists>w'\<in>set h. key_of w' = key_of w \<and> new_of w' = Some ob"
proof (induction h)
  case (Cons u h)
  then show ?case using currentD [of h "key_of u" ob] by auto
qed simp

lemma linked_append: "linked (ws @ h) \<Longrightarrow> linked h"
  by (induction ws) auto

lemma coherentD:
  assumes "coherent version h"
  shows "ob \<in> stored_ever h \<Longrightarrow> version (MetaOther (obj_meta ob)) \<noteq> []"
    "ob \<in> stored_ever h \<Longrightarrow> DeletionTimestamp (obj_meta ob) \<noteq> None \<Longrightarrow> Finalizers (obj_meta ob) \<noteq> []"
    "ob \<in> stored_ever h \<Longrightarrow> ob' \<in> stored_ever h \<Longrightarrow> obj_key ob = obj_key ob' \<Longrightarrow>
       version (MetaOther (obj_meta ob)) = version (MetaOther (obj_meta ob')) \<Longrightarrow> ob = ob'"
    "w \<in> set h \<Longrightarrow> new_of w = Some ob \<Longrightarrow> obj_key ob = key_of w" "linked h"
  using assms unfolding coherent_def by blast+

lemma stored_everI: "w \<in> set h \<Longrightarrow> new_of w = Some ob \<Longrightarrow> ob \<in> stored_ever h"
  by (auto simp: stored_ever_def)

lemma coherent_current:
  assumes "coherent version h"
  shows "current h key = Some ob \<Longrightarrow> obj_key ob = key \<and> ob \<in> stored_ever h"
    "w \<in> set h \<Longrightarrow> old_of w = Some ob \<Longrightarrow> obj_key ob = key_of w \<and> ob \<in> stored_ever h"
  using currentD [of h key ob] linked_old [OF coherentD(5) [OF assms], of w ob] coherentD(4) [OF assms] stored_everI [of _ h ob]
  by metis+

text \<open>\<open>h'\<close> continues \<open>h\<close> by writes of which those of this client satisfy \<open>G\<close>.\<close>

definition continues :: "(string \<Rightarrow> string) \<Rightarrow> (api_write \<Rightarrow> bool) \<Rightarrow> api_write list \<Rightarrow> api_write list \<Rightarrow> bool" where
  "continues version G h h' \<longleftrightarrow> coherent version h' \<and> (\<exists>ws. h' = ws @ h \<and> (\<forall>w\<in>set ws. by_client w \<longrightarrow> G w))"

lemma continues_refl [simp]: "continues version G h h \<longleftrightarrow> coherent version h"
  by (simp add: continues_def)

lemma continues_trans: "continues version G h h' \<Longrightarrow> continues version G h' h'' \<Longrightarrow> continues version G h h''"
  by (auto simp: continues_def)

lemma continues_mono: "continues version G h h' \<Longrightarrow> (\<And>w. G w \<Longrightarrow> w \<in> set h' \<Longrightarrow> G' w) \<Longrightarrow> continues version G' h h'"
  by (fastforce simp: continues_def)

lemma continues_seen: "continues version G h h' \<Longrightarrow> stored_ever h \<subseteq> stored_ever h'"
  by (auto simp: continues_def)

lemma continues_coherent: "continues version G h h' \<Longrightarrow> coherent version h'"
  by (simp add: continues_def)

text \<open>What one write of the client does to the object it replaces.\<close>

definition creates :: "kobject \<Rightarrow> api_write \<Rightarrow> bool" where
  "creates ob w \<longleftrightarrow> key_of w = obj_key ob \<and> old_of w = None \<and> (\<exists>ob'. new_of w = Some ob' \<and> stored_as ob ob')"

definition updates :: "(string \<Rightarrow> string) \<Rightarrow> kobject \<Rightarrow> api_write \<Rightarrow> bool" where
  "updates version ob w \<longleftrightarrow> key_of w = obj_key ob \<and>
     (\<exists>old. old_of w = Some old \<and>
        (version (MetaOther (obj_meta ob)) = [] \<or> version (MetaOther (obj_meta ob)) = version (MetaOther (obj_meta old))) \<and>
        (if DeletionTimestamp (obj_meta old) \<noteq> None \<and> Finalizers (obj_meta ob) = [] then new_of w = None
         else \<exists>ob'. new_of w = Some ob' \<and> stored_as ob ob' \<and> status_of ob' = status_of old))"

definition status_updates :: "(string \<Rightarrow> string) \<Rightarrow> kobject \<Rightarrow> api_write \<Rightarrow> bool" where
  "status_updates version ob w \<longleftrightarrow> key_of w = obj_key ob \<and>
     (\<exists>old ob'. old_of w = Some old \<and> new_of w = Some ob' \<and>
        (version (MetaOther (obj_meta ob)) = [] \<or> version (MetaOther (obj_meta ob)) = version (MetaOther (obj_meta old))) \<and>
        stored_as old ob' \<and> status_of ob' = status_of ob)"

definition deletes :: "kobject \<Rightarrow> api_write \<Rightarrow> bool" where
  "deletes ob w \<longleftrightarrow> key_of w = obj_key ob \<and>
     (\<exists>old. old_of w = Some old \<and> (case new_of w of None \<Rightarrow> True | Some ob' \<Rightarrow> stored_as old ob'))"

text \<open>
  An update of an object that was read, carrying its resource version, replaces that very object, whatever
  was written in between.
\<close>

definition replaces :: "kobject \<Rightarrow> kobject \<Rightarrow> api_write \<Rightarrow> bool" where
  "replaces old ob w \<longleftrightarrow> key_of w = obj_key ob \<and> old_of w = Some old \<and>
     (if DeletionTimestamp (obj_meta old) \<noteq> None \<and> Finalizers (obj_meta ob) = [] then new_of w = None
      else \<exists>ob'. new_of w = Some ob' \<and> stored_as ob ob' \<and> status_of ob' = status_of old)"

definition sets_status :: "kobject \<Rightarrow> kobject \<Rightarrow> api_write \<Rightarrow> bool" where
  "sets_status old ob w \<longleftrightarrow> key_of w = obj_key ob \<and> old_of w = Some old \<and>
     (\<exists>ob'. new_of w = Some ob' \<and> stored_as old ob' \<and> status_of ob' = status_of ob)"

lemma same_version_same_object:
  assumes "coherent version h" "w \<in> set h" "old_of w = Some old'" "key_of w = obj_key ob" "old \<in> stored_ever h"
    and "obj_key old = obj_key ob" "MetaOther (obj_meta old) = MetaOther (obj_meta ob)"
    and "version (MetaOther (obj_meta ob)) = [] \<or> version (MetaOther (obj_meta ob)) = version (MetaOther (obj_meta old'))"
  shows "old' = old"
  using coherentD(1) [OF assms(1,5)] coherent_current(2) [OF assms(1-3)] coherentD(3) [OF assms(1), of old' old] assms by simp

lemma updates_replaces:
  assumes "coherent version h" "w \<in> set h" "old \<in> stored_ever h" "obj_key old = obj_key ob"
    "MetaOther (obj_meta old) = MetaOther (obj_meta ob)"
  shows "updates version ob w \<Longrightarrow> replaces old ob w" "status_updates version ob w \<Longrightarrow> sets_status old ob w"
  using same_version_same_object [OF assms(1,2) _ _ assms(3-5)] by (auto simp: updates_def replaces_def status_updates_def sets_status_def)

section \<open>The interface\<close>

text \<open>Deletions are not protected by a version: the operator sends none.\<close>

locale shared_server = apimachinery E for E :: "'s env" +
  fixes hist :: "'s \<Rightarrow> api_write list" and version :: "string \<Rightarrow> string"
  assumes Get_shared: "coherent version (hist s) \<Longrightarrow> run_state (Get E kd k) s = (g, s') \<Longrightarrow>
      continues version (\<lambda>_. False) (hist s) (hist s') \<and>
      (\<forall>ob. g = Inr ob \<longrightarrow> ob \<in> stored_ever (hist s') \<and> obj_key ob = (kd, k))"
    and List_shared: "coherent version (hist s) \<Longrightarrow> run_state (List E kd ns sel) s = (l, s') \<Longrightarrow>
      continues version (\<lambda>_. False) (hist s) (hist s') \<and> (\<forall>obs. l = Inr obs \<longrightarrow> set obs \<subseteq> stored_ever (hist s'))"
    and Create_shared: "coherent version (hist s) \<Longrightarrow> run_state (Create E ob) s = (r, s') \<Longrightarrow>
      continues version (creates ob) (hist s) (hist s')"
    and Update_shared: "coherent version (hist s) \<Longrightarrow> run_state (Update E ob) s = (r, s') \<Longrightarrow>
      continues version (updates version ob) (hist s) (hist s')"
    and StatusUpdate_shared: "coherent version (hist s) \<Longrightarrow> run_state (StatusUpdate E ob) s = (r, s') \<Longrightarrow>
      continues version (status_updates version ob) (hist s) (hist s')"
    and Delete_shared: "coherent version (hist s) \<Longrightarrow> run_state (Delete E ob) s = (r, s') \<Longrightarrow>
      continues version (deletes ob) (hist s) (hist s')"
    and Condition_shared: "coherent version (hist s) \<Longrightarrow> run_state (SetStatusCondition E cs c) s = (ds, s') \<Longrightarrow>
      continues version (\<lambda>_. False) (hist s) (hist s')"
begin

definition guar :: "(api_write \<Rightarrow> bool) \<Rightarrow> ('s, 'a) state \<Rightarrow> ('a \<Rightarrow> kobject set \<Rightarrow> bool) \<Rightarrow> kobject set \<Rightarrow> bool" where
  "guar G m Q S \<longleftrightarrow>
     (\<forall>s r s'. coherent version (hist s) \<longrightarrow> S \<subseteq> stored_ever (hist s) \<longrightarrow> run_state m s = (r, s') \<longrightarrow>
        continues version G (hist s) (hist s') \<and> (\<exists>S'. S \<subseteq> S' \<and> S' \<subseteq> stored_ever (hist s') \<and> Q r S'))"

lemma guarI:
  assumes "\<And>s r s'. coherent version (hist s) \<Longrightarrow> S \<subseteq> stored_ever (hist s) \<Longrightarrow> run_state m s = (r, s') \<Longrightarrow>
      continues version G (hist s) (hist s') \<and> (\<exists>S'. S \<subseteq> S' \<and> S' \<subseteq> stored_ever (hist s') \<and> Q r S')"
  shows "guar G m Q S"
  unfolding guar_def by (intro allI impI) (rule assms)

lemma guarD:
  assumes "guar G m Q S" "coherent version (hist s)" "S \<subseteq> stored_ever (hist s)" "run_state m s = (r, s')"
  obtains S' where "continues version G (hist s) (hist s')" "S \<subseteq> S'" "S' \<subseteq> stored_ever (hist s')" "Q r S'"
  using assms(1) [unfolded guar_def, rule_format, OF assms(2-4)] by (elim conjE exE) (rule that)

lemma guar_mono: "guar G m Q S \<Longrightarrow> (\<And>r S'. S \<subseteq> S' \<Longrightarrow> Q r S' \<Longrightarrow> Q' r S') \<Longrightarrow> guar G m Q' S"
  unfolding guar_def by meson

lemma guar_return: "Q x S \<Longrightarrow> guar G (State_Monad.return x) Q S"
  by (rule guarI) auto

lemma guar_returnE: "Q (Inr x) S \<Longrightarrow> guar G (returnE x) Q S"
  by (rule guarI) auto

lemma guar_throwE: "Q (Inl e) S \<Longrightarrow> guar G (throwE e) Q S"
  by (rule guarI) auto

lemma guar_liftE: "Q r S \<Longrightarrow> guar G (liftE r) Q S"
  by (rule guarI) auto

lemma guar_bind:
  assumes "guar G m (\<lambda>r. guar G (f r) Q) S"
  shows "guar G (State_Monad.bind m f) Q S"
proof (rule guarI)
  fix s r s'
  assume s: "coherent version (hist s)" "S \<subseteq> stored_ever (hist s)" and run: "run_state (State_Monad.bind m f) s = (r, s')"
  obtain x t where m: "run_state m s = (x, t)" by (metis surj_pair)
  with run have f: "run_state (f x) t = (r, s')" by simp
  from assms s m obtain S' where t: "continues version G (hist s) (hist t)" "S \<subseteq> S'" "S' \<subseteq> stored_ever (hist t)" "guar G (f x) Q S'"
    by (rule guarD)
  from t(4) continues_coherent [OF t(1)] t(3) f
  obtain S'' where "continues version G (hist t) (hist s')" "S' \<subseteq> S''" "S'' \<subseteq> stored_ever (hist s')" "Q r S''" by (rule guarD)
  with t continues_trans [OF t(1)] show "continues version G (hist s) (hist s') \<and> (\<exists>S'. S \<subseteq> S' \<and> S' \<subseteq> stored_ever (hist s') \<and> Q r S')"
    by blast
qed

lemma guar_bindE:
  "guar G m (\<lambda>r S'. case r of Inl e \<Rightarrow> Q (Inl e) S' | Inr x \<Rightarrow> guar G (f x) Q S') S \<Longrightarrow> guar G (bindE m f) Q S"
  unfolding bindE_def
  by (rule guar_bind, erule guar_mono) (auto split: sum.splits intro: guar_throwE)

lemma guar_if: "(b \<Longrightarrow> guar G m Q S) \<Longrightarrow> (\<not> b \<Longrightarrow> guar G n Q S) \<Longrightarrow> guar G (if b then m else n) Q S"
  by simp

lemma guar_case_sum:
  "(\<And>e. r = Inl e \<Longrightarrow> guar G (f e) Q S) \<Longrightarrow> (\<And>x. r = Inr x \<Longrightarrow> guar G (g x) Q S)
    \<Longrightarrow> guar G (case r of Inl e \<Rightarrow> f e | Inr x \<Rightarrow> g x) Q S"
  by (cases r) auto

lemma guar_case_option:
  "(r = None \<Longrightarrow> guar G m Q S) \<Longrightarrow> (\<And>x. r = Some x \<Longrightarrow> guar G (g x) Q S)
    \<Longrightarrow> guar G (case r of None \<Rightarrow> m | Some x \<Rightarrow> g x) Q S"
  by (cases r) auto

lemmas guar_rules = guar_return guar_returnE guar_throwE guar_liftE guar_bind guar_bindE guar_if guar_case_sum guar_case_option

text \<open>Reads. What was found had been stored.\<close>

lemma guar_getAs:
  assumes as: "\<And>ob. as ob = None \<longleftrightarrow> kind_of ob \<noteq> kd"
    and found: "\<And>ob x. as ob = Some x \<Longrightarrow> obj_key ob = (kd, k) \<Longrightarrow> Q (Inr x) (insert ob S)" and err: "\<And>e. Q (Inl e) S"
  shows "guar G (getAs E as kd k) Q S"
proof (rule guarI)
  fix s r s'
  assume s: "coherent version (hist s)" "S \<subseteq> stored_ever (hist s)" and run: "run_state (getAs E as kd k) s = (r, s')"
  then obtain g where get: "run_state (Get E kd k) s = (g, s')" and r: "r = decode as g"
    by (auto simp: getAs_def split: prod.splits)
  from Get_shared [OF s(1) get] have cont: "continues version (\<lambda>_. False) (hist s) (hist s')"
    and ob: "\<And>ob. g = Inr ob \<Longrightarrow> ob \<in> stored_ever (hist s') \<and> obj_key ob = (kd, k)" by auto
  have "\<exists>S'. S \<subseteq> S' \<and> S' \<subseteq> stored_ever (hist s') \<and> Q r S'"
  proof (cases g)
    case (Inl e)
    with r err s(2) continues_seen [OF cont] show ?thesis by (intro exI [of _ S]) (auto simp: decode_def)
  next
    case (Inr ob)
    with ob have "ob \<in> stored_ever (hist s')" "obj_key ob = (kd, k)" by auto
    moreover from this as [of ob] obtain x where "as ob = Some x" by (auto simp: obj_key_def)
    ultimately show ?thesis using found Inr r s(2) continues_seen [OF cont]
      by (intro exI [of _ "insert ob S"]) (auto simp: decode_def)
  qed
  with continues_mono [OF cont] show "continues version G (hist s) (hist s') \<and> (\<exists>S'. S \<subseteq> S' \<and> S' \<subseteq> stored_ever (hist s') \<and> Q r S')"
    by blast
qed

lemma guar_calls:
  assumes "\<And>s r s'. coherent version (hist s) \<Longrightarrow> run_state m s = (r, s') \<Longrightarrow> continues version P (hist s) (hist s')"
    and "\<And>h w. coherent version h \<Longrightarrow> S \<subseteq> stored_ever h \<Longrightarrow> w \<in> set h \<Longrightarrow> P w \<Longrightarrow> G w" and "\<And>r. Q r S"
  shows "guar G m Q S"
proof (rule guarI)
  fix s r s'
  assume s: "coherent version (hist s)" "S \<subseteq> stored_ever (hist s)" and run: "run_state m s = (r, s')"
  note cont = assms(1) [OF s(1) run]
  have S: "S \<subseteq> stored_ever (hist s')" using s(2) continues_seen [OF cont] by blast
  have "continues version G (hist s) (hist s')"
    by (rule continues_mono [OF cont]) (rule assms(2) [OF continues_coherent [OF cont] S])
  with S assms(3) show "continues version G (hist s) (hist s') \<and> (\<exists>S'. S \<subseteq> S' \<and> S' \<subseteq> stored_ever (hist s') \<and> Q r S')" by blast
qed

lemma guar_listAs: "(\<And>r. Q r S) \<Longrightarrow> guar G (listAs E as kd ns sel) Q S"
  by (rule guar_calls [where P = "\<lambda>_. False"]) (auto simp: listAs_def split: prod.splits dest!: List_shared)

lemma guar_Condition: "(\<And>r. Q r S) \<Longrightarrow> guar G (SetStatusCondition E cs c) Q S"
  by (rule guar_calls [where P = "\<lambda>_. False"]) (auto dest!: Condition_shared)

lemma guar_Create: "(\<And>w. creates ob w \<Longrightarrow> G w) \<Longrightarrow> (\<And>r. Q r S) \<Longrightarrow> guar G (Create E ob) Q S"
  by (rule guar_calls [where P = "creates ob"]) (auto dest!: Create_shared)

lemma guar_Delete: "(\<And>w. deletes ob w \<Longrightarrow> G w) \<Longrightarrow> (\<And>r. Q r S) \<Longrightarrow> guar G (Delete E ob) Q S"
  by (rule guar_calls [where P = "deletes ob"]) (auto dest!: Delete_shared)

lemma guar_Update:
  assumes "old \<in> S" "obj_key old = obj_key ob" "MetaOther (obj_meta old) = MetaOther (obj_meta ob)"
    and "\<And>w. replaces old ob w \<Longrightarrow> (DeletionTimestamp (obj_meta old) \<noteq> None \<Longrightarrow> Finalizers (obj_meta old) \<noteq> []) \<Longrightarrow> G w"
    and "\<And>r. Q r S"
  shows "guar G (Update E ob) Q S"
proof (rule guar_calls [where P = "updates version ob"])
  show "continues version (updates version ob) (hist s) (hist s')" if "coherent version (hist s)" "run_state (Update E ob) s = (r, s')" for s r s'
    using Update_shared [OF that] .
  show "G w" if "coherent version h" "S \<subseteq> stored_ever h" "w \<in> set h" "updates version ob w" for h w
    using that assms(1-4) updates_replaces(1) [OF that(1,3)] coherentD(2) [OF that(1)] by blast
qed (rule assms(5))

lemma guar_StatusUpdate:
  assumes "old \<in> S" "obj_key old = obj_key ob" "MetaOther (obj_meta old) = MetaOther (obj_meta ob)"
    and "\<And>w. sets_status old ob w \<Longrightarrow> G w" and "\<And>r. Q r S"
  shows "guar G (StatusUpdate E ob) Q S"
proof (rule guar_calls [where P = "status_updates version ob"])
  show "continues version (status_updates version ob) (hist s) (hist s')"
    if "coherent version (hist s)" "run_state (StatusUpdate E ob) s = (r, s')" for s r s'
    using StatusUpdate_shared [OF that] .
  show "G w" if "coherent version h" "S \<subseteq> stored_ever h" "w \<in> set h" "status_updates version ob w" for h w
    using that assms(1-4) updates_replaces(2) [OF that(1,3)] by blast
qed (rule assms(5))

end

end
