(* ===== verification/Shared_Mem.thy ===== *)
theory Shared_Mem
  imports Shared_Server Demo
begin

text \<open>
  A server with other writers for which the contract of \<open>shared_server\<close> holds: it numbers the objects it
  stores with fresh resource versions, refuses an update with an old one, and lets other clients make the
  next batch of their pending writes before it serves each call.
\<close>

record shared =
  log :: "api_write list"
  pending :: "(object_key \<times> kobject option) list list"
  clock_of :: time

text \<open>A version longer than any in use.\<close>

definition fresh_version :: "api_write list \<Rightarrow> string" where
  "fresh_version h = CHR ''v'' # concat (map (\<lambda>w. case new_of w of None \<Rightarrow> [] | Some ob \<Rightarrow> MetaOther (obj_meta ob)) h)"

definition versioned :: "string \<Rightarrow> kobject \<Rightarrow> kobject" where
  "versioned v ob = set_meta ((obj_meta ob)\<lparr>MetaOther := v\<rparr>) ob"

definition commit :: "bool \<Rightarrow> object_key \<Rightarrow> kobject option \<Rightarrow> api_write list \<Rightarrow> api_write list" where
  "commit mine key new h = Write mine key (current h key) (map_option (versioned (fresh_version h)) new) # h"

definition storable :: "object_key \<Rightarrow> kobject option \<Rightarrow> bool" where
  "storable key new \<longleftrightarrow>
     (case new of None \<Rightarrow> True
      | Some ob \<Rightarrow> obj_key ob = key \<and> (DeletionTimestamp (obj_meta ob) \<noteq> None \<longrightarrow> Finalizers (obj_meta ob) \<noteq> []))"

fun others_write :: "(object_key \<times> kobject option) list \<Rightarrow> api_write list \<Rightarrow> api_write list" where
  "others_write [] h = h"
| "others_write ((key, new) # bs) h = others_write bs (if storable key new then commit False key new h else h)"

definition turn :: "shared \<Rightarrow> shared" where
  "turn s = (case pending s of [] \<Rightarrow> s | b # bs \<Rightarrow> s\<lparr>log := others_write b (log s), pending := bs\<rparr>)"

definition sh_get :: "kind \<Rightarrow> namespaced_name \<Rightarrow> shared \<Rightarrow> (goerror + kobject) \<times> shared" where
  "sh_get kd k s =
     (case current (log (turn s)) (kd, k) of None \<Rightarrow> Inl (External ''NotFound'') | Some ob \<Rightarrow> Inr ob, turn s)"

definition current_objects :: "api_write list \<Rightarrow> kobject list" where
  "current_objects h = List.map_filter (current h) (remdups (map key_of h))"

definition sh_list :: "kind \<Rightarrow> string \<Rightarrow> strmap \<Rightarrow> shared \<Rightarrow> (goerror + kobject list) \<times> shared" where
  "sh_list kd ns sel s =
     (Inr (filter (\<lambda>ob. kind_of ob = kd \<and> Namespace (obj_meta ob) = ns \<and> labels_match sel (MetaLabels (obj_meta ob)))
        (current_objects (log (turn s)))), turn s)"

definition sh_write :: "kobject \<Rightarrow> kobject option \<Rightarrow> shared \<Rightarrow> (goerror + unit) \<times> shared" where
  "sh_write ob new s = (Inr (), s\<lparr>log := commit True (obj_key ob) new (log s)\<rparr>)"

definition sh_create :: "kobject \<Rightarrow> shared \<Rightarrow> (goerror + unit) \<times> shared" where
  "sh_create ob s =
     (case current (log (turn s)) (obj_key ob) of
        Some _ \<Rightarrow> (Inl (External ''AlreadyExists''), turn s)
      | None \<Rightarrow> sh_write ob (Some (drop_status (set_meta ((obj_meta ob)\<lparr>DeletionTimestamp := None\<rparr>) ob))) (turn s))"

definition sh_update :: "kobject \<Rightarrow> shared \<Rightarrow> (goerror + unit) \<times> shared" where
  "sh_update ob s =
     (case current (log (turn s)) (obj_key ob) of
        None \<Rightarrow> (Inl (External ''NotFound''), turn s)
      | Some old \<Rightarrow>
          if MetaOther (obj_meta ob) \<noteq> MetaOther (obj_meta old) then (Inl (External ''Conflict''), turn s)
          else if DeletionTimestamp (obj_meta old) \<noteq> None \<and> Finalizers (obj_meta ob) = [] then sh_write ob None (turn s)
          else sh_write ob (Some (with_status old
                 (set_meta ((obj_meta ob)\<lparr>DeletionTimestamp := DeletionTimestamp (obj_meta old)\<rparr>) ob))) (turn s))"

definition sh_status_update :: "kobject \<Rightarrow> shared \<Rightarrow> (goerror + unit) \<times> shared" where
  "sh_status_update ob s =
     (case current (log (turn s)) (obj_key ob) of
        None \<Rightarrow> (Inl (External ''NotFound''), turn s)
      | Some old \<Rightarrow>
          if MetaOther (obj_meta ob) \<noteq> MetaOther (obj_meta old) then (Inl (External ''Conflict''), turn s)
          else sh_write ob (Some (with_status ob old)) (turn s))"

definition sh_delete :: "kobject \<Rightarrow> shared \<Rightarrow> (goerror + unit) \<times> shared" where
  "sh_delete ob s =
     (case current (log (turn s)) (obj_key ob) of
        None \<Rightarrow> (Inl (External ''NotFound''), turn s)
      | Some old \<Rightarrow>
          if Finalizers (obj_meta old) = [] then sh_write ob None (turn s)
          else sh_write ob (Some (set_meta ((obj_meta old)\<lparr>DeletionTimestamp := Some (clock_of s)\<rparr>) old)) (turn s))"

definition shared_env :: "shared env" where
  "shared_env =
     \<lparr>Get = \<lambda>kd k. State (sh_get kd k), List = \<lambda>kd ns sel. State (sh_list kd ns sel),
      Create = \<lambda>ob. State (sh_create ob), Update = \<lambda>ob. State (sh_update ob),
      StatusUpdate = \<lambda>ob. State (sh_status_update ob), Delete = \<lambda>ob. State (sh_delete ob),
      SetStatusCondition = \<lambda>cs c. State (\<lambda>s. (set_condition (clock_of s) cs c, s)),
      IsNotFound = notFound, IsNoMatchError = (\<lambda>e. e = External ''NoMatch''),
      ContainsFinalizer = \<lambda>m f. f \<in> set (Finalizers m),
      AddFinalizer = \<lambda>m f. if f \<in> set (Finalizers m) then m else m\<lparr>Finalizers := Finalizers m @ [f]\<rparr>,
      RemoveFinalizer = \<lambda>m f. m\<lparr>Finalizers := removeAll f (Finalizers m)\<rparr>,
      SetControllerReference = \<lambda>c ob. Inr (owned_by c ob),
      DeepEqual = semantic_equal,
      SetNestedMap = \<lambda>sm u path. Inr (sm\<lparr>sm_Spec := Some u\<rparr>),
      NestedMap = \<lambda>sm path. sm_Spec sm,
      yamlMarshal = \<lambda>m. Inr (yaml_entries m),
      IsZero = (\<lambda>t. case t of None \<Rightarrow> True | Some u \<Rightarrow> u \<le> 0),
      Quote = \<lambda>x. [CHR 0x22] @ x @ [CHR 0x22]\<rparr>"

section \<open>Coherence is kept\<close>

lemma versioned_simps [simp]:
  "obj_key (versioned v ob) = obj_key ob" "MetaOther (obj_meta (versioned v ob)) = v" "kind_of (versioned v ob) = kind_of ob"
  "DeletionTimestamp (obj_meta (versioned v ob)) = DeletionTimestamp (obj_meta ob)"
  "Finalizers (obj_meta (versioned v ob)) = Finalizers (obj_meta ob)" "status_of (versioned v ob) = status_of ob"
  by (simp_all add: versioned_def obj_key_def) (cases ob; simp add: status_of_def)

lemma fresh_longer: "ob \<in> stored_ever h \<Longrightarrow> length (MetaOther (obj_meta ob)) < length (fresh_version h)"
proof (induction h)
  case (Cons w h)
  then show ?case by (cases "new_of w") (auto simp: fresh_version_def)
qed simp

lemma fresh_version_new: "ob \<in> stored_ever h \<Longrightarrow> MetaOther (obj_meta ob) \<noteq> fresh_version h"
  using fresh_longer by fastforce

lemma coherent_Nil [simp]: "coherent v []"
  by (simp add: coherent_def)

lemma coherent_commit:
  assumes h: "coherent (\<lambda>v. v) h" and new: "storable key new"
  shows "coherent (\<lambda>v. v) (commit mine key new h)"
proof (cases new)
  case None
  with h show ?thesis by (simp add: coherent_def commit_def)
next
  case (Some ob)
  with new have ob: "obj_key ob = key" "DeletionTimestamp (obj_meta ob) \<noteq> None \<Longrightarrow> Finalizers (obj_meta ob) \<noteq> []"
    by (simp_all add: storable_def)
  have "fresh_version h \<noteq> []" by (simp add: fresh_version_def)
  with h ob Some fresh_version_new [of _ h] show ?thesis
    unfolding coherent_def commit_def by (simp add: ball_Un) metis
qed

lemma coherent_others: "coherent (\<lambda>v. v) h \<Longrightarrow> continues (\<lambda>v. v) (\<lambda>_. False) h (others_write bs h)"
proof (induction bs h rule: others_write.induct)
  case (2 key new bs h)
  have "continues (\<lambda>v. v) (\<lambda>_. False) h (if storable key new then commit False key new h else h)"
    using 2(2) coherent_commit [OF 2(2), of key new False] by (simp add: continues_def commit_def)
  with 2(1) continues_coherent [OF this] continues_trans [OF this] show ?case by simp
qed simp

lemma turn_continues: "coherent (\<lambda>v. v) (log s) \<Longrightarrow> continues (\<lambda>v. v) (\<lambda>_. False) (log s) (log (turn s))"
  by (auto simp: turn_def coherent_others split: list.split)

lemma sh_write_continues:
  assumes "coherent (\<lambda>v. v) (log s)" "sh_write ob new (turn s) = (r, s')" "storable (obj_key ob) new"
    "P (Write True (obj_key ob) (current (log (turn s)) (obj_key ob)) (map_option (versioned (fresh_version (log (turn s)))) new))"
  shows "continues (\<lambda>v. v) P (log s) (log s')"
proof -
  note t = turn_continues [OF assms(1)]
  have "continues (\<lambda>v. v) P (log (turn s)) (log s')"
    using assms(2,4) coherent_commit [OF continues_coherent [OF t] assms(3), of True] by (auto simp: sh_write_def continues_def commit_def)
  with continues_mono [OF t] show ?thesis by (blast intro: continues_trans)
qed

lemma turn_P: "coherent (\<lambda>v. v) (log s) \<Longrightarrow> continues (\<lambda>v. v) P (log s) (log (turn s))"
  by (rule continues_mono [OF turn_continues]) auto

lemma stored_as_versioned: "stored_as ob ob' \<Longrightarrow> stored_as ob (versioned v ob')"
  by (cases ob; cases ob') (simp_all add: stored_as_def versioned_def meta_kept_def kept_with_def)

section \<open>The interpretation\<close>

lemma shared_env_sel [simp]:
  "run_state (Get shared_env kd k) s = sh_get kd k s"
  "run_state (List shared_env kd ns sel) s = sh_list kd ns sel s"
  "run_state (Create shared_env ob) s = sh_create ob s"
  "run_state (Update shared_env ob) s = sh_update ob s"
  "run_state (StatusUpdate shared_env ob) s = sh_status_update ob s"
  "run_state (Delete shared_env ob) s = sh_delete ob s"
  "run_state (SetStatusCondition shared_env cs c) s = (set_condition (clock_of s) cs c, s)"
  "IsNotFound shared_env = notFound" "IsNoMatchError shared_env e = (e = External ''NoMatch'')"
  "ContainsFinalizer shared_env m f \<longleftrightarrow> f \<in> set (Finalizers m)"
  "AddFinalizer shared_env m f = (if f \<in> set (Finalizers m) then m else m\<lparr>Finalizers := Finalizers m @ [f]\<rparr>)"
  "RemoveFinalizer shared_env m f = m\<lparr>Finalizers := removeAll f (Finalizers m)\<rparr>"
  "SetControllerReference shared_env cluster ob = Inr (owned_by cluster ob)"
  "DeepEqual shared_env = semantic_equal"
  "SetNestedMap shared_env sm u path = Inr (sm\<lparr>sm_Spec := Some u\<rparr>)" "NestedMap shared_env sm path = sm_Spec sm"
  "yamlMarshal shared_env ds = Inr (yaml_entries ds)"
  "IsZero shared_env t = (case t of None \<Rightarrow> True | Some u \<Rightarrow> u \<le> 0)" "Quote shared_env x = [CHR 0x22] @ x @ [CHR 0x22]"
  by (simp_all add: shared_env_def)

lemma kept_deletion: "storable key (Some ob) \<longleftrightarrow> obj_key ob = key \<and> (DeletionTimestamp (obj_meta ob) \<noteq> None \<longrightarrow> Finalizers (obj_meta ob) \<noteq> [])"
  by (simp add: storable_def)

lemma storable_None [simp]: "storable key None"
  by (simp add: storable_def)

lemma sh_create_law:
  assumes "coherent (\<lambda>v. v) (log s)" "sh_create ob s = (r, s')"
  shows "continues (\<lambda>v. v) (creates ob) (log s) (log s')"
proof (cases "current (log (turn s)) (obj_key ob)")
  case None
  let ?new = "drop_status (set_meta ((obj_meta ob)\<lparr>DeletionTimestamp := None\<rparr>) ob)"
  have "stored_as ob ?new" by (intro stored_as_drop stored_as_meta meta_keptI) simp_all
  moreover have "obj_key ?new = obj_key ob" by (simp add: obj_key_def)
  ultimately show ?thesis using assms None
    by (intro sh_write_continues [of s ob "Some ?new" r]) (auto simp: sh_create_def kept_deletion creates_def stored_as_versioned)
qed (use assms turn_P in \<open>auto simp: sh_create_def\<close>)

text \<open>What a write replaces had been stored, coherently.\<close>

lemma current_old:
  assumes "coherent (\<lambda>v. v) (log s)" "current (log (turn s)) key = Some old"
  shows "obj_key old = key" "DeletionTimestamp (obj_meta old) \<noteq> None \<Longrightarrow> Finalizers (obj_meta old) \<noteq> []"
proof -
  note h = continues_coherent [OF turn_continues [OF assms(1)]]
  from coherent_current(1) [OF h assms(2)] coherentD(2) [OF h]
  show "obj_key old = key" "DeletionTimestamp (obj_meta old) \<noteq> None \<Longrightarrow> Finalizers (obj_meta old) \<noteq> []" by auto
qed

lemma sh_update_law:
  assumes "coherent (\<lambda>v. v) (log s)" "sh_update ob s = (r, s')"
  shows "continues (\<lambda>v. v) (updates (\<lambda>v. v) ob) (log s) (log s')"
proof (cases "current (log (turn s)) (obj_key ob)")
  case (Some old)
  note old = current_old [OF assms(1) Some]
  let ?new = "with_status old (set_meta ((obj_meta ob)\<lparr>DeletionTimestamp := DeletionTimestamp (obj_meta old)\<rparr>) ob)"
  have new: "stored_as ob ?new" "obj_key ?new = obj_key ob"
    by (intro stored_as_with stored_as_meta meta_keptI) (simp_all add: obj_key_def)
  from old(1) have "status_of ?new = status_of old" by (intro with_status_status) (simp add: obj_key_def)
  with new assms Some turn_P [OF assms(1)] show ?thesis
    by (auto simp: sh_update_def kept_deletion updates_def stored_as_versioned split: if_splits
        intro!: sh_write_continues [OF assms(1), where ob = ob])
qed (use assms turn_P in \<open>auto simp: sh_update_def\<close>)

lemma sh_status_update_law:
  assumes "coherent (\<lambda>v. v) (log s)" "sh_status_update ob s = (r, s')"
  shows "continues (\<lambda>v. v) (status_updates (\<lambda>v. v) ob) (log s) (log s')"
proof (cases "current (log (turn s)) (obj_key ob)")
  case (Some old)
  note old = current_old [OF assms(1) Some]
  have "stored_as old (with_status ob (set_meta (obj_meta old) old))"
    by (intro stored_as_with stored_as_meta meta_keptI) simp_all
  moreover have "set_meta (obj_meta old) old = old" by (cases old) simp_all
  moreover have "status_of (with_status ob old) = status_of ob" using old(1) by (intro with_status_status) (simp add: obj_key_def)
  moreover have "obj_key (with_status ob old) = obj_key ob" using old(1) by (simp add: obj_key_def)
  ultimately show ?thesis using assms Some old(2) turn_P [OF assms(1)]
    by (auto simp: sh_status_update_def kept_deletion status_updates_def stored_as_versioned split: if_splits
        intro!: sh_write_continues [OF assms(1), where ob = ob])
qed (use assms turn_P in \<open>auto simp: sh_status_update_def\<close>)

lemma sh_delete_law:
  assumes "coherent (\<lambda>v. v) (log s)" "sh_delete ob s = (r, s')"
  shows "continues (\<lambda>v. v) (deletes ob) (log s) (log s')"
proof (cases "current (log (turn s)) (obj_key ob)")
  case (Some old)
  note old = current_old [OF assms(1) Some]
  let ?new = "set_meta ((obj_meta old)\<lparr>DeletionTimestamp := Some (clock_of s)\<rparr>) old"
  have "stored_as old ?new" by (intro stored_as_meta meta_keptI) simp_all
  moreover have "obj_key ?new = obj_key ob" using old(1) by (simp add: obj_key_def)
  ultimately show ?thesis using assms Some
    by (auto simp: sh_delete_def kept_deletion deletes_def stored_as_versioned split: if_splits
        intro!: sh_write_continues [OF assms(1), where ob = ob])
qed (use assms turn_P in \<open>auto simp: sh_delete_def\<close>)

lemma current_objects_stored: "coherent v h \<Longrightarrow> set (current_objects h) \<subseteq> stored_ever h"
  by (auto simp: current_objects_def List.map_filter_def dest: coherent_current(1))

interpretation shared: shared_server shared_env log "\<lambda>v. v"
proof (unfold_locales, goal_cases)
  case (14 s kd k g s')
  note h = continues_coherent [OF turn_continues [OF 14(1)]]
  from 14 turn_continues [OF 14(1)] coherent_current(1) [OF h, of "(kd, k)"] show ?case
    by (auto simp: sh_get_def split: option.splits)
next
  case (15 s kd ns sel l s')
  note h = continues_coherent [OF turn_continues [OF 15(1)]]
  from 15 turn_continues [OF 15(1)] current_objects_stored [OF h] show ?case by (auto simp: sh_list_def)
next
  case (16 s ob r s') then show ?case by (simp add: sh_create_law)
next
  case (17 s ob r s') then show ?case by (simp add: sh_update_law)
next
  case (18 s ob r s') then show ?case by (simp add: sh_status_update_law)
next
  case (19 s ob r s') then show ?case by (simp add: sh_delete_law)
qed (auto simp: notFound_Unwrap notFound_own)

end
