(* ===== verification/Interference.thy ===== *)
theory Interference
  imports Shared_Mem Cluster_Controller Pipeline_Lifecycle
begin

text \<open>
  The two controllers among other writers: what their writes do to the objects as they are when the
  write takes effect, not as they were when the reconcile read them. Each controller keeps to its own
  fields, so neither can lose what the other, the autoscaler or a user wrote in the meantime.
\<close>

section \<open>The cluster controller\<close>

abbreviation stamp_of :: "deployment \<Rightarrow> string" where
  "stamp_of d \<equiv> goget (pt_Annotations (d_Template d)) pipelinesHashAnnotation"

text \<open>
  A write of a cluster's reconcile concerns one of the cluster's objects. It creates the pipelines
  ConfigMap but never replaces one; it keeps the stamp and the selector of the Deployment and, under
  autoscaling, its replicas; it keeps the addresses of the Services, and the spec of the cluster.
\<close>

definition cluster_write :: "DataPrepperCluster \<Rightarrow> api_write \<Rightarrow> bool" where
  "cluster_write c w \<longleftrightarrow>
     key_of w \<in> insert (clusterKey c) (owned_keys c) \<and>
     (key_of w = pipelinesKey c \<longrightarrow> old_of w = None) \<and>
     (\<forall>d. key_of w = deploymentKey c \<longrightarrow> old_of w = Some (DeploymentObj d) \<longrightarrow>
        (\<exists>d'. new_of w = Some (DeploymentObj d') \<and> entries (d_Selector d') = entries (d_Selector d) \<and>
           (stamp_of d \<noteq> [] \<longrightarrow> stamp_of d' = stamp_of d) \<and>
           (cs_Autoscaling (c_Spec c) \<noteq> None \<and> d_Replicas d \<noteq> None \<longrightarrow> d_Replicas d' = d_Replicas d))) \<and>
     (\<forall>v. key_of w \<in> {serviceKey c, headlessKey c} \<longrightarrow> old_of w = Some (ServiceObj v) \<longrightarrow>
        (\<exists>v'. new_of w = Some (ServiceObj v') \<and> (sv_ClusterIP v \<noteq> [] \<longrightarrow> sv_ClusterIP v' = sv_ClusterIP v))) \<and>
     (key_of w = clusterKey c \<longrightarrow>
        (\<exists>c0 c'. old_of w = Some (ClusterObj c0) \<and> new_of w = Some (ClusterObj c') \<and> c_Spec c' = c_Spec c0))"

text \<open>Sending back what was read, changed in other places, keeps the fields.\<close>

lemma replaces_keeps:
  assumes "replaces old ob w" "DeletionTimestamp (obj_meta old) \<noteq> None \<Longrightarrow> Finalizers (obj_meta old) \<noteq> []"
    "Finalizers (obj_meta ob) = Finalizers (obj_meta old)"
  obtains ob' where "key_of w = obj_key ob" "old_of w = Some old" "new_of w = Some ob'" "stored_as ob ob'" "status_of ob' = status_of old"
  using assms by (auto simp: replaces_def split: if_splits)

lemma stamp_kept: "entries an = withHash k x f \<Longrightarrow> x \<noteq> [] \<Longrightarrow> goget an k = x"
  by (simp add: goget_def withHash_def)

lemma cluster_deployment_write:
  assumes w: "replaces (DeploymentObj d) (DeploymentObj (patchedDeployment c cfg h d ct cts)) w"
    and del: "DeletionTimestamp (d_Meta d) \<noteq> None \<Longrightarrow> Finalizers (d_Meta d) \<noteq> []"
    and key: "Namespace (d_Meta d) = cns c" "Name (d_Meta d) = cname c"
  shows "cluster_write c w"
proof (rule replaces_keeps [OF w])
  fix ob' assume "key_of w = obj_key (DeploymentObj (patchedDeployment c cfg h d ct cts))" "old_of w = Some (DeploymentObj d)"
    "new_of w = Some ob'" "stored_as (DeploymentObj (patchedDeployment c cfg h d ct cts)) ob'"
  then show ?thesis using key
    by (auto simp: cluster_write_def patchedDeployment_def Let_def stored_as_def template_kept_def goget_withHash
        intro: stamp_kept split: option.splits)
qed (use del in \<open>simp_all add: patchedDeployment_def Let_def\<close>)

lemma keys_apart [simp]: "owned_keys c \<inter> {clusterKey c} = {}" "clusterKey c \<notin> owned_keys c"
  by (simp_all add: owned_keys_def)

lemma cluster_creates: "creates (owned_by c ob) w \<Longrightarrow> obj_key ob \<in> owned_keys c \<Longrightarrow> cluster_write c w"
  by (auto simp: creates_def cluster_write_def obj_key_def owned_by_def)

lemma cluster_frees:
  assumes "key_of w \<in> {peerKey c, hpaKey c, monitorKey c}"
  shows "cluster_write c w"
  using assms by (auto simp: cluster_write_def owned_keys_def)

lemma cluster_service_write:
  assumes w: "replaces (ServiceObj v) (ServiceObj v1) w" and same: "sv_Meta v1 = sv_Meta v" "sv_ClusterIP v1 = sv_ClusterIP v"
    and del: "DeletionTimestamp (sv_Meta v) \<noteq> None \<Longrightarrow> Finalizers (sv_Meta v) \<noteq> []"
    and key: "obj_key (ServiceObj v) \<in> {serviceKey c, headlessKey c}"
  shows "cluster_write c w"
proof (rule replaces_keeps [OF w])
  fix ob' assume "key_of w = obj_key (ServiceObj v1)" "old_of w = Some (ServiceObj v)" "new_of w = Some ob'" "stored_as (ServiceObj v1) ob'"
  then show ?thesis using key same by (auto simp: cluster_write_def owned_keys_def stored_as_def)
qed (use del same in simp_all)

lemma cluster_status_write: "sets_status (ClusterObj c) (ClusterObj (c\<lparr>c_Stat := st\<rparr>)) w \<Longrightarrow> cluster_write c w"
  by (auto simp: sets_status_def cluster_write_def owned_keys_def stored_as_def)

context shared_server
begin

lemma guar_then: "guar G m (\<lambda>_ _. True) S \<Longrightarrow> (\<And>r S'. S \<subseteq> S' \<Longrightarrow> guar G (f r) (\<lambda>_ _. True) S') \<Longrightarrow>
    guar G (State_Monad.bind m f) (\<lambda>_ _. True) S"
  by (rule guar_bind) (erule guar_mono)

lemma guar_thenE: "guar G m (\<lambda>_ _. True) S \<Longrightarrow> (\<And>x S'. S \<subseteq> S' \<Longrightarrow> guar G (f x) (\<lambda>_ _. True) S') \<Longrightarrow>
    guar G (bindE m f) (\<lambda>_ _. True) S"
  by (rule guar_bindE) (erule guar_mono, auto split: sum.splits)

lemmas guar_getCluster = guar_getAs [where as = asCluster and kd = KCluster, OF as_None(1)]
lemmas guar_getClass = guar_getAs [where as = asClass and kd = KClass, OF as_None(2)]
lemmas guar_getPipeline = guar_getAs [where as = asPipeline and kd = KPipeline, OF as_None(3)]
lemmas guar_getConfigMap = guar_getAs [where as = asConfigMap and kd = KConfigMap, OF as_None(4)]
lemmas guar_getDeployment = guar_getAs [where as = asDeployment and kd = KDeployment, OF as_None(5)]
lemmas guar_getService = guar_getAs [where as = asService and kd = KService, OF as_None(6)]
lemmas guar_getHPA = guar_getAs [where as = asHPA and kd = KHPA, OF as_None(7)]
lemmas guar_getServiceMonitor = guar_getAs [where as = asServiceMonitor and kd = KServiceMonitor, OF as_None(8)]

lemma cluster_Updates:
  "ConfigMapObj m \<in> S \<Longrightarrow> obj_key (ConfigMapObj m) = peerKey c \<Longrightarrow> (\<And>r. Q r S) \<Longrightarrow>
     guar (cluster_write c) (Update E (ConfigMapObj (m\<lparr>cm_Data := dat\<rparr>))) Q S"
  "HPAObj h \<in> S \<Longrightarrow> obj_key (HPAObj h) = hpaKey c \<Longrightarrow> (\<And>r. Q r S) \<Longrightarrow>
     guar (cluster_write c) (Update E (HPAObj (h\<lparr>hp_Spec := spec\<rparr>))) Q S"
  "ServiceMonitorObj sm \<in> S \<Longrightarrow> obj_key (ServiceMonitorObj sm) = monitorKey c \<Longrightarrow> (\<And>r. Q r S) \<Longrightarrow>
     guar (cluster_write c) (Update E (ServiceMonitorObj (sm\<lparr>sm_Spec := u\<rparr>))) Q S"
  by (erule guar_Update; simp add: replaces_def cluster_frees)+

lemma cluster_Update_Service:
  "ServiceObj v \<in> S \<Longrightarrow> obj_key (ServiceObj v) \<in> {serviceKey c, headlessKey c} \<Longrightarrow> (\<And>r. Q r S) \<Longrightarrow>
     guar (cluster_write c) (Update E (ServiceObj (v\<lparr>sv_Ports := ps, sv_Selector := sel\<rparr>))) Q S"
  "ServiceObj v \<in> S \<Longrightarrow> obj_key (ServiceObj v) \<in> {serviceKey c, headlessKey c} \<Longrightarrow> (\<And>r. Q r S) \<Longrightarrow>
     guar (cluster_write c) (Update E (ServiceObj (v\<lparr>sv_PublishNotReadyAddresses := b, sv_Selector := sel\<rparr>))) Q S"
  by (erule guar_Update; simp; erule cluster_service_write; simp)+

lemma cluster_Update_Deployment:
  assumes "DeploymentObj d \<in> S" "obj_key (DeploymentObj d) = deploymentKey c" "\<And>r. Q r S"
  shows "guar (cluster_write c) (Update E (DeploymentObj (patchedDeployment c cfg h d ct cts))) Q S"
  using assms(2) by (intro guar_Update [OF assms(1)] assms(3); simp; elim cluster_deployment_write; simp)

lemma cluster_StatusUpdate:
  assumes "ClusterObj c \<in> S" "\<And>r. Q r S"
  shows "guar (cluster_write c) (StatusUpdate E (ClusterObj (c\<lparr>c_Stat := st\<rparr>))) Q S"
  by (rule guar_StatusUpdate [OF assms(1)]) (simp_all add: cluster_status_write assms(2))

lemmas cluster_rules = guar_rules guar_Create cluster_Updates cluster_Update_Service cluster_Update_Deployment cluster_StatusUpdate

lemma guar_configMap: "guar (cluster_write c) (reconcileConfigMap E c) (\<lambda>_ _. True) S"
  unfolding reconcileConfigMap_def Let_def
  by (intro guar_bind guar_getConfigMap) (auto simp: SetControllerReference intro!: cluster_rules elim!: cluster_creates)

lemma guar_peerConfig: "guar (cluster_write c) (reconcilePeerConfig E c) (\<lambda>_ _. True) S"
  unfolding reconcilePeerConfig_def Let_def
  by (intro guar_bind guar_getConfigMap)
    (auto simp: SetControllerReference deletes_def intro!: cluster_rules guar_Delete elim!: cluster_creates intro: cluster_frees
      split: sum.splits)

lemma guar_deployment: "guar (cluster_write c) (reconcileDeployment E c cfg h) (\<lambda>_ _. True) S"
  unfolding reconcileDeployment_parts
  by (intro guar_bind guar_getDeployment) (auto intro!: cluster_rules split: list.splits elim!: cluster_creates)

lemma guar_services:
  "guar (cluster_write c) (reconcileService E c) (\<lambda>_ _. True) S"
  "guar (cluster_write c) (reconcileHeadlessService E c) (\<lambda>_ _. True) S"
  unfolding reconcileService_parts reconcileHeadless_parts
  by (intro guar_bind guar_getService; auto intro!: cluster_rules elim!: cluster_creates)+

lemma guar_hpa: "guar (cluster_write c) (reconcileHPA E c) (\<lambda>_ _. True) S"
  unfolding reconcileHPA_parts
  by (intro guar_bind guar_getHPA)
    (auto simp: deletes_def intro!: cluster_rules guar_Delete elim!: cluster_creates intro: cluster_frees split: sum.splits)

lemma guar_monitor: "guar (cluster_write c) (reconcileServiceMonitor E c) (\<lambda>_ _. True) S"
  unfolding reconcileMonitor_parts
  by (intro guar_bind guar_getServiceMonitor)
    (auto simp: deletes_def intro!: cluster_rules guar_Delete elim!: cluster_creates intro: cluster_frees split: sum.splits)

lemma guar_resolve: "guar G (resolveConfig E c) (\<lambda>_ _. True) S"
  unfolding resolveConfig_def Let_def
  by (intro guar_thenE guar_rules guar_getClass) (auto intro!: guar_rules)

lemma guar_status: "ClusterObj c \<in> S \<Longrightarrow> guar (cluster_write c) (reconcileStatus E c) (\<lambda>_ _. True) S"
  unfolding reconcileStatus_parts Let_def
  by (intro guar_thenE guar_getDeployment guar_listAs guar_then guar_Condition) (auto intro!: cluster_rules simp: subset_iff)

lemma guar_cluster_steps:
  assumes "ClusterObj c \<in> S"
  shows "guar (cluster_write c)
    (bindE (resolveConfig E c) (\<lambda>cfg. bindE (reconcileConfigMap E c) (\<lambda>_. bindE (reconcilePeerConfig E c) (\<lambda>h.
     bindE (reconcileDeployment E c cfg h) (\<lambda>_. bindE (reconcileService E c) (\<lambda>_. bindE (reconcileHeadlessService E c) (\<lambda>_.
     bindE (reconcileServiceMonitor E c) (\<lambda>_. bindE (reconcileHPA E c) (\<lambda>_. bindE (reconcileStatus E c) (\<lambda>_. returnE ())))))))))) (\<lambda>_ _. True) S"
  by (intro guar_thenE guar_resolve guar_configMap guar_peerConfig guar_deployment guar_services guar_monitor guar_hpa guar_status guar_returnE)
    (use assms in \<open>auto simp: subset_iff\<close>)

text \<open>A reconcile fetches its object and goes on with that.\<close>

lemma guar_fetch:
  assumes as: "\<And>ob. as ob = None \<longleftrightarrow> kind_of ob \<noteq> kd"
    and some: "\<And>ob x S. as ob = Some x \<Longrightarrow> obj_key ob = (kd, k) \<Longrightarrow> ob \<in> S \<Longrightarrow> guar (G x) (f (Inr x)) (\<lambda>_ _. True) S"
    and none: "\<And>e S. guar (\<lambda>_. False) (f (Inl e)) (\<lambda>_ _. True) S"
    and run: "coherent version (hist s)" "run_state (State_Monad.bind (getAs E as kd k) f) s = (r, s')"
  shows "continues version (\<lambda>w. \<exists>ob x. ob \<in> stored_ever (hist s') \<and> obj_key ob = (kd, k) \<and> as ob = Some x \<and> G x w) (hist s) (hist s')"
    (is "continues version ?G _ _")
proof -
  obtain q t where get: "run_state (getAs E as kd k) s = (q, t)" by (metis surj_pair)
  with run(2) have f: "run_state (f q) t = (r, s')" by simp
  have "guar (\<lambda>_. False) (getAs E as kd k)
      (\<lambda>q S. \<forall>x. q = Inr x \<longrightarrow> (\<exists>ob. as ob = Some x \<and> obj_key ob = (kd, k) \<and> ob \<in> S)) {}"
    by (rule guar_getAs [OF as]) auto
  from guarD [OF this run(1) _ get] obtain S where S: "continues version (\<lambda>_. False) (hist s) (hist t)" "S \<subseteq> stored_ever (hist t)"
    "\<And>x. q = Inr x \<Longrightarrow> \<exists>ob. as ob = Some x \<and> obj_key ob = (kd, k) \<and> ob \<in> S" by auto
  have "continues version ?G (hist t) (hist s')"
  proof (cases q)
    case (Inl e)
    from guarD [OF none continues_coherent [OF S(1)] S(2) f [unfolded Inl]]
    have "continues version (\<lambda>_. False) (hist t) (hist s')" .
    then show ?thesis by (rule continues_mono) simp
  next
    case (Inr x)
    with S(3) obtain ob where ob: "as ob = Some x" "obj_key ob = (kd, k)" "ob \<in> S" by blast
    from guarD [OF some [OF ob] continues_coherent [OF S(1)] S(2) f [unfolded Inr]]
    have cont: "continues version (G x) (hist t) (hist s')" .
    with ob S(2) continues_seen [OF cont] have "ob \<in> stored_ever (hist s')" by blast
    with ob show ?thesis by (intro continues_mono [OF cont]) auto
  qed
  moreover from S(1) have "continues version ?G (hist s) (hist t)" by (rule continues_mono) simp
  ultimately show ?thesis by (rule continues_trans [rotated])
qed

lemma cluster_guarantee:
  assumes "coherent version (hist s)" "run_state (DataPrepperClusterReconciler_Reconcile E req) s = (r, s')"
  shows "continues version (\<lambda>w. \<exists>ob c. ob \<in> stored_ever (hist s') \<and> obj_key ob = (KCluster, req) \<and> asCluster ob = Some c \<and> cluster_write c w)
    (hist s) (hist s')"
proof (rule guar_fetch [OF as_None(1) _ _ assms(1) assms(2) [unfolded DataPrepperClusterReconciler_Reconcile_def]])
  fix ob c S assume "asCluster ob = Some c" "ob \<in> S"
  then show "guar (cluster_write c) (case Inr c of Inl e \<Rightarrow> if IsNotFound E e then returnE () else throwE e
      | Inr c \<Rightarrow> bindE (resolveConfig E c) (\<lambda>cfg. bindE (reconcileConfigMap E c) (\<lambda>_. bindE (reconcilePeerConfig E c) (\<lambda>h.
          bindE (reconcileDeployment E c cfg h) (\<lambda>_. bindE (reconcileService E c) (\<lambda>_. bindE (reconcileHeadlessService E c) (\<lambda>_.
          bindE (reconcileServiceMonitor E c) (\<lambda>_. bindE (reconcileHPA E c) (\<lambda>_. bindE (reconcileStatus E c) (\<lambda>_. returnE ()))))))))))
      (\<lambda>_ _. True) S"
    unfolding sum.case by (intro guar_cluster_steps) simp
qed (auto intro: guar_if guar_returnE guar_throwE)

end

section \<open>The pipeline controller\<close>

text \<open>
  A write of a pipeline's reconcile replaces one of three objects and creates none: of the ConfigMap it
  sets the one key, of the Deployment the one annotation, of the pipeline everything but the spec. Only
  the pipeline can go, when it is being deleted and loses its last finalizer.
\<close>

definition stamped :: "deployment \<Rightarrow> string \<Rightarrow> deployment" where
  "stamped d h = d\<lparr>d_Template := (d_Template d)\<lparr>pt_Annotations :=
     Some (fmupd pipelinesHashAnnotation h (entries (pt_Annotations (d_Template d))))\<rparr>\<rparr>"

definition pipeline_write :: "DataPrepperPipeline \<Rightarrow> api_write \<Rightarrow> bool" where
  "pipeline_write p w \<longleftrightarrow>
     (key_of w = (KConfigMap, ns_of p, pipelines_cm (ref_of p)) \<and>
        (\<exists>m m' content. old_of w = Some (ConfigMapObj m) \<and> new_of w = Some (ConfigMapObj m') \<and>
           stored_as (ConfigMapObj (m\<lparr>cm_Data := Some (fmupd pipelinesConfigMapKey content (entries (cm_Data m)))\<rparr>))
             (ConfigMapObj m'))) \<or>
     (key_of w = (KDeployment, ns_of p, ref_of p) \<and>
        (\<exists>d d' content. old_of w = Some (DeploymentObj d) \<and> new_of w = Some (DeploymentObj d') \<and>
           stored_as (DeploymentObj (stamped d (content_hash content))) (DeploymentObj d'))) \<or>
     (key_of w = pkey p \<and>
        (\<exists>p0. old_of w = Some (PipelineObj p0) \<and>
           (case new_of w of
              None \<Rightarrow> DeletionTimestamp (p_Meta p0) \<noteq> None
            | Some ob \<Rightarrow> \<exists>p'. ob = PipelineObj p' \<and> p_Spec p' = p_Spec p0)))"

context shared_server
begin

lemma pipeline_Update_ConfigMap:
  assumes "ConfigMapObj m \<in> S" "obj_key (ConfigMapObj m) = (KConfigMap, ns_of p, pipelines_cm (ref_of p))" "\<And>r. Q r S"
  shows "guar (pipeline_write p) (Update E (ConfigMapObj (m\<lparr>cm_Data := Some (fmupd pipelinesConfigMapKey content (entries (cm_Data m)))\<rparr>))) Q S"
  using assms(2) by (intro guar_Update [OF assms(1)] assms(3); simp; elim replaces_keeps; force simp: pipeline_write_def stored_as_def)

lemma pipeline_Update_Deployment:
  assumes "DeploymentObj d \<in> S" "obj_key (DeploymentObj d) = (KDeployment, ns_of p, ref_of p)" "\<And>r. Q r S"
  shows "guar (pipeline_write p) (Update E (DeploymentObj (d\<lparr>d_Template := (d_Template d)\<lparr>pt_Annotations :=
     Some (fmupd pipelinesHashAnnotation (content_hash content) (entries (pt_Annotations (d_Template d))))\<rparr>\<rparr>))) Q S"
  using assms(2) by (intro guar_Update [OF assms(1)] assms(3); simp; elim replaces_keeps; force simp: pipeline_write_def stored_as_def stamped_def)

lemma pipeline_Update_own:
  assumes "PipelineObj p \<in> S" "Name meta = Name (p_Meta p)" "Namespace meta = ns_of p" "MetaOther meta = MetaOther (p_Meta p)" "\<And>r. Q r S"
  shows "guar (pipeline_write p) (Update E (PipelineObj (p\<lparr>p_Meta := meta\<rparr>))) Q S"
  using assms(2-4) by (intro guar_Update [OF assms(1)] assms(5); simp)
    (auto simp: replaces_def pipeline_write_def stored_as_def split: if_splits)

lemma pipeline_StatusUpdate:
  assumes "PipelineObj p \<in> S" "\<And>r. Q r S"
  shows "guar (pipeline_write p) (StatusUpdate E (PipelineObj (p\<lparr>p_Stat := st\<rparr>))) Q S"
  by (rule guar_StatusUpdate [OF assms(1)]) (auto simp: sets_status_def pipeline_write_def stored_as_def assms(2))

lemma guar_rebuild: "guar (pipeline_write p) (rebuildClusterConfig E (ns_of p) (ref_of p) excl) (\<lambda>_ _. True) S"
  unfolding rebuild_parts
proof (intro guar_thenE guar_listAs guar_liftE TrueI)
  fix S content
  show "guar (pipeline_write p) (writeContent E (ns_of p) (ref_of p) content) (\<lambda>_ _. True) S"
    unfolding writeContent_def
    by (intro guar_bindE guar_getConfigMap) (auto intro!: guar_if guar_returnE pipeline_Update_ConfigMap)
  show "guar (pipeline_write p) (stampHash E (ns_of p) (ref_of p) content) (\<lambda>_ _. True) S"
    unfolding stampHash_def
    by (intro guar_bindE guar_getDeployment) (auto intro!: guar_if guar_returnE pipeline_Update_Deployment)
qed

lemma guar_setStatus: "PipelineObj p \<in> S \<Longrightarrow> guar (pipeline_write p) (setStatus E p phase h) (\<lambda>_ _. True) S"
  unfolding setStatus_parts writeStatus_def
  by (intro guar_then guar_Condition guar_if guar_return guar_returnE pipeline_StatusUpdate) (auto simp: subset_iff)

lemma guar_inspect: "guar G (inspectClusterHealth E ns ref) (\<lambda>_ _. True) S"
  unfolding inspectClusterHealth_def by (intro guar_then guar_listAs guar_return) auto

lemma guar_dropFinalizer: "PipelineObj p \<in> S \<Longrightarrow> guar (pipeline_write p) (dropFinalizer E p) (\<lambda>_ _. True) S"
  unfolding dropFinalizer_def by (rule pipeline_Update_own) (simp_all add: RemoveFinalizer)

lemma guar_handleFetched: "PipelineObj p \<in> S \<Longrightarrow> guar (pipeline_write p) (handleFetched E p) (\<lambda>_ _. True) S"
  unfolding handleFetched_def handleDeleted_def handleLive_def
  by (intro guar_if guar_thenE guar_then guar_returnE guar_case_sum guar_throwE guar_rebuild guar_inspect guar_setStatus
      guar_dropFinalizer pipeline_Update_own guar_getCluster) (auto simp: subset_iff AddFinalizer)

lemma pipeline_guarantee:
  assumes "coherent version (hist s)" "run_state (DataPrepperPipelineReconciler_Reconcile E req) s = (r, s')"
  shows "continues version (\<lambda>w. \<exists>ob p. ob \<in> stored_ever (hist s') \<and> obj_key ob = (KPipeline, req) \<and> asPipeline ob = Some p \<and> pipeline_write p w)
    (hist s) (hist s')"
  by (rule guar_fetch [OF as_None(3) _ _ assms(1) assms(2) [unfolded Reconcile_parts]])
    (auto intro: guar_if guar_returnE guar_throwE guar_handleFetched)

end

section \<open>The stamp\<close>

definition keeps_stamp :: "api_write \<Rightarrow> bool" where
  "keeps_stamp w \<longleftrightarrow>
     (\<exists>d d'. old_of w = Some (DeploymentObj d) \<and> new_of w = Some (DeploymentObj d') \<and> stamp_of d' = stamp_of d)"

lemma cluster_keeps_stamp:
  "cluster_write c w \<Longrightarrow> key_of w = deploymentKey c \<Longrightarrow> old_of w = Some (DeploymentObj d) \<Longrightarrow> stamp_of d \<noteq> [] \<Longrightarrow> keeps_stamp w"
  by (auto simp: cluster_write_def keeps_stamp_def)

lemma pipeline_stamps:
  assumes "pipeline_write p w" "key_of w = (KDeployment, ns, n)"
  shows "\<exists>d' content. new_of w = Some (DeploymentObj d') \<and> stamp_of d' = content_hash content"
  using assms by (auto simp: pipeline_write_def stored_as_def stamped_def template_kept_def goget_def)

text \<open>Along a history of writes that are either of these, the stamp is the initial one or one the pipeline controller wrote.\<close>

lemma cluster_deployment_key: "cluster_write c w \<Longrightarrow> key_of w = (KDeployment, ns, n) \<Longrightarrow> deploymentKey c = (KDeployment, ns, n)"
  by (auto simp: cluster_write_def owned_keys_def)

definition pipeline_stamp :: "object_key \<Rightarrow> string \<Rightarrow> api_write \<Rightarrow> bool" where
  "pipeline_stamp key h w \<longleftrightarrow> by_client w \<and> key_of w = key \<and> (\<exists>p content. pipeline_write p w \<and> h = content_hash content)"

lemma stamp_history:
  assumes "linked (ws @ h)" "current h (KDeployment, ns, n) = Some (DeploymentObj d)" "stamp_of d \<noteq> []"
    and "\<forall>w\<in>set ws. key_of w = (KDeployment, ns, n) \<longrightarrow>
      by_client w \<and> ((\<exists>c. cluster_write c w) \<or> (\<exists>p. pipeline_write p w)) \<or> keeps_stamp w"
  shows "\<exists>d'. current (ws @ h) (KDeployment, ns, n) = Some (DeploymentObj d') \<and> stamp_of d' \<noteq> [] \<and>
    (stamp_of d' = stamp_of d \<or> (\<exists>w\<in>set ws. pipeline_stamp (KDeployment, ns, n) (stamp_of d') w))"
  using assms(1,4)
proof (induction ws)
  case (Cons w ws)
  let ?k = "(KDeployment, ns, n)"
  from Cons obtain d1 where d1: "current (ws @ h) ?k = Some (DeploymentObj d1)" "stamp_of d1 \<noteq> []"
    "stamp_of d1 = stamp_of d \<or> (\<exists>w\<in>set ws. pipeline_stamp ?k (stamp_of d1) w)" by auto
  show ?case
  proof (cases "key_of w = ?k")
    case True
    with Cons.prems(1) d1(1) have old: "old_of w = Some (DeploymentObj d1)" by simp
    have keeps: ?thesis if "keeps_stamp w"
    proof -
      from that old obtain d' where "new_of w = Some (DeploymentObj d')" "stamp_of d' = stamp_of d1" by (auto simp: keeps_stamp_def)
      with True d1(2,3) show ?thesis by (intro exI [of _ d']) auto
    qed
    from Cons.prems(2) True have "by_client w \<and> ((\<exists>c. cluster_write c w) \<or> (\<exists>p. pipeline_write p w)) \<or> keeps_stamp w" by simp
    then show ?thesis
    proof (elim disjE conjE exE keeps)
      fix c assume "cluster_write c w"
      from cluster_keeps_stamp [OF this _ old d1(2)] cluster_deployment_key [OF this True] True show ?thesis by (intro keeps) simp
    next
      fix p assume "by_client w" "pipeline_write p w"
      moreover from pipeline_stamps [OF this(2) True]
      obtain d' content where "new_of w = Some (DeploymentObj d')" "stamp_of d' = content_hash content" by blast
      ultimately show ?thesis using True by (intro exI [of _ d']) (auto simp: pipeline_stamp_def)
    qed
  qed (use d1 in auto)
qed (use assms(2,3) in simp)

text \<open>Reconciles of both controllers, one after the other, each among the writes of other clients.\<close>

inductive shared_step :: "'s env \<Rightarrow> 's \<Rightarrow> 's \<Rightarrow> bool" for E where
  cluster: "run_state (DataPrepperClusterReconciler_Reconcile E req) s = (r, s') \<Longrightarrow> shared_step E s s'"
| pipeline: "run_state (DataPrepperPipelineReconciler_Reconcile E req) s = (r, s') \<Longrightarrow> shared_step E s s'"

context shared_server
begin

lemma steps_continue:
  assumes "(shared_step E)\<^sup>*\<^sup>* s s'" "coherent version (hist s)"
  shows "continues version (\<lambda>w. (\<exists>c. cluster_write c w) \<or> (\<exists>p. pipeline_write p w)) (hist s) (hist s')"
  using assms
proof (induction rule: rtranclp_induct)
  case (step t t')
  note t = step.IH [OF step.prems]
  from step.hyps(2) have "continues version (\<lambda>w. (\<exists>c. cluster_write c w) \<or> (\<exists>p. pipeline_write p w)) (hist t) (hist t')"
  proof cases
    case (cluster req r)
    from cluster_guarantee [OF continues_coherent [OF t] this] show ?thesis by (rule continues_mono) auto
  next
    case (pipeline req r)
    from pipeline_guarantee [OF continues_coherent [OF t] this] show ?thesis by (rule continues_mono) auto
  qed
  with t show ?case by (rule continues_trans)
qed simp

end

section \<open>A race\<close>

text \<open>
  A reconcile of the sample cluster, in the middle of which, between its read and its update of the
  Deployment, another client stamps the Deployment.
\<close>

definition put_all :: "kobject list \<Rightarrow> api_write list" where
  "put_all obs = others_write (map (\<lambda>ob. (obj_key ob, Some ob)) obs) []"

lemma coherent_put_all: "coherent (\<lambda>v. v) (put_all obs)"
  unfolding put_all_def by (rule continues_coherent [OF coherent_others]) simp

definition newStamp :: string where
  "newStamp = ''fedcba9876543210''"

definition raceState :: shared where
  "raceState = \<lparr>log = put_all [ClassObj demoClass, ClusterObj demoCluster, DeploymentObj demoDeployment, ConfigMapObj demoConfigMap],
     pending = [[], [], [], [], [], [], [(obj_key (DeploymentObj demoDeployment), Some (DeploymentObj (stamped demoDeployment newStamp)))]],
     clock_of = 7\<rparr>"

definition raceResult :: "(goerror + unit) \<times> shared" where
  "raceResult = run_state (DataPrepperClusterReconciler_Reconcile shared_env (''default'', ''prepper'')) raceState"

lemmas sh_eval = sh_get_def sh_create_def sh_update_def sh_write_def turn_def commit_def getAs_def decode_def obj_key_def
  storable_def fresh_version_def versioned_def put_all_def

text \<open>The reconcile makes the peer ConfigMap; its update of the Deployment is refused and the new stamp stays.\<close>

lemma race_result:
  "fst raceResult = Inl (External ''Conflict'') \<and> map by_client (log (snd raceResult)) = [False, True, False, False, False, False] \<and>
     (case current (log (snd raceResult)) (KDeployment, ''default'', ''prepper'') of Some (DeploymentObj d) \<Rightarrow> stamp_of d = newStamp | _ \<Rightarrow> False)"
  by (simp add: raceResult_def raceState_def DataPrepperClusterReconciler_Reconcile_def resolveConfig_def overlayClass_def
    reconcileConfigMap_def reconcilePeerConfig_def apimachinery.reconcileDeployment_parts [OF shared.apimachinery_axioms] sh_eval demo_defs stamped_def
    configMap_def owned_by_def peerConfigMapName_def patchedDeployment_def Let_def isEmptyResources_def newStamp_def)

definition finalizerState :: shared where
  "finalizerState = \<lparr>log = put_all [PipelineObj (demoPipeline ''one'' ''logs''), DeploymentObj demoDeployment], pending = [], clock_of = 7\<rparr>"

definition finalizerResult :: "(goerror + unit) \<times> shared" where
  "finalizerResult = run_state (DataPrepperPipelineReconciler_Reconcile shared_env (''default'', ''one'')) finalizerState"

lemma finalizer_result:
  "fst finalizerResult = Inr () \<and> map by_client (log (snd finalizerResult)) = [True, False, False] \<and>
     tl (log (snd finalizerResult)) = log finalizerState"
  by (simp add: finalizerResult_def finalizerState_def Reconcile_parts handleFetched_def sh_eval demo_defs with_status_def)

lemma race_log: "map by_client (log raceState) = [False, False, False, False]" "map by_client (log finalizerState) = [False, False]"
  by (simp_all add: raceState_def finalizerState_def put_all_def storable_def commit_def demo_defs)

section \<open>Properties\<close>

text \<open>
  C5: However other clients' writes interleave with a reconcile of a cluster, and however stale its reads,
  each of its writes concerns an object of the cluster it read and keeps the fields others own, as they are
  stored when the write takes effect: it never replaces a pipelines ConfigMap, and keeps the Deployment's
  stamp and selector, under autoscaling its replicas, the Services' addresses and the cluster's spec.
\<close>

theorem cluster_writes_keep_fields:
  assumes "shared_server E hist version" "coherent version (hist s)"
    "run_state (DataPrepperClusterReconciler_Reconcile E req) s = (r, s')"
  shows "\<exists>ws. hist s' = ws @ hist s \<and> (\<forall>w\<in>set ws. by_client w \<longrightarrow>
    (\<exists>c. ClusterObj c \<in> stored_ever (hist s') \<and> clusterKey c = (KCluster, req) \<and> cluster_write c w))"
  using shared_server.cluster_guarantee [OF assms] by (auto simp: continues_def) fastforce

theorem cluster_writes_keep_fields_witness:
  "\<exists>ws. log (snd raceResult) = ws @ log raceState \<and> map by_client ws = [False, True] \<and> (\<forall>w\<in>set ws. by_client w \<longrightarrow>
    (\<exists>c. ClusterObj c \<in> stored_ever (log (snd raceResult)) \<and> clusterKey c = (KCluster, ''default'', ''prepper'') \<and> cluster_write c w))"
proof -
  have coh: "coherent (\<lambda>v. v) (log raceState)" by (simp add: raceState_def coherent_put_all)
  have run: "run_state (DataPrepperClusterReconciler_Reconcile shared_env (''default'', ''prepper'')) raceState = (fst raceResult, snd raceResult)"
    by (simp only: raceResult_def prod.collapse)
  obtain ws where ws: "log (snd raceResult) = ws @ log raceState" "\<forall>w\<in>set ws. by_client w \<longrightarrow>
    (\<exists>c. ClusterObj c \<in> stored_ever (log (snd raceResult)) \<and> clusterKey c = (KCluster, ''default'', ''prepper'') \<and> cluster_write c w)"
    using cluster_writes_keep_fields [OF shared.shared_server_axioms coh run] by (elim exE conjE) (rule that)
  with race_result race_log(1) have "map by_client ws @ [False, False, False, False] = [False, True] @ [False, False, False, False]" by simp
  then have "map by_client ws = [False, True]" unfolding append_same_eq .
  then show ?thesis by (intro exI [of _ ws] conjI ws)
qed

text \<open>
  C6: However other clients' writes interleave with a reconcile of a pipeline, each of its writes replaces
  an object that is there; it sets the one key of the ConfigMap and the one annotation of the Deployment to
  a content and a hash, leaves the rest of what is stored then as it is, and never changes a pipeline's spec.
\<close>

theorem pipeline_writes_keep_fields:
  assumes "shared_server E hist version" "coherent version (hist s)"
    "run_state (DataPrepperPipelineReconciler_Reconcile E req) s = (r, s')"
  shows "\<exists>ws. hist s' = ws @ hist s \<and> (\<forall>w\<in>set ws. by_client w \<longrightarrow>
    (\<exists>p. PipelineObj p \<in> stored_ever (hist s') \<and> pkey p = (KPipeline, req) \<and> pipeline_write p w))"
  using shared_server.pipeline_guarantee [OF assms] by (auto simp: continues_def) fastforce

theorem pipeline_writes_keep_fields_witness:
  "\<exists>w. log (snd finalizerResult) = w # log finalizerState \<and> by_client w \<and>
    (\<exists>p. PipelineObj p \<in> stored_ever (log (snd finalizerResult)) \<and> pkey p = (KPipeline, ''default'', ''one'') \<and> pipeline_write p w)"
proof -
  have coh: "coherent (\<lambda>v. v) (log finalizerState)" by (simp add: finalizerState_def coherent_put_all)
  have run: "run_state (DataPrepperPipelineReconciler_Reconcile shared_env (''default'', ''one'')) finalizerState = (fst finalizerResult, snd finalizerResult)"
    by (simp only: finalizerResult_def prod.collapse)
  obtain ws where ws: "log (snd finalizerResult) = ws @ log finalizerState" "\<forall>w\<in>set ws. by_client w \<longrightarrow>
    (\<exists>p. PipelineObj p \<in> stored_ever (log (snd finalizerResult)) \<and> pkey p = (KPipeline, ''default'', ''one'') \<and> pipeline_write p w)"
    using pipeline_writes_keep_fields [OF shared.shared_server_axioms coh run] by (elim exE conjE) (rule that)
  with finalizer_result race_log(2) have "map by_client ws @ [False, False] = [True] @ [False, False]" by simp
  then have "map by_client ws = [True]" unfolding append_same_eq .
  then obtain w where "ws = [w]" "by_client w" by auto
  with ws show ?thesis by auto
qed

text \<open>
  C7: Through any sequence of reconciles of clusters and pipelines, interleaved with the writes of other
  clients that leave the stamp of a Deployment alone, the Deployment is not lost, it stays stamped, and its
  stamp only changes to a content hash that a reconcile of a pipeline writes.
\<close>

theorem stamp_survives_interleaving:
  assumes "shared_server E hist version" "coherent version (hist s)" "(shared_step E)\<^sup>*\<^sup>* s s'" "hist s' = ws @ hist s"
    and "current (hist s) (KDeployment, ns, n) = Some (DeploymentObj d)" "stamp_of d \<noteq> []"
    and "\<forall>w\<in>set ws. \<not> by_client w \<longrightarrow> key_of w = (KDeployment, ns, n) \<longrightarrow> keeps_stamp w"
  shows "\<exists>d'. current (hist s') (KDeployment, ns, n) = Some (DeploymentObj d') \<and> stamp_of d' \<noteq> [] \<and>
    (stamp_of d' = stamp_of d \<or> (\<exists>w\<in>set ws. pipeline_stamp (KDeployment, ns, n) (stamp_of d') w))"
proof -
  note run = shared_server.steps_continue [OF assms(1,3,2)]
  from coherentD(5) [OF continues_coherent [OF run]] assms(4) have "linked (ws @ hist s)" by simp
  moreover from run assms(4) have "\<forall>w\<in>set ws. by_client w \<longrightarrow> (\<exists>c. cluster_write c w) \<or> (\<exists>p. pipeline_write p w)"
    by (simp add: continues_def)
  ultimately show ?thesis unfolding assms(4) using assms(7) by (intro stamp_history assms(5,6)) auto
qed

text \<open>A run in which the reconcile of a new pipeline adds the finalizer, beside a stamped Deployment.\<close>

theorem stamp_survives_interleaving_witness:
  "\<exists>d. current (log (snd finalizerResult)) (KDeployment, ''default'', ''prepper'') = Some (DeploymentObj d) \<and> stamp_of d \<noteq> []"
proof -
  let ?k = "(KDeployment, ''default'', ''prepper'')"
  obtain w where w: "log (snd finalizerResult) = [w] @ log finalizerState" "by_client w"
    using finalizer_result by (cases "log (snd finalizerResult)") auto
  have "coherent (\<lambda>v. v) (log finalizerState)" by (simp add: finalizerState_def coherent_put_all)
  moreover have "(shared_step shared_env)\<^sup>*\<^sup>* finalizerState (snd finalizerResult)"
    by (rule r_into_rtranclp, rule shared_step.pipeline, unfold finalizerResult_def) (rule prod.collapse [symmetric])
  moreover obtain d where "current (log finalizerState) ?k = Some (DeploymentObj d)" "stamp_of d \<noteq> []"
    by (simp add: finalizerState_def put_all_def commit_def storable_def versioned_def demo_defs goget_def pipelinesHashAnnotation_def)
  ultimately show ?thesis
    using stamp_survives_interleaving [OF shared.shared_server_axioms _ _ w(1)] w(2) by fastforce
qed

end
