(* ===== verification/Go_Memory.thy ===== *)
theory Go_Memory
  imports Prelude
begin

text \<open>
  Memory with pointers, for the code that is about sharing: a memory maps addresses to cells and
  allocates upwards. \<open>newCopy\<close> and \<open>copySlice\<close> are the two ways the generated deep-copy functions fill
  fresh memory. \<open>copies\<close> is what each of them promises: the copy reads as the original did, everything
  reachable from it is fresh, and no cell that was there before has changed.
\<close>

section \<open>Memory\<close>

type_synonym addr = nat

record 'c memory =
  cells :: "addr \<Rightarrow> 'c"
  lim :: addr

definition new :: "'c \<Rightarrow> ('c memory, addr) state" where
  "new c = State (\<lambda>m. (lim m, m\<lparr>cells := (cells m)(lim m := c), lim := Suc (lim m)\<rparr>))"

definition deref :: "addr \<Rightarrow> ('c memory, 'c) state" where
  "deref a = State (\<lambda>m. (cells m a, m))"

definition store :: "addr \<Rightarrow> 'c \<Rightarrow> ('c memory, unit) state" where
  "store a c = State (\<lambda>m. ((), m\<lparr>cells := (cells m)(a := c)\<rparr>))"

lemma run_memory [simp]:
  "run_state (new c) m = (lim m, m\<lparr>cells := (cells m)(lim m := c), lim := Suc (lim m)\<rparr>)"
  "run_state (deref a) m = (cells m a, m)"
  "run_state (store a c) m = ((), m\<lparr>cells := (cells m)(a := c)\<rparr>)"
  by (simp_all add: new_def deref_def store_def)

text \<open>
  \<^verbatim>\<open>if p != nil { out = new(T); (*p).DeepCopyInto(out) }\<close>: a nil pointer stays nil. \<open>put\<close> and \<open>un\<close> say how a
  cell holds a value of the type, \<open>zero\<close> is the zero value.
\<close>

definition newCopy ::
  "('h \<Rightarrow> 'c) \<Rightarrow> ('c \<Rightarrow> 'h) \<Rightarrow> 'h \<Rightarrow> ('h \<Rightarrow> ('c memory, 'h) state) \<Rightarrow> addr option \<Rightarrow> ('c memory, addr option) state" where
  "newCopy put un zero into p =
     (case p of
        None \<Rightarrow> State_Monad.return None
      | Some a \<Rightarrow> do {
          out \<leftarrow> new (put zero);
          x \<leftarrow> deref a;
          y \<leftarrow> into (un x);
          store out (put y);
          State_Monad.return (Some out) })"

text \<open>
  \<^verbatim>\<open>if s != nil { out = make([]T, len(s)); for i := range s { s[i].DeepCopyInto(&out[i]) } }\<close>. A slice is the
  address of the array behind it.
\<close>

fun copyElements ::
  "('h list \<Rightarrow> 'c) \<Rightarrow> ('c \<Rightarrow> 'h list) \<Rightarrow> ('h \<Rightarrow> ('c memory, 'h) state) \<Rightarrow> addr \<Rightarrow> nat \<Rightarrow> 'h list \<Rightarrow> ('c memory, unit) state" where
  "copyElements put un into out i [] = State_Monad.return ()"
| "copyElements put un into out i (x # xs) = do {
     y \<leftarrow> into x;
     c \<leftarrow> deref out;
     store out (put ((un c)[i := y]));
     copyElements put un into out (Suc i) xs }"

definition copySlice ::
  "('h list \<Rightarrow> 'c) \<Rightarrow> ('c \<Rightarrow> 'h list) \<Rightarrow> 'h \<Rightarrow> ('h \<Rightarrow> ('c memory, 'h) state) \<Rightarrow> addr option \<Rightarrow> ('c memory, addr option) state" where
  "copySlice put un zero into p =
     (case p of
        None \<Rightarrow> State_Monad.return None
      | Some a \<Rightarrow> do {
          x \<leftarrow> deref a;
          out \<leftarrow> new (put (replicate (length (un x)) zero));
          copyElements put un into out 0 (un x);
          State_Monad.return (Some out) })"

section \<open>Copies\<close>

text \<open>What was allocated in \<open>m\<close> is unchanged in \<open>m'\<close>.\<close>

definition extends :: "'c memory \<Rightarrow> 'c memory \<Rightarrow> bool" where
  "extends m m' \<longleftrightarrow> lim m \<le> lim m' \<and> (\<forall>a<lim m. cells m' a = cells m a)"

definition allocated :: "'c memory \<Rightarrow> addr set \<Rightarrow> bool" where
  "allocated m as \<longleftrightarrow> as \<subseteq> {..<lim m}"

text \<open>
  A type is described by what a value of it reads as (\<open>val\<close>) and the addresses this depends on
  (\<open>refs\<close>), both in a memory.
\<close>

definition reads_only :: "('c memory \<Rightarrow> 'h \<Rightarrow> 'v) \<Rightarrow> ('c memory \<Rightarrow> 'h \<Rightarrow> addr set) \<Rightarrow> bool" where
  "reads_only val refs \<longleftrightarrow>
     (\<forall>m m' x. (\<forall>a\<in>refs m x. cells m' a = cells m a) \<longrightarrow> val m' x = val m x \<and> refs m' x = refs m x)"

definition copies ::
  "('h \<Rightarrow> ('c memory, 'h) state) \<Rightarrow> ('c memory \<Rightarrow> 'h \<Rightarrow> 'v) \<Rightarrow> ('c memory \<Rightarrow> 'h \<Rightarrow> addr set) \<Rightarrow> bool" where
  "copies into val refs \<longleftrightarrow> reads_only val refs \<and>
     (\<forall>m x y m'. allocated m (refs m x) \<longrightarrow> run_state (into x) m = (y, m') \<longrightarrow>
        extends m m' \<and> val m' y = val m x \<and> refs m' y \<subseteq> {lim m..<lim m'})"

lemma extends_refl [simp]: "extends m m"
  by (simp add: extends_def)

lemma extends_trans: "extends m m' \<Longrightarrow> extends m' m'' \<Longrightarrow> extends m m''"
  by (auto simp: extends_def)

lemma reads_onlyI:
  "(\<And>m m' x. (\<And>a. a \<in> refs m x \<Longrightarrow> cells m' a = cells m a) \<Longrightarrow> val m' x = val m x \<and> refs m' x = refs m x) \<Longrightarrow> reads_only val refs"
  unfolding reads_only_def by blast

lemma copies_reads_only: "copies into val refs \<Longrightarrow> reads_only val refs"
  by (simp add: copies_def)

lemma reads_onlyD:
  assumes "reads_only val refs" "\<And>a. a \<in> refs m x \<Longrightarrow> cells m' a = cells m a"
  shows "val m' x = val m x" "refs m' x = refs m x"
  using assms unfolding reads_only_def by blast+

lemma reads_only_extends:
  assumes "reads_only val refs" "extends m m'" "allocated m (refs m x)"
  shows "val m' x = val m x" "refs m' x = refs m x" "allocated m' (refs m' x)"
proof -
  have "cells m' a = cells m a" if "a \<in> refs m x" for a using assms(2,3) that by (auto simp: extends_def allocated_def)
  from reads_onlyD [OF assms(1) this] show "val m' x = val m x" "refs m' x = refs m x" by auto
  with assms(2,3) show "allocated m' (refs m' x)" by (auto simp: extends_def allocated_def)
qed

text \<open>
  \<open>copied m0 m x y\<close>: in \<open>m\<close> the value \<open>y\<close> is a copy, made since \<open>m0\<close>, of what \<open>x\<close> was there. This stays
  so while memory is only extended.
\<close>

definition copied ::
  "('c memory \<Rightarrow> 'h \<Rightarrow> 'v) \<Rightarrow> ('c memory \<Rightarrow> 'h \<Rightarrow> addr set) \<Rightarrow> 'c memory \<Rightarrow> 'c memory \<Rightarrow> 'h \<Rightarrow> 'h \<Rightarrow> bool" where
  "copied val refs m0 m x y \<longleftrightarrow> val m y = val m0 x \<and> refs m y \<subseteq> {lim m0..<lim m}"

lemma copies_step:
  assumes "copies into val refs" "extends m0 m" "allocated m0 (refs m0 x)" "run_state (into x) m = (y, m')"
  shows "extends m m'" "val m' y = val m0 x" "refs m' y \<subseteq> {lim m..<lim m'}" "copied val refs m0 m' x y"
proof -
  note same = reads_only_extends [OF copies_reads_only [OF assms(1)] assms(2,3)]
  have "extends m m' \<and> val m' y = val m x \<and> refs m' y \<subseteq> {lim m..<lim m'}"
    using assms(1,4) same(2,3) unfolding copies_def by metis
  with same(1) show "extends m m'" "val m' y = val m0 x" "refs m' y \<subseteq> {lim m..<lim m'}" by simp_all
  then show "copied val refs m0 m' x y" using assms(2) by (auto simp: copied_def extends_def)
qed

lemma copied_extends:
  "reads_only val refs \<Longrightarrow> copied val refs m0 m x y \<Longrightarrow> extends m m' \<Longrightarrow> copied val refs m0 m' x y"
  using reads_only_extends(1,2) [of val refs m m' y] by (force simp: copied_def extends_def allocated_def subset_iff)

lemma copiesI:
  assumes "reads_only val refs"
    and "\<And>m x y m'. allocated m (refs m x) \<Longrightarrow> run_state (into x) m = (y, m') \<Longrightarrow> extends m m' \<and> copied val refs m m' x y"
  shows "copies into val refs"
  using assms by (auto simp: copies_def copied_def)

section \<open>How copies compose\<close>

text \<open>A value without references is copied by assignment.\<close>

lemma copies_return: "copies State_Monad.return (\<lambda>_ x. f x) (\<lambda>_ _. {})"
  by (rule copiesI, rule reads_onlyI) (auto simp: copied_def)

text \<open>Two fields, one after the other.\<close>

lemma copies_pair:
  assumes f: "copies f vf rf" and g: "copies g vg rg"
  shows "copies (\<lambda>(x, y). do { x' \<leftarrow> f x; y' \<leftarrow> g y; State_Monad.return (x', y') })
    (\<lambda>m (x, y). (vf m x, vg m y)) (\<lambda>m (x, y). rf m x \<union> rg m y)"
proof (rule copiesI)
  show "reads_only (\<lambda>m (x, y). (vf m x, vg m y)) (\<lambda>m (x, y). rf m x \<union> rg m y)"
  proof (rule reads_onlyI, clarify)
    fix m m' :: "'b memory" and x y
    assume same: "\<And>a. a \<in> rf m x \<union> rg m y \<Longrightarrow> cells m' a = cells m a"
    show "(vf m' x, vg m' y) = (vf m x, vg m y) \<and> rf m' x \<union> rg m' y = rf m x \<union> rg m y"
      using reads_onlyD [OF copies_reads_only [OF f], of m x m'] reads_onlyD [OF copies_reads_only [OF g], of m y m'] same by simp
  qed
next
  fix m :: "'b memory" and p q m'
  assume alloc: "allocated m (case p of (x, y) \<Rightarrow> rf m x \<union> rg m y)"
    and run: "run_state (case p of (x, y) \<Rightarrow> do { x' \<leftarrow> f x; y' \<leftarrow> g y; State_Monad.return (x', y') }) m = (q, m')"
  obtain x y where p: "p = (x, y)" by (cases p)
  obtain x' m1 where one: "run_state (f x) m = (x', m1)" by (metis surj_pair)
  obtain y' m2 where two: "run_state (g y) m1 = (y', m2)" by (metis surj_pair)
  have "q = (x', y')" "m' = m2" using run one two by (simp_all add: p)
  moreover have "allocated m (rf m x)" "allocated m (rg m y)" using alloc by (auto simp: p allocated_def)
  note x = copies_step [OF f extends_refl this(1) one] and y = copies_step [OF g _ this(2) two, OF copies_step(1) [OF f extends_refl this(1) one]]
  moreover have "copied vf rf m m2 x x'" by (rule copied_extends [OF copies_reads_only [OF f] x(4) y(1)])
  ultimately show "extends m m' \<and> copied (\<lambda>m (x, y). (vf m x, vg m y)) (\<lambda>m (x, y). rf m x \<union> rg m y) m m' p q"
    using extends_trans [OF x(1) y(1)] by (auto simp: p copied_def)
qed

text \<open>
  A struct: some of its fields are copied, the rest is assigned. \<open>part\<close> selects the former, \<open>update\<close>
  replaces them.
\<close>

lemma copies_struct:
  assumes c: "copies cp val refs" and sel: "\<And>x y. part (update x y) = y" and rest: "\<And>x y. V (update x y) = V x"
  shows "copies (\<lambda>x. do { y \<leftarrow> cp (part x); State_Monad.return (update x y) }) (\<lambda>m x. V x (val m (part x))) (\<lambda>m x. refs m (part x))"
proof (rule copiesI)
  show "reads_only (\<lambda>m x. V x (val m (part x))) (\<lambda>m x. refs m (part x))"
    by (rule reads_onlyI) (use reads_onlyD [OF copies_reads_only [OF c]] in metis)
next
  fix m x y m'
  assume alloc: "allocated m (refs m (part x))" and run: "run_state (do { y \<leftarrow> cp (part x); State_Monad.return (update x y) }) m = (y, m')"
  obtain z m1 where one: "run_state (cp (part x)) m = (z, m1)" by (metis surj_pair)
  with run have "y = update x z" "m' = m1" by simp_all
  with copies_step [OF c extends_refl alloc one]
  show "extends m m' \<and> copied (\<lambda>m x. V x (val m (part x))) (\<lambda>m x. refs m (part x)) m m' x y"
    by (simp add: copied_def sel rest)
qed

text \<open>A pointer to a fresh copy of what the original points to.\<close>

abbreviation pointed :: "('c \<Rightarrow> 'h) \<Rightarrow> ('c memory \<Rightarrow> 'h \<Rightarrow> 'v) \<Rightarrow> 'c memory \<Rightarrow> addr option \<Rightarrow> 'v option" where
  "pointed un val m p \<equiv> map_option (\<lambda>a. val m (un (cells m a))) p"

abbreviation pointer_refs :: "('c \<Rightarrow> 'h) \<Rightarrow> ('c memory \<Rightarrow> 'h \<Rightarrow> addr set) \<Rightarrow> 'c memory \<Rightarrow> addr option \<Rightarrow> addr set" where
  "pointer_refs un refs m p \<equiv> (case p of None \<Rightarrow> {} | Some a \<Rightarrow> insert a (refs m (un (cells m a))))"

lemma extends_store: "extends m m' \<Longrightarrow> lim m \<le> b \<Longrightarrow> extends m (m'\<lparr>cells := (cells m')(b := c)\<rparr>)"
  by (auto simp: extends_def)

lemma extends_new: "extends m (m\<lparr>cells := (cells m)(lim m := c), lim := Suc (lim m)\<rparr>)"
  by (simp add: extends_def)

lemma reads_only_pointer:
  assumes "reads_only val refs"
  shows "reads_only (pointed un val) (pointer_refs un refs)"
proof (rule reads_onlyI)
  fix m m' :: "'a memory" and p
  assume same: "\<And>a. a \<in> pointer_refs un refs m p \<Longrightarrow> cells m' a = cells m a"
  then show "pointed un val m' p = pointed un val m p \<and> pointer_refs un refs m' p = pointer_refs un refs m p"
  proof (cases p)
    case (Some a)
    with same have "cells m' a = cells m a" by simp
    with same Some reads_onlyD [OF assms, of m "un (cells m a)" m'] show ?thesis by simp
  qed simp
qed

lemma copied_store:
  assumes "reads_only val refs" "copied val refs m0 m x y" "b \<notin> refs m y"
  shows "val (m\<lparr>cells := (cells m)(b := c)\<rparr>) y = val m0 x" "refs (m\<lparr>cells := (cells m)(b := c)\<rparr>) y = refs m y"
proof -
  have "cells (m\<lparr>cells := (cells m)(b := c)\<rparr>) a = cells m a" if "a \<in> refs m y" for a using that assms(3) by auto
  from reads_onlyD [OF assms(1) this] assms(2)
  show "val (m\<lparr>cells := (cells m)(b := c)\<rparr>) y = val m0 x" "refs (m\<lparr>cells := (cells m)(b := c)\<rparr>) y = refs m y"
    by (simp_all add: copied_def)
qed

lemma copies_new:
  assumes c: "copies into val refs" and un: "\<And>y. un (put y) = y"
  shows "copies (newCopy put un zero into) (pointed un val) (pointer_refs un refs)"
proof (rule copiesI)
  show "reads_only (pointed un val) (pointer_refs un refs)" by (rule reads_only_pointer [OF copies_reads_only [OF c]])
next
  fix m p q m'
  assume alloc: "allocated m (pointer_refs un refs m p)" and run: "run_state (newCopy put un zero into p) m = (q, m')"
  show "extends m m' \<and> copied (pointed un val) (pointer_refs un refs) m m' p q"
  proof (cases p)
    case (Some a)
    let ?m1 = "m\<lparr>cells := (cells m)(lim m := put zero), lim := Suc (lim m)\<rparr>"
    have a: "a < lim m" "allocated m (refs m (un (cells m a)))" using alloc Some by (auto simp: allocated_def)
    obtain y m2 where into: "run_state (into (un (cells m a))) ?m1 = (y, m2)" by (metis surj_pair)
    have res: "q = Some (lim m)" "m' = m2\<lparr>cells := (cells m2)(lim m := put y)\<rparr>"
      using run into Some a(1) by (auto simp: newCopy_def)
    note step = copies_step [OF c extends_new a(2) into]
    have ext: "extends m m2" by (rule extends_trans [OF extends_new step(1)])
    have "lim m < lim m2" using step(1) by (simp add: extends_def)
    have fresh: "lim m \<notin> refs m2 y" "refs m2 y \<subseteq> {lim m..<lim m2}" using step(3) by auto
    note y = copied_store [OF copies_reads_only [OF c] step(4) fresh(1), of "put y"]
    show ?thesis using extends_store [OF ext] y fresh(2) \<open>lim m < lim m2\<close> by (auto simp: copied_def res un Some)
  qed (use run in \<open>simp add: newCopy_def copied_def\<close>)
qed

text \<open>A slice: the loop invariant says that the first elements of the new array are copies.\<close>

abbreviation elements :: "('c \<Rightarrow> 'h list) \<Rightarrow> ('c memory \<Rightarrow> 'h \<Rightarrow> 'v) \<Rightarrow> 'c memory \<Rightarrow> addr option \<Rightarrow> 'v list option" where
  "elements un val m p \<equiv> map_option (\<lambda>a. map (val m) (un (cells m a))) p"

abbreviation element_refs :: "('c \<Rightarrow> 'h list) \<Rightarrow> ('c memory \<Rightarrow> 'h \<Rightarrow> addr set) \<Rightarrow> 'c memory \<Rightarrow> addr option \<Rightarrow> addr set" where
  "element_refs un refs m p \<equiv> (case p of None \<Rightarrow> {} | Some a \<Rightarrow> insert a (\<Union>x\<in>set (un (cells m a)). refs m x))"

lemma reads_only_elements:
  assumes "reads_only val refs"
  shows "reads_only (elements un val) (element_refs un refs)"
proof (rule reads_onlyI)
  fix m m' :: "'a memory" and p
  assume same: "\<And>a. a \<in> element_refs un refs m p \<Longrightarrow> cells m' a = cells m a"
  show "elements un val m' p = elements un val m p \<and> element_refs un refs m' p = element_refs un refs m p"
  proof (cases p)
    case (Some a)
    with same have "cells m' a = cells m a" by simp
    moreover have "val m' x = val m x \<and> refs m' x = refs m x" if "x \<in> set (un (cells m a))" for x
      using reads_onlyD [OF assms, of m x m'] same Some that by auto
    ultimately show ?thesis using Some by simp
  qed simp
qed

definition filled ::
  "('c memory \<Rightarrow> 'h \<Rightarrow> 'v) \<Rightarrow> ('c memory \<Rightarrow> 'h \<Rightarrow> addr set) \<Rightarrow> 'c memory \<Rightarrow> addr \<Rightarrow> 'c memory \<Rightarrow> 'h list \<Rightarrow> 'h list \<Rightarrow> bool" where
  "filled val refs m0 out m xs ys \<longleftrightarrow> list_all2 (\<lambda>x y. copied val refs m0 m x y \<and> out \<notin> refs m y) xs ys"

lemma filled_extends:
  assumes "reads_only val refs" "filled val refs m0 out m xs ys" "extends m m'"
  shows "filled val refs m0 out m' xs ys"
  using assms(2) unfolding filled_def
proof (rule list_all2_mono, elim conjE)
  fix x y assume c: "copied val refs m0 m x y" "out \<notin> refs m y"
  then have "allocated m (refs m y)" by (auto simp: copied_def allocated_def)
  from reads_only_extends(2) [OF assms(1,3) this] copied_extends [OF assms(1) c(1) assms(3)] c(2)
  show "copied val refs m0 m' x y \<and> out \<notin> refs m' y" by simp
qed

lemma filled_store:
  assumes "reads_only val refs" "filled val refs m0 out m xs ys"
  shows "filled val refs m0 out (m\<lparr>cells := (cells m)(out := c)\<rparr>) xs ys"
  using assms(2) unfolding filled_def
proof (rule list_all2_mono, elim conjE)
  fix x y assume c: "copied val refs m0 m x y" "out \<notin> refs m y"
  from copied_store [OF assms(1) this] c
  show "copied val refs m0 (m\<lparr>cells := (cells m)(out := c)\<rparr>) x y \<and> out \<notin> refs (m\<lparr>cells := (cells m)(out := c)\<rparr>) y"
    by (simp add: copied_def)
qed

lemma copyElements_loop:
  assumes c: "copies into val refs" and un: "\<And>ys. un (put ys) = ys"
    and m: "extends m0 m" "lim m0 \<le> out" "out < lim m" "\<forall>x\<in>set xs. allocated m0 (refs m0 x)"
    and start: "filled val refs m0 out m ds ys" "un (cells m out) = ys @ zs" "length zs = length xs"
    and run: "run_state (copyElements put un into out (length ys) xs) m = (u, m')"
  shows "extends m0 m' \<and> out < lim m' \<and> (\<exists>ys'. un (cells m' out) = ys' \<and> filled val refs m0 out m' (ds @ xs) ys')"
  using m start run
proof (induction xs arbitrary: m ds ys zs)
  case (Cons x xs)
  obtain z zs' where zs: "zs = z # zs'" "length zs' = length xs" using Cons.prems(7) by (cases zs) auto
  obtain y m1 where into: "run_state (into x) m = (y, m1)" by (metis surj_pair)
  let ?m2 = "m1\<lparr>cells := (cells m1)(out := put (ys @ y # zs'))\<rparr>"
  note step = copies_step [OF c Cons.prems(1) _ into]
  have ext: "extends m m1" and y: "refs m1 y \<subseteq> {lim m..<lim m1}" "copied val refs m0 m1 x y" using step Cons.prems(4) by auto
  have same: "cells m1 out = cells m out" using ext Cons.prems(3) by (simp add: extends_def)
  have "filled val refs m0 out m1 (ds @ [x]) (ys @ [y])"
    using filled_extends [OF copies_reads_only [OF c] Cons.prems(5) ext] y Cons.prems(3)
    by (auto simp: filled_def intro!: list_all2_appendI)
  then have fill: "filled val refs m0 out ?m2 (ds @ [x]) (ys @ [y])" by (rule filled_store [OF copies_reads_only [OF c]])
  have "extends m0 m1" by (rule extends_trans [OF Cons.prems(1) ext])
  then have ext2: "extends m0 ?m2" "out < lim ?m2" using extends_store Cons.prems(2,3) ext by (auto simp: extends_def)
  have "run_state (copyElements put un into out (length (ys @ [y])) xs) ?m2 = (u, m')"
    using Cons.prems(8) into same Cons.prems(6) zs(1) by (simp add: list_update_append)
  from Cons.IH [OF ext2(1) Cons.prems(2) ext2(2) _ fill _ zs(2) this] Cons.prems(4) un show ?case by simp
qed auto

lemma copies_slice:
  assumes c: "copies into val refs" and un: "\<And>ys. un (put ys) = ys"
  shows "copies (copySlice put un zero into) (elements un val) (element_refs un refs)"
proof (rule copiesI)
  show "reads_only (elements un val) (element_refs un refs)" by (rule reads_only_elements [OF copies_reads_only [OF c]])
next
  fix m p q m'
  assume alloc: "allocated m (element_refs un refs m p)" and run: "run_state (copySlice put un zero into p) m = (q, m')"
  show "extends m m' \<and> copied (elements un val) (element_refs un refs) m m' p q"
  proof (cases p)
    case (Some a)
    let ?xs = "un (cells m a)"
    let ?m1 = "m\<lparr>cells := (cells m)(lim m := put (replicate (length ?xs) zero)), lim := Suc (lim m)\<rparr>"
    obtain u m2 where loop: "run_state (copyElements put un into (lim m) (length ([]::'a list)) ?xs) ?m1 = (u, m2)" by (metis surj_pair)
    have res: "q = Some (lim m)" "m' = m2" using run loop Some by (auto simp: copySlice_def)
    have "\<forall>x\<in>set ?xs. allocated m (refs m x)" using alloc Some by (auto simp: allocated_def)
    from copyElements_loop [OF c un extends_new _ _ this, where ds = "[]" and zs = "replicate (length ?xs) zero", OF _ _ _ _ _ loop]
    obtain ys where ys: "extends m m2" "lim m < lim m2" "un (cells m2 (lim m)) = ys" "filled val refs m (lim m) m2 ?xs ys"
      by (auto simp: un filled_def)
    from ys(4) have "map (val m2) ys = map (val m) ?xs" "\<forall>y\<in>set ys. refs m2 y \<subseteq> {lim m..<lim m2}"
      unfolding filled_def by (induction rule: list_all2_induct) (auto simp: copied_def)
    with ys show ?thesis by (auto simp: copied_def res Some)
  qed (use run in \<open>simp add: copySlice_def copied_def\<close>)
qed

text \<open>The same facts under another reading of the values.\<close>

lemma copies_via: "copies into val refs \<Longrightarrow> copies into (\<lambda>m x. g (val m x)) refs"
  unfolding copies_def reads_only_def by metis

lemma copies_cong: "copies f v r \<Longrightarrow> f = f' \<Longrightarrow> v = v' \<Longrightarrow> r = r' \<Longrightarrow> copies f' v' r'"
  by simp

end
