(* ===== verification/Deep_Copy.thy ===== *)
theory Deep_Copy
  imports Go_Memory Api_Types
begin

text \<open>
  api/v1alpha1/zz\_generated.deepcopy.go over an explicit memory. Everywhere else in the development the
  API objects are immutable values; here they are what Go has, structs with pointers, slices and maps
  into shared memory, and copying them means allocating.

  A struct in memory is a record whose pointer, slice and map fields are addresses. The structs of other
  packages are opaque (\<open>ext\<close>); their \<^verbatim>\<open>DeepCopyInto\<close> methods are parameters, as is what they read as. The
  method \<^verbatim>\<open>in.DeepCopyInto(out)\<close> is modelled for an \<open>out\<close> that shares no memory with \<open>in\<close>, which every
  caller provides: it returns the new contents of \<open>out\<close>.
\<close>

section \<open>Definitions\<close>

subsection \<open>Structs in memory\<close>

text \<open>A struct of another package: what it holds itself, and the addresses in its fields.\<close>

datatype ext = Ext string "addr list"

record type_meta =
  tm_Kind :: string
  tm_APIVersion :: string

record AutoscalingSpec_m =
  mas_MinReplicas :: "addr option"
  mas_MaxReplicas :: int
  mas_TargetCPUUtilizationPercentage :: "addr option"

record DataPrepperClassSpec_m =
  mks_Image :: string
  mks_Resources :: ext
  mks_EnvFrom :: "addr option"
  mks_NodeSelector :: "addr option"
  mks_Tolerations :: "addr option"
  mks_PodLabels :: "addr option"
  mks_PodAnnotations :: "addr option"

record DataPrepperClass_m =
  mk_TypeMeta :: type_meta
  mk_ObjectMeta :: ext
  mk_Spec :: DataPrepperClassSpec_m

record DataPrepperClassList_m =
  mkl_TypeMeta :: type_meta
  mkl_ListMeta :: ext
  mkl_Items :: "addr option"

record DataPrepperClusterSpec_m =
  mcs_ClassRef :: string
  mcs_Image :: string
  mcs_Replicas :: int
  mcs_Resources :: ext
  mcs_ServerConfigMap :: string
  mcs_AssetsConfigMap :: string
  mcs_ExtraVolumes :: "addr option"
  mcs_ExtraVolumeMounts :: "addr option"
  mcs_ExtraPorts :: "addr option"
  mcs_EnvFrom :: "addr option"
  mcs_Metrics :: "addr option"
  mcs_Autoscaling :: "addr option"

record DataPrepperClusterStatus_m =
  mct_Phase :: string
  mct_ReadyReplicas :: int
  mct_Pipelines :: int
  mct_ObservedGeneration :: int
  mct_Conditions :: "addr option"

record DataPrepperCluster_m =
  mc_TypeMeta :: type_meta
  mc_ObjectMeta :: ext
  mc_Spec :: DataPrepperClusterSpec_m
  mc_Status :: DataPrepperClusterStatus_m

record DataPrepperClusterList_m =
  mcl_TypeMeta :: type_meta
  mcl_ListMeta :: ext
  mcl_Items :: "addr option"

record DataPrepperPipelineSpec_m =
  mps_ClusterRef :: string
  mps_YAMLKey :: string
  mps_Pipeline :: ext

record DataPrepperPipelineStatus_m =
  mpt_Phase :: string
  mpt_ObservedGeneration :: int
  mpt_Conditions :: "addr option"

record DataPrepperPipeline_m =
  mp_TypeMeta :: type_meta
  mp_ObjectMeta :: ext
  mp_Spec :: DataPrepperPipelineSpec_m
  mp_Status :: DataPrepperPipelineStatus_m

record DataPrepperPipelineList_m =
  mpl_TypeMeta :: type_meta
  mpl_ListMeta :: ext
  mpl_Items :: "addr option"

text \<open>What an address can hold. Go's types keep a cell to its constructor.\<close>

datatype cell =
    CInt32 (theInt32: int)
  | CStringMap (theStringMap: strmap)
  | CExts (theExts: "ext list")
  | CExt (theExt: ext)
  | CPorts (thePorts: "container_port list")
  | CMetricsSpec (theMetricsSpec: MetricsSpec)
  | CAutoscalingSpec (theAutoscalingSpec: AutoscalingSpec_m)
  | CClassSpec (theClassSpec: DataPrepperClassSpec_m)
  | CClass (theClass: DataPrepperClass_m)
  | CClasses (theClasses: "DataPrepperClass_m list")
  | CClassList (theClassList: DataPrepperClassList_m)
  | CClusterSpec (theClusterSpec: DataPrepperClusterSpec_m)
  | CClusterStatus (theClusterStatus: DataPrepperClusterStatus_m)
  | CCluster (theCluster: DataPrepperCluster_m)
  | CClusters (theClusters: "DataPrepperCluster_m list")
  | CClusterList (theClusterList: DataPrepperClusterList_m)
  | CPipelineSpec (thePipelineSpec: DataPrepperPipelineSpec_m)
  | CPipelineStatus (thePipelineStatus: DataPrepperPipelineStatus_m)
  | CPipeline (thePipeline: DataPrepperPipeline_m)
  | CPipelines (thePipelines: "DataPrepperPipeline_m list")
  | CPipelineList (thePipelineList: DataPrepperPipelineList_m)

type_synonym gomem = "cell memory"

text \<open>Zero values, the contents of \<^verbatim>\<open>new(T)\<close>.\<close>

definition "zeroExt = Ext [] []"
definition "zeroTypeMeta = \<lparr>tm_Kind = [], tm_APIVersion = []\<rparr>"
definition "zeroPort = \<lparr>cp_Name = [], cp_ContainerPort = 0, cp_Protocol = [], cp_Other = []\<rparr>"
definition "zeroMetricsSpec = \<lparr>ms_ServiceMonitor = False\<rparr>"
definition "zeroAutoscalingSpec =
  \<lparr>mas_MinReplicas = None, mas_MaxReplicas = 0, mas_TargetCPUUtilizationPercentage = None\<rparr>"
definition "zeroClassSpec =
  \<lparr>mks_Image = [], mks_Resources = zeroExt, mks_EnvFrom = None, mks_NodeSelector = None,
   mks_Tolerations = None, mks_PodLabels = None, mks_PodAnnotations = None\<rparr>"
definition "zeroClass = \<lparr>mk_TypeMeta = zeroTypeMeta, mk_ObjectMeta = zeroExt, mk_Spec = zeroClassSpec\<rparr>"
definition "zeroClassList = \<lparr>mkl_TypeMeta = zeroTypeMeta, mkl_ListMeta = zeroExt, mkl_Items = None\<rparr>"
definition "zeroClusterSpec =
  \<lparr>mcs_ClassRef = [], mcs_Image = [], mcs_Replicas = 0, mcs_Resources = zeroExt, mcs_ServerConfigMap = [],
   mcs_AssetsConfigMap = [], mcs_ExtraVolumes = None, mcs_ExtraVolumeMounts = None, mcs_ExtraPorts = None,
   mcs_EnvFrom = None, mcs_Metrics = None, mcs_Autoscaling = None\<rparr>"
definition "zeroClusterStatus_m =
  \<lparr>mct_Phase = [], mct_ReadyReplicas = 0, mct_Pipelines = 0, mct_ObservedGeneration = 0, mct_Conditions = None\<rparr>"
definition "zeroCluster =
  \<lparr>mc_TypeMeta = zeroTypeMeta, mc_ObjectMeta = zeroExt, mc_Spec = zeroClusterSpec, mc_Status = zeroClusterStatus_m\<rparr>"
definition "zeroClusterList = \<lparr>mcl_TypeMeta = zeroTypeMeta, mcl_ListMeta = zeroExt, mcl_Items = None\<rparr>"
definition "zeroPipelineSpec = \<lparr>mps_ClusterRef = [], mps_YAMLKey = [], mps_Pipeline = zeroExt\<rparr>"
definition "zeroPipelineStatus_m = \<lparr>mpt_Phase = [], mpt_ObservedGeneration = 0, mpt_Conditions = None\<rparr>"
definition "zeroPipeline =
  \<lparr>mp_TypeMeta = zeroTypeMeta, mp_ObjectMeta = zeroExt, mp_Spec = zeroPipelineSpec, mp_Status = zeroPipelineStatus_m\<rparr>"
definition "zeroPipelineList = \<lparr>mpl_TypeMeta = zeroTypeMeta, mpl_ListMeta = zeroExt, mpl_Items = None\<rparr>"

subsection \<open>The library\<close>

text \<open>
  The \<^verbatim>\<open>DeepCopyInto\<close> methods of apimachinery and of the core API types. What their structs read as, and on
  which addresses that depends, is stated with the same types as in the rest of the development.
\<close>

datatype ext_type =
  ObjectMeta | ListMeta | ResourceRequirements | EnvFromSource | Toleration | Volume | VolumeMount | Condition | RawExtension

record deep_lib =
  extDeepCopyInto :: "ext_type \<Rightarrow> ext \<Rightarrow> (gomem, ext) state"
  extRefs :: "ext_type \<Rightarrow> gomem \<Rightarrow> ext \<Rightarrow> addr set"
  readObjectMeta :: "gomem \<Rightarrow> ext \<Rightarrow> object_meta"
  readListMeta :: "gomem \<Rightarrow> ext \<Rightarrow> string"
  readResources :: "gomem \<Rightarrow> ext \<Rightarrow> resource_requirements"
  readEnvFrom :: "gomem \<Rightarrow> ext \<Rightarrow> env_from_source"
  readToleration :: "gomem \<Rightarrow> ext \<Rightarrow> toleration"
  readVolume :: "gomem \<Rightarrow> ext \<Rightarrow> volume"
  readVolumeMount :: "gomem \<Rightarrow> ext \<Rightarrow> volume_mount"
  readCondition :: "gomem \<Rightarrow> ext \<Rightarrow> condition"
  readRawExtension :: "gomem \<Rightarrow> ext \<Rightarrow> string"

text \<open>
  The two shapes of fields that need no method: \<^verbatim>\<open>*out = new(T); **out = **in\<close>, and
  \<^verbatim>\<open>make(map[string]string, len(*in))\<close> filled by a loop in which every entry overwrites.
\<close>

definition copyInt32 :: "addr option \<Rightarrow> (gomem, addr option) state" where
  "copyInt32 = newCopy CInt32 theInt32 0 State_Monad.return"

definition copyStringMap :: "addr option \<Rightarrow> (gomem, addr option) state" where
  "copyStringMap = newCopy CStringMap theStringMap fmempty (\<lambda>f. State_Monad.return (fmempty ++\<^sub>f f))"

definition copyExts :: "deep_lib \<Rightarrow> ext_type \<Rightarrow> addr option \<Rightarrow> (gomem, addr option) state" where
  "copyExts L ty = copySlice CExts theExts zeroExt (extDeepCopyInto L ty)"

subsection \<open>The generated functions\<close>

definition AutoscalingSpec_DeepCopyInto :: "AutoscalingSpec_m \<Rightarrow> (gomem, AutoscalingSpec_m) state" where
  "AutoscalingSpec_DeepCopyInto in' = do {
     minReplicas \<leftarrow> copyInt32 (mas_MinReplicas in');
     target \<leftarrow> copyInt32 (mas_TargetCPUUtilizationPercentage in');
     State_Monad.return (in'\<lparr>mas_MinReplicas := minReplicas, mas_TargetCPUUtilizationPercentage := target\<rparr>) }"

definition AutoscalingSpec_DeepCopy :: "addr option \<Rightarrow> (gomem, addr option) state" where
  "AutoscalingSpec_DeepCopy = newCopy CAutoscalingSpec theAutoscalingSpec zeroAutoscalingSpec AutoscalingSpec_DeepCopyInto"

definition MetricsSpec_DeepCopyInto :: "MetricsSpec \<Rightarrow> (gomem, MetricsSpec) state" where
  "MetricsSpec_DeepCopyInto in' = State_Monad.return in'"

definition MetricsSpec_DeepCopy :: "addr option \<Rightarrow> (gomem, addr option) state" where
  "MetricsSpec_DeepCopy = newCopy CMetricsSpec theMetricsSpec zeroMetricsSpec MetricsSpec_DeepCopyInto"

definition DataPrepperClassSpec_DeepCopyInto :: "deep_lib \<Rightarrow> DataPrepperClassSpec_m \<Rightarrow> (gomem, DataPrepperClassSpec_m) state" where
  "DataPrepperClassSpec_DeepCopyInto L in' = do {
     resources \<leftarrow> extDeepCopyInto L ResourceRequirements (mks_Resources in');
     envFrom \<leftarrow> copyExts L EnvFromSource (mks_EnvFrom in');
     nodeSelector \<leftarrow> copyStringMap (mks_NodeSelector in');
     tolerations \<leftarrow> copyExts L Toleration (mks_Tolerations in');
     podLabels \<leftarrow> copyStringMap (mks_PodLabels in');
     podAnnotations \<leftarrow> copyStringMap (mks_PodAnnotations in');
     State_Monad.return (in'\<lparr>mks_Resources := resources, mks_EnvFrom := envFrom, mks_NodeSelector := nodeSelector,
       mks_Tolerations := tolerations, mks_PodLabels := podLabels, mks_PodAnnotations := podAnnotations\<rparr>) }"

definition DataPrepperClassSpec_DeepCopy :: "deep_lib \<Rightarrow> addr option \<Rightarrow> (gomem, addr option) state" where
  "DataPrepperClassSpec_DeepCopy L = newCopy CClassSpec theClassSpec zeroClassSpec (DataPrepperClassSpec_DeepCopyInto L)"

definition DataPrepperClass_DeepCopyInto :: "deep_lib \<Rightarrow> DataPrepperClass_m \<Rightarrow> (gomem, DataPrepperClass_m) state" where
  "DataPrepperClass_DeepCopyInto L in' = do {
     meta \<leftarrow> extDeepCopyInto L ObjectMeta (mk_ObjectMeta in');
     spec \<leftarrow> DataPrepperClassSpec_DeepCopyInto L (mk_Spec in');
     State_Monad.return (in'\<lparr>mk_TypeMeta := mk_TypeMeta in', mk_ObjectMeta := meta, mk_Spec := spec\<rparr>) }"

definition DataPrepperClass_DeepCopy :: "deep_lib \<Rightarrow> addr option \<Rightarrow> (gomem, addr option) state" where
  "DataPrepperClass_DeepCopy L = newCopy CClass theClass zeroClass (DataPrepperClass_DeepCopyInto L)"

definition DataPrepperClassList_DeepCopyInto :: "deep_lib \<Rightarrow> DataPrepperClassList_m \<Rightarrow> (gomem, DataPrepperClassList_m) state" where
  "DataPrepperClassList_DeepCopyInto L in' = do {
     meta \<leftarrow> extDeepCopyInto L ListMeta (mkl_ListMeta in');
     items \<leftarrow> copySlice CClasses theClasses zeroClass (DataPrepperClass_DeepCopyInto L) (mkl_Items in');
     State_Monad.return (in'\<lparr>mkl_TypeMeta := mkl_TypeMeta in', mkl_ListMeta := meta, mkl_Items := items\<rparr>) }"

definition DataPrepperClassList_DeepCopy :: "deep_lib \<Rightarrow> addr option \<Rightarrow> (gomem, addr option) state" where
  "DataPrepperClassList_DeepCopy L = newCopy CClassList theClassList zeroClassList (DataPrepperClassList_DeepCopyInto L)"

definition DataPrepperClusterSpec_DeepCopyInto :: "deep_lib \<Rightarrow> DataPrepperClusterSpec_m \<Rightarrow> (gomem, DataPrepperClusterSpec_m) state" where
  "DataPrepperClusterSpec_DeepCopyInto L in' = do {
     resources \<leftarrow> extDeepCopyInto L ResourceRequirements (mcs_Resources in');
     extraVolumes \<leftarrow> copyExts L Volume (mcs_ExtraVolumes in');
     extraVolumeMounts \<leftarrow> copyExts L VolumeMount (mcs_ExtraVolumeMounts in');
     extraPorts \<leftarrow> copySlice CPorts thePorts zeroPort State_Monad.return (mcs_ExtraPorts in');
     envFrom \<leftarrow> copyExts L EnvFromSource (mcs_EnvFrom in');
     metrics \<leftarrow> newCopy CMetricsSpec theMetricsSpec zeroMetricsSpec State_Monad.return (mcs_Metrics in');
     autoscaling \<leftarrow> newCopy CAutoscalingSpec theAutoscalingSpec zeroAutoscalingSpec AutoscalingSpec_DeepCopyInto (mcs_Autoscaling in');
     State_Monad.return (in'\<lparr>mcs_Resources := resources, mcs_ExtraVolumes := extraVolumes,
       mcs_ExtraVolumeMounts := extraVolumeMounts, mcs_ExtraPorts := extraPorts, mcs_EnvFrom := envFrom,
       mcs_Metrics := metrics, mcs_Autoscaling := autoscaling\<rparr>) }"

definition DataPrepperClusterSpec_DeepCopy :: "deep_lib \<Rightarrow> addr option \<Rightarrow> (gomem, addr option) state" where
  "DataPrepperClusterSpec_DeepCopy L = newCopy CClusterSpec theClusterSpec zeroClusterSpec (DataPrepperClusterSpec_DeepCopyInto L)"

definition DataPrepperClusterStatus_DeepCopyInto :: "deep_lib \<Rightarrow> DataPrepperClusterStatus_m \<Rightarrow> (gomem, DataPrepperClusterStatus_m) state" where
  "DataPrepperClusterStatus_DeepCopyInto L in' = do {
     conditions \<leftarrow> copyExts L Condition (mct_Conditions in');
     State_Monad.return (in'\<lparr>mct_Conditions := conditions\<rparr>) }"

definition DataPrepperClusterStatus_DeepCopy :: "deep_lib \<Rightarrow> addr option \<Rightarrow> (gomem, addr option) state" where
  "DataPrepperClusterStatus_DeepCopy L =
     newCopy CClusterStatus theClusterStatus zeroClusterStatus_m (DataPrepperClusterStatus_DeepCopyInto L)"

definition DataPrepperCluster_DeepCopyInto :: "deep_lib \<Rightarrow> DataPrepperCluster_m \<Rightarrow> (gomem, DataPrepperCluster_m) state" where
  "DataPrepperCluster_DeepCopyInto L in' = do {
     meta \<leftarrow> extDeepCopyInto L ObjectMeta (mc_ObjectMeta in');
     spec \<leftarrow> DataPrepperClusterSpec_DeepCopyInto L (mc_Spec in');
     status \<leftarrow> DataPrepperClusterStatus_DeepCopyInto L (mc_Status in');
     State_Monad.return (in'\<lparr>mc_TypeMeta := mc_TypeMeta in', mc_ObjectMeta := meta, mc_Spec := spec, mc_Status := status\<rparr>) }"

definition DataPrepperCluster_DeepCopy :: "deep_lib \<Rightarrow> addr option \<Rightarrow> (gomem, addr option) state" where
  "DataPrepperCluster_DeepCopy L = newCopy CCluster theCluster zeroCluster (DataPrepperCluster_DeepCopyInto L)"

definition DataPrepperClusterList_DeepCopyInto :: "deep_lib \<Rightarrow> DataPrepperClusterList_m \<Rightarrow> (gomem, DataPrepperClusterList_m) state" where
  "DataPrepperClusterList_DeepCopyInto L in' = do {
     meta \<leftarrow> extDeepCopyInto L ListMeta (mcl_ListMeta in');
     items \<leftarrow> copySlice CClusters theClusters zeroCluster (DataPrepperCluster_DeepCopyInto L) (mcl_Items in');
     State_Monad.return (in'\<lparr>mcl_TypeMeta := mcl_TypeMeta in', mcl_ListMeta := meta, mcl_Items := items\<rparr>) }"

definition DataPrepperClusterList_DeepCopy :: "deep_lib \<Rightarrow> addr option \<Rightarrow> (gomem, addr option) state" where
  "DataPrepperClusterList_DeepCopy L = newCopy CClusterList theClusterList zeroClusterList (DataPrepperClusterList_DeepCopyInto L)"

definition DataPrepperPipelineSpec_DeepCopyInto :: "deep_lib \<Rightarrow> DataPrepperPipelineSpec_m \<Rightarrow> (gomem, DataPrepperPipelineSpec_m) state" where
  "DataPrepperPipelineSpec_DeepCopyInto L in' = do {
     pipeline \<leftarrow> extDeepCopyInto L RawExtension (mps_Pipeline in');
     State_Monad.return (in'\<lparr>mps_Pipeline := pipeline\<rparr>) }"

definition DataPrepperPipelineSpec_DeepCopy :: "deep_lib \<Rightarrow> addr option \<Rightarrow> (gomem, addr option) state" where
  "DataPrepperPipelineSpec_DeepCopy L = newCopy CPipelineSpec thePipelineSpec zeroPipelineSpec (DataPrepperPipelineSpec_DeepCopyInto L)"

definition DataPrepperPipelineStatus_DeepCopyInto :: "deep_lib \<Rightarrow> DataPrepperPipelineStatus_m \<Rightarrow> (gomem, DataPrepperPipelineStatus_m) state" where
  "DataPrepperPipelineStatus_DeepCopyInto L in' = do {
     conditions \<leftarrow> copyExts L Condition (mpt_Conditions in');
     State_Monad.return (in'\<lparr>mpt_Conditions := conditions\<rparr>) }"

definition DataPrepperPipelineStatus_DeepCopy :: "deep_lib \<Rightarrow> addr option \<Rightarrow> (gomem, addr option) state" where
  "DataPrepperPipelineStatus_DeepCopy L =
     newCopy CPipelineStatus thePipelineStatus zeroPipelineStatus_m (DataPrepperPipelineStatus_DeepCopyInto L)"

definition DataPrepperPipeline_DeepCopyInto :: "deep_lib \<Rightarrow> DataPrepperPipeline_m \<Rightarrow> (gomem, DataPrepperPipeline_m) state" where
  "DataPrepperPipeline_DeepCopyInto L in' = do {
     meta \<leftarrow> extDeepCopyInto L ObjectMeta (mp_ObjectMeta in');
     spec \<leftarrow> DataPrepperPipelineSpec_DeepCopyInto L (mp_Spec in');
     status \<leftarrow> DataPrepperPipelineStatus_DeepCopyInto L (mp_Status in');
     State_Monad.return (in'\<lparr>mp_TypeMeta := mp_TypeMeta in', mp_ObjectMeta := meta, mp_Spec := spec, mp_Status := status\<rparr>) }"

definition DataPrepperPipeline_DeepCopy :: "deep_lib \<Rightarrow> addr option \<Rightarrow> (gomem, addr option) state" where
  "DataPrepperPipeline_DeepCopy L = newCopy CPipeline thePipeline zeroPipeline (DataPrepperPipeline_DeepCopyInto L)"

definition DataPrepperPipelineList_DeepCopyInto :: "deep_lib \<Rightarrow> DataPrepperPipelineList_m \<Rightarrow> (gomem, DataPrepperPipelineList_m) state" where
  "DataPrepperPipelineList_DeepCopyInto L in' = do {
     meta \<leftarrow> extDeepCopyInto L ListMeta (mpl_ListMeta in');
     items \<leftarrow> copySlice CPipelines thePipelines zeroPipeline (DataPrepperPipeline_DeepCopyInto L) (mpl_Items in');
     State_Monad.return (in'\<lparr>mpl_TypeMeta := mpl_TypeMeta in', mpl_ListMeta := meta, mpl_Items := items\<rparr>) }"

definition DataPrepperPipelineList_DeepCopy :: "deep_lib \<Rightarrow> addr option \<Rightarrow> (gomem, addr option) state" where
  "DataPrepperPipelineList_DeepCopy L = newCopy CPipelineList thePipelineList zeroPipelineList (DataPrepperPipelineList_DeepCopyInto L)"

text \<open>
  A \<^verbatim>\<open>runtime.Object\<close> is an interface value: nil, or a dynamic type with a pointer (which could itself be
  nil). \<^verbatim>\<open>DeepCopyObject\<close> takes care not to return the latter.
\<close>

datatype dynamic_type = ClassType | ClassListType | ClusterType | ClusterListType | PipelineType | PipelineListType

type_synonym runtime_object = "(dynamic_type \<times> addr option) option"

definition DataPrepperClass_DeepCopyObject :: "deep_lib \<Rightarrow> addr option \<Rightarrow> (gomem, runtime_object) state" where
  "DataPrepperClass_DeepCopyObject L in' = do {
     c \<leftarrow> DataPrepperClass_DeepCopy L in';
     State_Monad.return (if c \<noteq> None then Some (ClassType, c) else None) }"

definition DataPrepperClassList_DeepCopyObject :: "deep_lib \<Rightarrow> addr option \<Rightarrow> (gomem, runtime_object) state" where
  "DataPrepperClassList_DeepCopyObject L in' = do {
     c \<leftarrow> DataPrepperClassList_DeepCopy L in';
     State_Monad.return (if c \<noteq> None then Some (ClassListType, c) else None) }"

definition DataPrepperCluster_DeepCopyObject :: "deep_lib \<Rightarrow> addr option \<Rightarrow> (gomem, runtime_object) state" where
  "DataPrepperCluster_DeepCopyObject L in' = do {
     c \<leftarrow> DataPrepperCluster_DeepCopy L in';
     State_Monad.return (if c \<noteq> None then Some (ClusterType, c) else None) }"

definition DataPrepperClusterList_DeepCopyObject :: "deep_lib \<Rightarrow> addr option \<Rightarrow> (gomem, runtime_object) state" where
  "DataPrepperClusterList_DeepCopyObject L in' = do {
     c \<leftarrow> DataPrepperClusterList_DeepCopy L in';
     State_Monad.return (if c \<noteq> None then Some (ClusterListType, c) else None) }"

definition DataPrepperPipeline_DeepCopyObject :: "deep_lib \<Rightarrow> addr option \<Rightarrow> (gomem, runtime_object) state" where
  "DataPrepperPipeline_DeepCopyObject L in' = do {
     c \<leftarrow> DataPrepperPipeline_DeepCopy L in';
     State_Monad.return (if c \<noteq> None then Some (PipelineType, c) else None) }"

definition DataPrepperPipelineList_DeepCopyObject :: "deep_lib \<Rightarrow> addr option \<Rightarrow> (gomem, runtime_object) state" where
  "DataPrepperPipelineList_DeepCopyObject L in' = do {
     c \<leftarrow> DataPrepperPipelineList_DeepCopy L in';
     State_Monad.return (if c \<noteq> None then Some (PipelineListType, c) else None) }"

end
