(* ===== verification/Deep_Copy_Spec.thy ===== *)
theory Deep_Copy_Spec
  imports Deep_Copy
begin

text \<open>
  What the structs in memory read as, in the types of \<open>Api_Types\<close>, and that the generated functions copy
  them: the copy reads the same and shares nothing with the original.
\<close>

section \<open>Reading structs\<close>

definition slice_list :: "'a list option \<Rightarrow> 'a list" where
  "slice_list s = (case s of None \<Rightarrow> [] | Some xs \<Rightarrow> xs)"

definition int32At :: "gomem \<Rightarrow> addr option \<Rightarrow> int option" where
  "int32At = pointed theInt32 (\<lambda>_ x. x)"

definition mapAt :: "gomem \<Rightarrow> addr option \<Rightarrow> gomap" where
  "mapAt = pointed theStringMap (\<lambda>_ x. x)"

definition own_refs :: "gomem \<Rightarrow> addr option \<Rightarrow> addr set" where
  "own_refs m p = (case p of None \<Rightarrow> {} | Some a \<Rightarrow> {a})"

definition extsAt :: "(gomem \<Rightarrow> ext \<Rightarrow> 'v) \<Rightarrow> gomem \<Rightarrow> addr option \<Rightarrow> 'v list" where
  "extsAt read m p = slice_list (elements theExts read m p)"

definition exts_refs :: "deep_lib \<Rightarrow> ext_type \<Rightarrow> gomem \<Rightarrow> addr option \<Rightarrow> addr set" where
  "exts_refs L ty = element_refs theExts (extRefs L ty)"

definition autoscalingOf :: "gomem \<Rightarrow> AutoscalingSpec_m \<Rightarrow> AutoscalingSpec" where
  "autoscalingOf m x =
     \<lparr>as_MinReplicas = int32At m (mas_MinReplicas x), as_MaxReplicas = mas_MaxReplicas x,
      as_TargetCPUUtilizationPercentage = int32At m (mas_TargetCPUUtilizationPercentage x)\<rparr>"

definition autoscaling_refs :: "gomem \<Rightarrow> AutoscalingSpec_m \<Rightarrow> addr set" where
  "autoscaling_refs m x = own_refs m (mas_MinReplicas x) \<union> own_refs m (mas_TargetCPUUtilizationPercentage x)"

definition classSpecOf :: "deep_lib \<Rightarrow> gomem \<Rightarrow> DataPrepperClassSpec_m \<Rightarrow> DataPrepperClassSpec" where
  "classSpecOf L m x =
     \<lparr>ks_Image = mks_Image x, ks_Resources = readResources L m (mks_Resources x),
      ks_EnvFrom = extsAt (readEnvFrom L) m (mks_EnvFrom x), ks_NodeSelector = mapAt m (mks_NodeSelector x),
      ks_Tolerations = extsAt (readToleration L) m (mks_Tolerations x), ks_PodLabels = mapAt m (mks_PodLabels x),
      ks_PodAnnotations = mapAt m (mks_PodAnnotations x)\<rparr>"

definition classSpec_refs :: "deep_lib \<Rightarrow> gomem \<Rightarrow> DataPrepperClassSpec_m \<Rightarrow> addr set" where
  "classSpec_refs L m x =
     extRefs L ResourceRequirements m (mks_Resources x) \<union> (exts_refs L EnvFromSource m (mks_EnvFrom x) \<union>
     (own_refs m (mks_NodeSelector x) \<union> (exts_refs L Toleration m (mks_Tolerations x) \<union>
     (own_refs m (mks_PodLabels x) \<union> own_refs m (mks_PodAnnotations x)))))"

definition classOf :: "deep_lib \<Rightarrow> gomem \<Rightarrow> DataPrepperClass_m \<Rightarrow> type_meta \<times> DataPrepperClass" where
  "classOf L m x =
     (mk_TypeMeta x, \<lparr>k_Meta = readObjectMeta L m (mk_ObjectMeta x), k_Spec = classSpecOf L m (mk_Spec x)\<rparr>)"

definition class_refs :: "deep_lib \<Rightarrow> gomem \<Rightarrow> DataPrepperClass_m \<Rightarrow> addr set" where
  "class_refs L m x = extRefs L ObjectMeta m (mk_ObjectMeta x) \<union> classSpec_refs L m (mk_Spec x)"

definition classListOf :: "deep_lib \<Rightarrow> gomem \<Rightarrow> DataPrepperClassList_m \<Rightarrow> type_meta \<times> string \<times> (type_meta \<times> DataPrepperClass) list" where
  "classListOf L m x =
     (mkl_TypeMeta x, readListMeta L m (mkl_ListMeta x), slice_list (elements theClasses (classOf L) m (mkl_Items x)))"

definition classList_refs :: "deep_lib \<Rightarrow> gomem \<Rightarrow> DataPrepperClassList_m \<Rightarrow> addr set" where
  "classList_refs L m x = extRefs L ListMeta m (mkl_ListMeta x) \<union> element_refs theClasses (class_refs L) m (mkl_Items x)"

definition clusterSpecOf :: "deep_lib \<Rightarrow> gomem \<Rightarrow> DataPrepperClusterSpec_m \<Rightarrow> DataPrepperClusterSpec" where
  "clusterSpecOf L m x =
     \<lparr>cs_ClassRef = mcs_ClassRef x, cs_Image = mcs_Image x, cs_Replicas = mcs_Replicas x,
      cs_Resources = readResources L m (mcs_Resources x), cs_ServerConfigMap = mcs_ServerConfigMap x,
      cs_AssetsConfigMap = mcs_AssetsConfigMap x, cs_ExtraVolumes = extsAt (readVolume L) m (mcs_ExtraVolumes x),
      cs_ExtraVolumeMounts = extsAt (readVolumeMount L) m (mcs_ExtraVolumeMounts x),
      cs_ExtraPorts = slice_list (elements thePorts (\<lambda>_ x. x) m (mcs_ExtraPorts x)),
      cs_EnvFrom = extsAt (readEnvFrom L) m (mcs_EnvFrom x),
      cs_Metrics = pointed theMetricsSpec (\<lambda>_ x. x) m (mcs_Metrics x),
      cs_Autoscaling = pointed theAutoscalingSpec autoscalingOf m (mcs_Autoscaling x)\<rparr>"

definition clusterSpec_refs :: "deep_lib \<Rightarrow> gomem \<Rightarrow> DataPrepperClusterSpec_m \<Rightarrow> addr set" where
  "clusterSpec_refs L m x =
     extRefs L ResourceRequirements m (mcs_Resources x) \<union> (exts_refs L Volume m (mcs_ExtraVolumes x) \<union>
     (exts_refs L VolumeMount m (mcs_ExtraVolumeMounts x) \<union> (own_refs m (mcs_ExtraPorts x) \<union>
     (exts_refs L EnvFromSource m (mcs_EnvFrom x) \<union> (own_refs m (mcs_Metrics x) \<union>
     pointer_refs theAutoscalingSpec autoscaling_refs m (mcs_Autoscaling x))))))"

definition clusterStatusOf :: "deep_lib \<Rightarrow> gomem \<Rightarrow> DataPrepperClusterStatus_m \<Rightarrow> DataPrepperClusterStatus" where
  "clusterStatusOf L m x =
     \<lparr>ct_Phase = mct_Phase x, ct_ReadyReplicas = mct_ReadyReplicas x, ct_Pipelines = mct_Pipelines x,
      ct_ObservedGeneration = mct_ObservedGeneration x, ct_Conditions = extsAt (readCondition L) m (mct_Conditions x)\<rparr>"

definition clusterStatus_refs :: "deep_lib \<Rightarrow> gomem \<Rightarrow> DataPrepperClusterStatus_m \<Rightarrow> addr set" where
  "clusterStatus_refs L m x = exts_refs L Condition m (mct_Conditions x)"

definition clusterOf :: "deep_lib \<Rightarrow> gomem \<Rightarrow> DataPrepperCluster_m \<Rightarrow> type_meta \<times> DataPrepperCluster" where
  "clusterOf L m x =
     (mc_TypeMeta x, \<lparr>c_Meta = readObjectMeta L m (mc_ObjectMeta x), c_Spec = clusterSpecOf L m (mc_Spec x),
                       c_Stat = clusterStatusOf L m (mc_Status x)\<rparr>)"

definition cluster_refs :: "deep_lib \<Rightarrow> gomem \<Rightarrow> DataPrepperCluster_m \<Rightarrow> addr set" where
  "cluster_refs L m x =
     extRefs L ObjectMeta m (mc_ObjectMeta x) \<union> (clusterSpec_refs L m (mc_Spec x) \<union> clusterStatus_refs L m (mc_Status x))"

definition clusterListOf :: "deep_lib \<Rightarrow> gomem \<Rightarrow> DataPrepperClusterList_m \<Rightarrow> type_meta \<times> string \<times> (type_meta \<times> DataPrepperCluster) list" where
  "clusterListOf L m x =
     (mcl_TypeMeta x, readListMeta L m (mcl_ListMeta x), slice_list (elements theClusters (clusterOf L) m (mcl_Items x)))"

definition clusterList_refs :: "deep_lib \<Rightarrow> gomem \<Rightarrow> DataPrepperClusterList_m \<Rightarrow> addr set" where
  "clusterList_refs L m x = extRefs L ListMeta m (mcl_ListMeta x) \<union> element_refs theClusters (cluster_refs L) m (mcl_Items x)"

definition pipelineSpecOf :: "deep_lib \<Rightarrow> gomem \<Rightarrow> DataPrepperPipelineSpec_m \<Rightarrow> DataPrepperPipelineSpec" where
  "pipelineSpecOf L m x =
     \<lparr>ps_ClusterRef = mps_ClusterRef x, ps_YAMLKey = mps_YAMLKey x, ps_Pipeline = readRawExtension L m (mps_Pipeline x)\<rparr>"

definition pipelineSpec_refs :: "deep_lib \<Rightarrow> gomem \<Rightarrow> DataPrepperPipelineSpec_m \<Rightarrow> addr set" where
  "pipelineSpec_refs L m x = extRefs L RawExtension m (mps_Pipeline x)"

definition pipelineStatusOf :: "deep_lib \<Rightarrow> gomem \<Rightarrow> DataPrepperPipelineStatus_m \<Rightarrow> DataPrepperPipelineStatus" where
  "pipelineStatusOf L m x =
     \<lparr>pt_Phase = mpt_Phase x, pt_ObservedGeneration = mpt_ObservedGeneration x,
      pt_Conditions = extsAt (readCondition L) m (mpt_Conditions x)\<rparr>"

definition pipelineStatus_refs :: "deep_lib \<Rightarrow> gomem \<Rightarrow> DataPrepperPipelineStatus_m \<Rightarrow> addr set" where
  "pipelineStatus_refs L m x = exts_refs L Condition m (mpt_Conditions x)"

definition pipelineOf :: "deep_lib \<Rightarrow> gomem \<Rightarrow> DataPrepperPipeline_m \<Rightarrow> type_meta \<times> DataPrepperPipeline" where
  "pipelineOf L m x =
     (mp_TypeMeta x, \<lparr>p_Meta = readObjectMeta L m (mp_ObjectMeta x), p_Spec = pipelineSpecOf L m (mp_Spec x),
                       p_Stat = pipelineStatusOf L m (mp_Status x)\<rparr>)"

definition pipeline_refs :: "deep_lib \<Rightarrow> gomem \<Rightarrow> DataPrepperPipeline_m \<Rightarrow> addr set" where
  "pipeline_refs L m x =
     extRefs L ObjectMeta m (mp_ObjectMeta x) \<union> (pipelineSpec_refs L m (mp_Spec x) \<union> pipelineStatus_refs L m (mp_Status x))"

definition pipelineListOf :: "deep_lib \<Rightarrow> gomem \<Rightarrow> DataPrepperPipelineList_m \<Rightarrow> type_meta \<times> string \<times> (type_meta \<times> DataPrepperPipeline) list" where
  "pipelineListOf L m x =
     (mpl_TypeMeta x, readListMeta L m (mpl_ListMeta x), slice_list (elements thePipelines (pipelineOf L) m (mpl_Items x)))"

definition pipelineList_refs :: "deep_lib \<Rightarrow> gomem \<Rightarrow> DataPrepperPipelineList_m \<Rightarrow> addr set" where
  "pipelineList_refs L m x = extRefs L ListMeta m (mpl_ListMeta x) \<union> element_refs thePipelines (pipeline_refs L) m (mpl_Items x)"

section \<open>The generated functions copy\<close>

lemma copies_int32: "copies copyInt32 int32At own_refs"
  by (rule copies_cong [OF copies_new [OF copies_return [where f = "\<lambda>x. x"], of theInt32 CInt32]])
    (auto simp: copyInt32_def int32At_def own_refs_def fun_eq_iff split: option.splits)

lemma copies_stringMap: "copies copyStringMap mapAt own_refs"
  by (rule copies_cong [OF copies_new [OF copies_return [where f = "\<lambda>x. x"], of theStringMap CStringMap]])
    (auto simp: copyStringMap_def mapAt_def own_refs_def fun_eq_iff cong: option.case_cong split: option.splits)

lemma copies_exts:
  "copies (extDeepCopyInto L ty) read (extRefs L ty) \<Longrightarrow> copies (copyExts L ty) (extsAt read) (exts_refs L ty)"
  unfolding copyExts_def exts_refs_def extsAt_def [abs_def]
  by (rule copies_via [OF copies_slice]) simp_all

lemma copies_ports:
  "copies (copySlice CPorts thePorts zeroPort State_Monad.return) (elements thePorts (\<lambda>_ x. x)) own_refs"
  by (rule copies_cong [OF copies_slice [OF copies_return [where f = "\<lambda>x. x"], of thePorts CPorts zeroPort]])
    (auto simp: own_refs_def fun_eq_iff split: option.splits)

lemma copies_metrics:
  "copies (newCopy CMetricsSpec theMetricsSpec zeroMetricsSpec State_Monad.return) (pointed theMetricsSpec (\<lambda>_ x. x)) own_refs"
  by (rule copies_cong [OF copies_new [OF copies_return [where f = "\<lambda>x. x"], of theMetricsSpec CMetricsSpec zeroMetricsSpec]])
    (auto simp: own_refs_def fun_eq_iff split: option.splits)

lemma copies_autoscaling: "copies AutoscalingSpec_DeepCopyInto autoscalingOf autoscaling_refs"
  by (rule copies_cong [OF copies_struct [OF copies_pair [OF copies_int32 copies_int32],
      where part = "\<lambda>x. (mas_MinReplicas x, mas_TargetCPUUtilizationPercentage x)"
        and update = "\<lambda>x (p, q). x\<lparr>mas_MinReplicas := p, mas_TargetCPUUtilizationPercentage := q\<rparr>"
        and V = "\<lambda>x (p, q). \<lparr>as_MinReplicas = p, as_MaxReplicas = mas_MaxReplicas x, as_TargetCPUUtilizationPercentage = q\<rparr>"]])
    (auto simp: AutoscalingSpec_DeepCopyInto_def autoscalingOf_def autoscaling_refs_def fun_eq_iff split: prod.splits)


text \<open>
  The contract of a generated function, for its callers: a copy shares nothing with the original, so
  writing through one leaves what the other reads as.
\<close>

locale deep_copier =
  fixes into :: "'h \<Rightarrow> (gomem, 'h) state"
    and val :: "gomem \<Rightarrow> 'h \<Rightarrow> 'v"
    and refs :: "gomem \<Rightarrow> 'h \<Rightarrow> addr set"
  assumes copies: "copies into val refs"
begin

lemma reads_frame:
  assumes "\<And>a. a \<in> refs m x \<Longrightarrow> cells m' a = cells m a"
  shows "val m' x = val m x" "refs m' x = refs m x"
  using reads_onlyD [OF copies_reads_only [OF copies] assms] by auto

lemma reads_same:
  assumes "run_state (into x) m = (y, m')" "allocated m (refs m x)"
  shows "val m' y = val m x" "val m' x = val m x" "refs m' y \<inter> refs m' x = {}"
proof -
  from copies_step [OF copies extends_refl assms(2,1)]
  have y: "extends m m'" "val m' y = val m x" "refs m' y \<subseteq> {lim m..<lim m'}" by auto
  from reads_only_extends [OF copies_reads_only [OF copies] y(1) assms(2)] y assms(2)
  show "val m' y = val m x" "val m' x = val m x" "refs m' y \<inter> refs m' x = {}"
    unfolding allocated_def by (auto simp: subset_iff) (metis leD)
qed

lemma isolated:
  assumes "run_state (into x) m = (y, m')" "allocated m (refs m x)"
  shows "(\<And>a. a \<in> refs m' y \<Longrightarrow> cells m'' a = cells m' a) \<Longrightarrow> val m'' y = val m x"
    "(\<And>a. a \<in> refs m' x \<Longrightarrow> cells m'' a = cells m' a) \<Longrightarrow> val m'' x = val m x"
  using reads_same [OF assms] reads_onlyD(1) [OF copies_reads_only [OF copies], of m' _ m''] by auto

end

interpretation autoscaling: deep_copier AutoscalingSpec_DeepCopyInto autoscalingOf autoscaling_refs
  by unfold_locales (rule copies_autoscaling)

interpretation metrics: deep_copier MetricsSpec_DeepCopyInto "\<lambda>_ x. x" "\<lambda>_ _. {}"
  by unfold_locales (use copies_return [where f = "\<lambda>x. x"] in \<open>simp add: MetricsSpec_DeepCopyInto_def [abs_def]\<close>)

text \<open>
  What the library's own \<^verbatim>\<open>DeepCopyInto\<close> methods promise: the same, for their types.
\<close>

locale deep_library =
  fixes L :: deep_lib
  assumes objectMeta: "copies (extDeepCopyInto L ObjectMeta) (readObjectMeta L) (extRefs L ObjectMeta)"
    and listMeta: "copies (extDeepCopyInto L ListMeta) (readListMeta L) (extRefs L ListMeta)"
    and resources: "copies (extDeepCopyInto L ResourceRequirements) (readResources L) (extRefs L ResourceRequirements)"
    and envFrom: "copies (extDeepCopyInto L EnvFromSource) (readEnvFrom L) (extRefs L EnvFromSource)"
    and toleration: "copies (extDeepCopyInto L Toleration) (readToleration L) (extRefs L Toleration)"
    and volume: "copies (extDeepCopyInto L Volume) (readVolume L) (extRefs L Volume)"
    and volumeMount: "copies (extDeepCopyInto L VolumeMount) (readVolumeMount L) (extRefs L VolumeMount)"
    and condition: "copies (extDeepCopyInto L Condition) (readCondition L) (extRefs L Condition)"
    and rawExtension: "copies (extDeepCopyInto L RawExtension) (readRawExtension L) (extRefs L RawExtension)"

sublocale deep_library < classSpec: deep_copier "DataPrepperClassSpec_DeepCopyInto L" "classSpecOf L" "classSpec_refs L"
  by (unfold_locales, rule copies_cong [OF copies_struct [OF copies_pair [OF resources copies_pair [OF copies_exts [OF envFrom] copies_pair [OF copies_stringMap copies_pair [OF copies_exts [OF toleration] copies_pair [OF copies_stringMap copies_stringMap]]]]],
      where part = "\<lambda>x. (mks_Resources x, mks_EnvFrom x, mks_NodeSelector x, mks_Tolerations x, mks_PodLabels x, mks_PodAnnotations x)"
        and update = "\<lambda>x (p0, p1, p2, p3, p4, p5). x\<lparr>mks_Resources := p0, mks_EnvFrom := p1, mks_NodeSelector := p2, mks_Tolerations := p3, mks_PodLabels := p4, mks_PodAnnotations := p5\<rparr>"
        and V = "\<lambda>x (p0, p1, p2, p3, p4, p5). \<lparr>ks_Image = mks_Image x, ks_Resources = p0, ks_EnvFrom = p1, ks_NodeSelector = p2,
            ks_Tolerations = p3, ks_PodLabels = p4, ks_PodAnnotations = p5\<rparr>"]])
    (auto simp: DataPrepperClassSpec_DeepCopyInto_def classSpecOf_def classSpec_refs_def fun_eq_iff split: prod.splits)

sublocale deep_library < classObj: deep_copier "DataPrepperClass_DeepCopyInto L" "classOf L" "class_refs L"
  by (unfold_locales, rule copies_cong [OF copies_struct [OF copies_pair [OF objectMeta classSpec.copies],
      where part = "\<lambda>x. (mk_ObjectMeta x, mk_Spec x)"
        and update = "\<lambda>x (p0, p1). x\<lparr>mk_ObjectMeta := p0, mk_Spec := p1\<rparr>"
        and V = "\<lambda>x (p0, p1). (mk_TypeMeta x, \<lparr>k_Meta = p0, k_Spec = p1\<rparr>)"]])
    (auto simp: DataPrepperClass_DeepCopyInto_def classOf_def class_refs_def fun_eq_iff split: prod.splits)

sublocale deep_library < classList: deep_copier "DataPrepperClassList_DeepCopyInto L" "classListOf L" "classList_refs L"
  by (unfold_locales, rule copies_cong [OF copies_struct [OF copies_pair [OF listMeta copies_slice [OF classObj.copies, of theClasses CClasses]],
      where part = "\<lambda>x. (mkl_ListMeta x, mkl_Items x)"
        and update = "\<lambda>x (p0, p1). x\<lparr>mkl_ListMeta := p0, mkl_Items := p1\<rparr>"
        and V = "\<lambda>x (p0, p1). (mkl_TypeMeta x, p0, slice_list p1)"]])
    (auto simp: DataPrepperClassList_DeepCopyInto_def classListOf_def classList_refs_def fun_eq_iff split: prod.splits)

sublocale deep_library < clusterSpec: deep_copier "DataPrepperClusterSpec_DeepCopyInto L" "clusterSpecOf L" "clusterSpec_refs L"
  by (unfold_locales, rule copies_cong [OF copies_struct [OF copies_pair [OF resources copies_pair [OF copies_exts [OF volume] copies_pair [OF copies_exts [OF volumeMount] copies_pair [OF copies_ports copies_pair [OF copies_exts [OF envFrom] copies_pair [OF copies_metrics copies_new [OF copies_autoscaling, of theAutoscalingSpec CAutoscalingSpec zeroAutoscalingSpec]]]]]]],
      where part = "\<lambda>x. (mcs_Resources x, mcs_ExtraVolumes x, mcs_ExtraVolumeMounts x, mcs_ExtraPorts x, mcs_EnvFrom x, mcs_Metrics x, mcs_Autoscaling x)"
        and update = "\<lambda>x (p0, p1, p2, p3, p4, p5, p6). x\<lparr>mcs_Resources := p0, mcs_ExtraVolumes := p1, mcs_ExtraVolumeMounts := p2, mcs_ExtraPorts := p3, mcs_EnvFrom := p4, mcs_Metrics := p5, mcs_Autoscaling := p6\<rparr>"
        and V = "\<lambda>x (p0, p1, p2, p3, p4, p5, p6). \<lparr>cs_ClassRef = mcs_ClassRef x, cs_Image = mcs_Image x, cs_Replicas = mcs_Replicas x,
            cs_Resources = p0, cs_ServerConfigMap = mcs_ServerConfigMap x, cs_AssetsConfigMap = mcs_AssetsConfigMap x,
            cs_ExtraVolumes = p1, cs_ExtraVolumeMounts = p2, cs_ExtraPorts = slice_list p3, cs_EnvFrom = p4,
            cs_Metrics = p5, cs_Autoscaling = p6\<rparr>"]])
    (auto simp: DataPrepperClusterSpec_DeepCopyInto_def clusterSpecOf_def clusterSpec_refs_def fun_eq_iff split: prod.splits)

sublocale deep_library < clusterStatus: deep_copier "DataPrepperClusterStatus_DeepCopyInto L" "clusterStatusOf L" "clusterStatus_refs L"
  by (unfold_locales, rule copies_cong [OF copies_struct [OF copies_exts [OF condition],
      where part = "\<lambda>x. mct_Conditions x"
        and update = "\<lambda>x p0. x\<lparr>mct_Conditions := p0\<rparr>"
        and V = "\<lambda>x p0. \<lparr>ct_Phase = mct_Phase x, ct_ReadyReplicas = mct_ReadyReplicas x, ct_Pipelines = mct_Pipelines x,
            ct_ObservedGeneration = mct_ObservedGeneration x, ct_Conditions = p0\<rparr>"]])
    (auto simp: DataPrepperClusterStatus_DeepCopyInto_def clusterStatusOf_def clusterStatus_refs_def fun_eq_iff split: prod.splits)

sublocale deep_library < clusterObj: deep_copier "DataPrepperCluster_DeepCopyInto L" "clusterOf L" "cluster_refs L"
  by (unfold_locales, rule copies_cong [OF copies_struct [OF copies_pair [OF objectMeta copies_pair [OF clusterSpec.copies clusterStatus.copies]],
      where part = "\<lambda>x. (mc_ObjectMeta x, mc_Spec x, mc_Status x)"
        and update = "\<lambda>x (p0, p1, p2). x\<lparr>mc_ObjectMeta := p0, mc_Spec := p1, mc_Status := p2\<rparr>"
        and V = "\<lambda>x (p0, p1, p2). (mc_TypeMeta x, \<lparr>c_Meta = p0, c_Spec = p1, c_Stat = p2\<rparr>)"]])
    (auto simp: DataPrepperCluster_DeepCopyInto_def clusterOf_def cluster_refs_def fun_eq_iff split: prod.splits)

sublocale deep_library < clusterList: deep_copier "DataPrepperClusterList_DeepCopyInto L" "clusterListOf L" "clusterList_refs L"
  by (unfold_locales, rule copies_cong [OF copies_struct [OF copies_pair [OF listMeta copies_slice [OF clusterObj.copies, of theClusters CClusters]],
      where part = "\<lambda>x. (mcl_ListMeta x, mcl_Items x)"
        and update = "\<lambda>x (p0, p1). x\<lparr>mcl_ListMeta := p0, mcl_Items := p1\<rparr>"
        and V = "\<lambda>x (p0, p1). (mcl_TypeMeta x, p0, slice_list p1)"]])
    (auto simp: DataPrepperClusterList_DeepCopyInto_def clusterListOf_def clusterList_refs_def fun_eq_iff split: prod.splits)

sublocale deep_library < pipelineSpec: deep_copier "DataPrepperPipelineSpec_DeepCopyInto L" "pipelineSpecOf L" "pipelineSpec_refs L"
  by (unfold_locales, rule copies_cong [OF copies_struct [OF rawExtension,
      where part = "\<lambda>x. mps_Pipeline x"
        and update = "\<lambda>x p0. x\<lparr>mps_Pipeline := p0\<rparr>"
        and V = "\<lambda>x p0. \<lparr>ps_ClusterRef = mps_ClusterRef x, ps_YAMLKey = mps_YAMLKey x, ps_Pipeline = p0\<rparr>"]])
    (auto simp: DataPrepperPipelineSpec_DeepCopyInto_def pipelineSpecOf_def pipelineSpec_refs_def fun_eq_iff split: prod.splits)

sublocale deep_library < pipelineStatus: deep_copier "DataPrepperPipelineStatus_DeepCopyInto L" "pipelineStatusOf L" "pipelineStatus_refs L"
  by (unfold_locales, rule copies_cong [OF copies_struct [OF copies_exts [OF condition],
      where part = "\<lambda>x. mpt_Conditions x"
        and update = "\<lambda>x p0. x\<lparr>mpt_Conditions := p0\<rparr>"
        and V = "\<lambda>x p0. \<lparr>pt_Phase = mpt_Phase x, pt_ObservedGeneration = mpt_ObservedGeneration x, pt_Conditions = p0\<rparr>"]])
    (auto simp: DataPrepperPipelineStatus_DeepCopyInto_def pipelineStatusOf_def pipelineStatus_refs_def fun_eq_iff split: prod.splits)

sublocale deep_library < pipelineObj: deep_copier "DataPrepperPipeline_DeepCopyInto L" "pipelineOf L" "pipeline_refs L"
  by (unfold_locales, rule copies_cong [OF copies_struct [OF copies_pair [OF objectMeta copies_pair [OF pipelineSpec.copies pipelineStatus.copies]],
      where part = "\<lambda>x. (mp_ObjectMeta x, mp_Spec x, mp_Status x)"
        and update = "\<lambda>x (p0, p1, p2). x\<lparr>mp_ObjectMeta := p0, mp_Spec := p1, mp_Status := p2\<rparr>"
        and V = "\<lambda>x (p0, p1, p2). (mp_TypeMeta x, \<lparr>p_Meta = p0, p_Spec = p1, p_Stat = p2\<rparr>)"]])
    (auto simp: DataPrepperPipeline_DeepCopyInto_def pipelineOf_def pipeline_refs_def fun_eq_iff split: prod.splits)

sublocale deep_library < pipelineList: deep_copier "DataPrepperPipelineList_DeepCopyInto L" "pipelineListOf L" "pipelineList_refs L"
  by (unfold_locales, rule copies_cong [OF copies_struct [OF copies_pair [OF listMeta copies_slice [OF pipelineObj.copies, of thePipelines CPipelines]],
      where part = "\<lambda>x. (mpl_ListMeta x, mpl_Items x)"
        and update = "\<lambda>x (p0, p1). x\<lparr>mpl_ListMeta := p0, mpl_Items := p1\<rparr>"
        and V = "\<lambda>x (p0, p1). (mpl_TypeMeta x, p0, slice_list p1)"]])
    (auto simp: DataPrepperPipelineList_DeepCopyInto_def pipelineListOf_def pipelineList_refs_def fun_eq_iff split: prod.splits)

end
