(* ===== verification/Deep_Copy_Objects.thy ===== *)
theory Deep_Copy_Objects
  imports Deep_Copy_Spec
begin

text \<open>
  Deep copies of API objects behind the interface \<^verbatim>\<open>runtime.Object\<close>, as caches and clients make them, a
  concrete library for which the contract of \<open>deep_library\<close> holds, and the properties of the generated
  functions.
\<close>

section \<open>Runtime objects\<close>

datatype object_value =
    ClassValue "type_meta \<times> DataPrepperClass"
  | ClassListValue "type_meta \<times> string \<times> (type_meta \<times> DataPrepperClass) list"
  | ClusterValue "type_meta \<times> DataPrepperCluster"
  | ClusterListValue "type_meta \<times> string \<times> (type_meta \<times> DataPrepperCluster) list"
  | PipelineValue "type_meta \<times> DataPrepperPipeline"
  | PipelineListValue "type_meta \<times> string \<times> (type_meta \<times> DataPrepperPipeline) list"

fun objectAt :: "deep_lib \<Rightarrow> gomem \<Rightarrow> dynamic_type \<Rightarrow> addr \<Rightarrow> object_value" where
  "objectAt L m ClassType a = ClassValue (classOf L m (theClass (cells m a)))"
| "objectAt L m ClassListType a = ClassListValue (classListOf L m (theClassList (cells m a)))"
| "objectAt L m ClusterType a = ClusterValue (clusterOf L m (theCluster (cells m a)))"
| "objectAt L m ClusterListType a = ClusterListValue (clusterListOf L m (theClusterList (cells m a)))"
| "objectAt L m PipelineType a = PipelineValue (pipelineOf L m (thePipeline (cells m a)))"
| "objectAt L m PipelineListType a = PipelineListValue (pipelineListOf L m (thePipelineList (cells m a)))"

text \<open>The addresses an object occupies and reaches.\<close>

fun object_refs :: "deep_lib \<Rightarrow> gomem \<Rightarrow> dynamic_type \<Rightarrow> addr \<Rightarrow> addr set" where
  "object_refs L m ClassType a = insert a (class_refs L m (theClass (cells m a)))"
| "object_refs L m ClassListType a = insert a (classList_refs L m (theClassList (cells m a)))"
| "object_refs L m ClusterType a = insert a (cluster_refs L m (theCluster (cells m a)))"
| "object_refs L m ClusterListType a = insert a (clusterList_refs L m (theClusterList (cells m a)))"
| "object_refs L m PipelineType a = insert a (pipeline_refs L m (thePipeline (cells m a)))"
| "object_refs L m PipelineListType a = insert a (pipelineList_refs L m (thePipelineList (cells m a)))"

text \<open>The method call \<^verbatim>\<open>obj.DeepCopyObject()\<close>, dispatched on the dynamic type.\<close>

fun deepCopyObject :: "deep_lib \<Rightarrow> dynamic_type \<Rightarrow> addr option \<Rightarrow> (gomem, runtime_object) state" where
  "deepCopyObject L ClassType p = DataPrepperClass_DeepCopyObject L p"
| "deepCopyObject L ClassListType p = DataPrepperClassList_DeepCopyObject L p"
| "deepCopyObject L ClusterType p = DataPrepperCluster_DeepCopyObject L p"
| "deepCopyObject L ClusterListType p = DataPrepperClusterList_DeepCopyObject L p"
| "deepCopyObject L PipelineType p = DataPrepperPipeline_DeepCopyObject L p"
| "deepCopyObject L PipelineListType p = DataPrepperPipelineList_DeepCopyObject L p"

text \<open>Stores through pointers, by whoever holds them.\<close>

fun stores :: "(addr \<times> cell) list \<Rightarrow> (gomem, unit) state" where
  "stores [] = State_Monad.return ()"
| "stores ((a, c) # ws) = do { store a c; stores ws }"

lemma stores_frame: "run_state (stores ws) m = (u, m') \<Longrightarrow> a \<notin> fst ` set ws \<Longrightarrow> cells m' a = cells m a"
  by (induction ws arbitrary: m rule: stores.induct) auto

section \<open>A concrete library\<close>

text \<open>
  A library whose structs hold a string and pointers to cells: copying one allocates a cell for each, and
  its fields are read off the string and the cells.
\<close>

fun copyCells :: "addr list \<Rightarrow> (gomem, addr list) state" where
  "copyCells [] = State_Monad.return []"
| "copyCells (a # as) = do { c \<leftarrow> deref a; b \<leftarrow> new c; bs \<leftarrow> copyCells as; State_Monad.return (b # bs) }"

fun cellsCopyInto :: "ext \<Rightarrow> (gomem, ext) state" where
  "cellsCopyInto (Ext s as) = do { bs \<leftarrow> copyCells as; State_Monad.return (Ext s bs) }"

fun ext_cells :: "gomem \<Rightarrow> ext \<Rightarrow> string \<times> cell list" where
  "ext_cells m (Ext s as) = (s, map (cells m) as)"

fun ext_addrs :: "gomem \<Rightarrow> ext \<Rightarrow> addr set" where
  "ext_addrs m (Ext s as) = set as"

definition first_map :: "cell list \<Rightarrow> gomap" where
  "first_map cs = (case cs of CStringMap f # _ \<Rightarrow> Some f | _ \<Rightarrow> None)"

definition cells_lib :: deep_lib where
  "cells_lib =
     \<lparr>extDeepCopyInto = (\<lambda>_. cellsCopyInto), extRefs = (\<lambda>_. ext_addrs),
      readObjectMeta = (\<lambda>m x. let (s, cs) = ext_cells m x in (object_meta s [])\<lparr>MetaLabels := first_map cs\<rparr>),
      readListMeta = (\<lambda>m x. fst (ext_cells m x)),
      readResources = (\<lambda>m x. let (s, cs) = ext_cells m x in
        \<lparr>Requests = entries (first_map cs), Limits = entries (first_map (drop 1 cs)), Claims = []\<rparr>),
      readEnvFrom = (\<lambda>m x. fst (ext_cells m x)), readToleration = (\<lambda>m x. fst (ext_cells m x)),
      readVolume = (\<lambda>m x. \<lparr>v_Name = fst (ext_cells m x), v_Source = OtherVolumeSource []\<rparr>),
      readVolumeMount = (\<lambda>m x. \<lparr>vm_Name = fst (ext_cells m x), vm_MountPath = [], vm_SubPath = [], vm_Other = []\<rparr>),
      readCondition = (\<lambda>m x. \<lparr>c_Type = fst (ext_cells m x), c_Status = [], c_Reason = [], c_Message = [],
        c_ObservedGeneration = 0, c_LastTransitionTime = 0\<rparr>),
      readRawExtension = (\<lambda>m x. fst (ext_cells m x))\<rparr>"

lemma copyCells_spec:
  "run_state (copyCells as) m = (bs, m') \<Longrightarrow> allocated m (set as) \<Longrightarrow>
     extends m m' \<and> map (cells m') bs = map (cells m) as \<and> set bs \<subseteq> {lim m..<lim m'}"
proof (induction as arbitrary: m bs m')
  case (Cons a as)
  let ?m1 = "m\<lparr>cells := (cells m)(lim m := cells m a), lim := Suc (lim m)\<rparr>"
  obtain bs1 m2 where one: "run_state (copyCells as) ?m1 = (bs1, m2)" by (metis surj_pair)
  with Cons.prems(1) have res: "bs = lim m # bs1" "m' = m2" by simp_all
  have "allocated ?m1 (set as)" using Cons.prems(2) by (auto simp: allocated_def)
  note step = Cons.IH [OF one this]
  have "map (cells ?m1) as = map (cells m) as" using Cons.prems(2) by (auto simp: allocated_def)
  with step have ext: "extends ?m1 m2" and vals: "map (cells m2) bs1 = map (cells m) as"
    and fresh: "set bs1 \<subseteq> {Suc (lim m)..<lim m2}" by simp_all
  from ext have "cells m2 (lim m) = cells m a" "lim m < lim m2" by (simp_all add: extends_def)
  with vals fresh extends_trans [OF extends_new ext] show ?case by (auto simp: res)
qed simp

lemma copies_cells: "copies cellsCopyInto ext_cells ext_addrs"
proof (rule copiesI)
  show "reads_only ext_cells ext_addrs"
  proof (rule reads_onlyI)
    fix m m' :: gomem and x
    assume "\<And>a. a \<in> ext_addrs m x \<Longrightarrow> cells m' a = cells m a"
    then show "ext_cells m' x = ext_cells m x \<and> ext_addrs m' x = ext_addrs m x" by (cases x) simp
  qed
next
  fix m x y m' assume alloc: "allocated m (ext_addrs m x)" and run: "run_state (cellsCopyInto x) m = (y, m')"
  obtain s as where x: "x = Ext s as" by (cases x)
  obtain bs m1 where one: "run_state (copyCells as) m = (bs, m1)" by (metis surj_pair)
  with run x have "y = Ext s bs" "m' = m1" by simp_all
  with copyCells_spec [OF one] alloc x show "extends m m' \<and> copied ext_cells ext_addrs m m' x y"
    by (simp add: copied_def)
qed

interpretation cells_library: deep_library cells_lib
  unfolding cells_lib_def by unfold_locales (auto simp: Let_def case_prod_unfold intro!: copies_via [OF copies_cells])


section \<open>Copies of objects\<close>

lemma interface_copied:
  assumes c: "copies into val refs" and un: "\<And>y. un (put y) = y"
    and run: "run_state (do { c \<leftarrow> newCopy put un zero into (Some a); State_Monad.return (if c \<noteq> None then Some (ty, c) else None) }) m = (r, m')"
    and alloc: "allocated m (insert a (refs m (un (cells m a))))"
  shows "\<exists>b. r = Some (ty, Some b) \<and> extends m m' \<and> val m' (un (cells m' b)) = val m (un (cells m a)) \<and>
    insert b (refs m' (un (cells m' b))) \<subseteq> {lim m..<lim m'}"
proof -
  obtain q m1 where one: "run_state (newCopy put un zero into (Some a)) m = (q, m1)" by (metis surj_pair)
  from copies_step(1-3) [OF copies_new [OF c un] extends_refl _ one] alloc
  have q: "extends m m1" "pointed un val m1 q = Some (val m (un (cells m a)))" "pointer_refs un refs m1 q \<subseteq> {lim m..<lim m1}"
    by auto
  moreover from q(2) obtain b where "q = Some b" by auto
  ultimately show ?thesis using run one by auto
qed

context deep_library
begin

lemma object_copied:
  assumes "run_state (deepCopyObject L ty (Some a)) m = (r, m')" "allocated m (object_refs L m ty a)"
  shows "\<exists>b. r = Some (ty, Some b) \<and> extends m m' \<and> objectAt L m' ty b = objectAt L m ty a \<and>
    object_refs L m' ty b \<subseteq> {lim m..<lim m'}"
proof (cases ty)
  case ClassType
  then show ?thesis using assms interface_copied [OF classObj.copies, of theClass CClass zeroClass a ClassType m r m']
    by (simp add: DataPrepperClass_DeepCopyObject_def DataPrepperClass_DeepCopy_def)
next
  case ClassListType
  then show ?thesis using assms interface_copied [OF classList.copies, of theClassList CClassList zeroClassList a ClassListType m r m']
    by (simp add: DataPrepperClassList_DeepCopyObject_def DataPrepperClassList_DeepCopy_def)
next
  case ClusterType
  then show ?thesis using assms interface_copied [OF clusterObj.copies, of theCluster CCluster zeroCluster a ClusterType m r m']
    by (simp add: DataPrepperCluster_DeepCopyObject_def DataPrepperCluster_DeepCopy_def)
next
  case ClusterListType
  then show ?thesis using assms interface_copied [OF clusterList.copies, of theClusterList CClusterList zeroClusterList a ClusterListType m r m']
    by (simp add: DataPrepperClusterList_DeepCopyObject_def DataPrepperClusterList_DeepCopy_def)
next
  case PipelineType
  then show ?thesis using assms interface_copied [OF pipelineObj.copies, of thePipeline CPipeline zeroPipeline a PipelineType m r m']
    by (simp add: DataPrepperPipeline_DeepCopyObject_def DataPrepperPipeline_DeepCopy_def)
next
  case PipelineListType
  then show ?thesis using assms interface_copied [OF pipelineList.copies, of thePipelineList CPipelineList zeroPipelineList a PipelineListType m r m']
    by (simp add: DataPrepperPipelineList_DeepCopyObject_def DataPrepperPipelineList_DeepCopy_def)
qed

lemma reads_only_object:
  assumes "\<And>x. x \<in> object_refs L m ty a \<Longrightarrow> cells m' x = cells m x"
  shows "objectAt L m' ty a = objectAt L m ty a \<and> object_refs L m' ty a = object_refs L m ty a"
proof -
  have a: "cells m' a = cells m a" using assms by (cases ty) auto
  show ?thesis
  proof (cases ty)
    case ClassType
    with a show ?thesis using classObj.reads_frame [of m "theClass (cells m a)" m'] assms by simp
  next
    case ClassListType
    with a show ?thesis using classList.reads_frame [of m "theClassList (cells m a)" m'] assms by simp
  next
    case ClusterType
    with a show ?thesis using clusterObj.reads_frame [of m "theCluster (cells m a)" m'] assms by simp
  next
    case ClusterListType
    with a show ?thesis using clusterList.reads_frame [of m "theClusterList (cells m a)" m'] assms by simp
  next
    case PipelineType
    with a show ?thesis using pipelineObj.reads_frame [of m "thePipeline (cells m a)" m'] assms by simp
  next
    case PipelineListType
    with a show ?thesis using pipelineList.reads_frame [of m "thePipelineList (cells m a)" m'] assms by simp
  qed
qed

lemmas copies_specs =
  classSpec.copies clusterSpec.copies clusterStatus.copies pipelineSpec.copies pipelineStatus.copies

end

text \<open>A nil pointer is copied to the nil interface, for every type.\<close>

lemma deepCopyObject_nil: "run_state (deepCopyObject L ty None) m = (None, m)"
  by (cases ty)
    (simp_all add: DataPrepperClass_DeepCopyObject_def DataPrepperClass_DeepCopy_def DataPrepperClassList_DeepCopyObject_def
      DataPrepperClassList_DeepCopy_def DataPrepperCluster_DeepCopyObject_def DataPrepperCluster_DeepCopy_def
      DataPrepperClusterList_DeepCopyObject_def DataPrepperClusterList_DeepCopy_def DataPrepperPipeline_DeepCopyObject_def
      DataPrepperPipeline_DeepCopy_def DataPrepperPipelineList_DeepCopyObject_def DataPrepperPipelineList_DeepCopy_def newCopy_def)


section \<open>Properties\<close>

text \<open>
  C18: DeepCopyObject on any of the six kinds of objects returns an object of the same kind that reads the
  same, lies with everything it reaches in memory allocated by the call, and leaves the memory that was
  there unchanged; on a nil pointer it returns the nil interface, never an interface holding a nil pointer.
\<close>

theorem runtime_objects_deep_copied:
  assumes "deep_library L" "\<forall>a. p = Some a \<longrightarrow> allocated m (object_refs L m ty a)"
    "run_state (deepCopyObject L ty p) m = (r, m')"
  shows "case p of None \<Rightarrow> r = None \<and> m' = m
    | Some a \<Rightarrow> \<exists>b. r = Some (ty, Some b) \<and> extends m m' \<and> objectAt L m' ty b = objectAt L m ty a \<and>
        object_refs L m' ty b \<subseteq> {lim m..<lim m'}"
  using assms deep_library.object_copied [OF assms(1)] by (cases p) (auto simp: deepCopyObject_nil)

text \<open>A class in memory, with its labels, node selector and pod annotations in cells of their own.\<close>

definition demo_class :: DataPrepperClass_m where
  "demo_class = zeroClass\<lparr>mk_ObjectMeta := Ext ''small'' [1],
     mk_Spec := zeroClassSpec\<lparr>mks_Image := ''img'', mks_EnvFrom := Some 2, mks_NodeSelector := Some 3, mks_PodAnnotations := Some 4\<rparr>\<rparr>"

definition demo_annotations :: strmap where
  "demo_annotations = fmupd ''k'' ''v'' fmempty"

definition demo_memory :: gomem where
  "demo_memory = \<lparr>cells = (\<lambda>_. CInt32 0)(0 := CClass demo_class, 1 := CStringMap fmempty, 2 := CExts [Ext ''env'' []],
     3 := CStringMap fmempty, 4 := CStringMap demo_annotations), lim = 5\<rparr>"

lemmas deep_demo_defs = demo_class_def demo_memory_def zeroClass_def zeroClassSpec_def zeroExt_def zeroTypeMeta_def cells_lib_def

lemma demo_allocated: "allocated demo_memory (object_refs cells_lib demo_memory ClassType 0)"
  by (simp add: deep_demo_defs allocated_def class_refs_def classSpec_refs_def exts_refs_def own_refs_def)

definition demo_copy :: "runtime_object \<times> gomem" where
  "demo_copy = run_state (deepCopyObject cells_lib ClassType (Some 0)) demo_memory"

theorem runtime_objects_deep_copied_witness:
  "\<exists>b. fst demo_copy = Some (ClassType, Some b) \<and> extends demo_memory (snd demo_copy) \<and>
     objectAt cells_lib (snd demo_copy) ClassType b = objectAt cells_lib demo_memory ClassType 0 \<and>
     object_refs cells_lib (snd demo_copy) ClassType b \<subseteq> {5..<lim (snd demo_copy)}"
  using runtime_objects_deep_copied [OF cells_library.deep_library_axioms, of "Some 0" demo_memory ClassType "fst demo_copy" "snd demo_copy"]
    demo_allocated by (simp add: demo_copy_def demo_memory_def)

text \<open>
  C19: After a deep copy, whatever is stored through the copy, or in memory allocated later, leaves what the
  original reads as; and whatever is stored in memory that was there before, the original included, leaves
  what the copy reads as.
\<close>

theorem deep_copies_isolated:
  assumes "deep_library L" "allocated m (object_refs L m ty a)"
    "run_state (deepCopyObject L ty (Some a)) m = (Some (ty, Some b), m')" "run_state (stores ws) m' = (u, m'')"
  shows "(fst ` set ws \<subseteq> object_refs L m' ty b \<union> {lim m'..} \<longrightarrow> objectAt L m'' ty a = objectAt L m ty a) \<and>
    (fst ` set ws \<subseteq> {..<lim m} \<union> {lim m'..} \<longrightarrow> objectAt L m'' ty b = objectAt L m ty a)"
proof -
  note frame = deep_library.reads_only_object [OF assms(1)] and stored = stores_frame [OF assms(4)]
  from deep_library.object_copied [OF assms(1,3,2)]
  have copy: "extends m m'" "objectAt L m' ty b = objectAt L m ty a" "object_refs L m' ty b \<subseteq> {lim m..<lim m'}" by auto
  from copy(1) assms(2) have "cells m' x = cells m x" if "x \<in> object_refs L m ty a" for x
    using that by (auto simp: extends_def allocated_def)
  note old = frame [OF this]
  have "objectAt L m'' ty a = objectAt L m' ty a" if "fst ` set ws \<subseteq> object_refs L m' ty b \<union> {lim m'..}"
  proof (rule frame [THEN conjunct1])
    fix x assume "x \<in> object_refs L m' ty a"
    with old assms(2) copy(1) have "x < lim m" "x < lim m'" by (auto simp: allocated_def extends_def)
    with that copy(3) show "cells m'' x = cells m' x" by (intro stored) fastforce
  qed
  moreover have "objectAt L m'' ty b = objectAt L m' ty b" if "fst ` set ws \<subseteq> {..<lim m} \<union> {lim m'..}"
  proof (rule frame [THEN conjunct1])
    fix x assume "x \<in> object_refs L m' ty b"
    with that copy(3) show "cells m'' x = cells m' x" by (intro stored) fastforce
  qed
  ultimately show ?thesis using old copy(2) by simp
qed

text \<open>Emptying the map of pod annotations of the copy, at address 9, leaves the original's annotations.\<close>

lemma demo_copied:
  "fst demo_copy = Some (ClassType, Some 5)" "9 \<in> object_refs cells_lib (snd demo_copy) ClassType 5"
  by (simp_all add: demo_copy_def deep_demo_defs DataPrepperClass_DeepCopyObject_def DataPrepperClass_DeepCopy_def newCopy_def
    DataPrepperClass_DeepCopyInto_def DataPrepperClassSpec_DeepCopyInto_def copyExts_def copySlice_def copyStringMap_def
    class_refs_def classSpec_refs_def exts_refs_def own_refs_def eval_nat_numeral)

definition demo_stores :: "(addr \<times> cell) list" where
  "demo_stores = [(9, CStringMap fmempty)]"

lemma demo_run:
  "run_state (deepCopyObject cells_lib ClassType (Some 0)) demo_memory = (Some (ClassType, Some 5), snd demo_copy)"
  "run_state (stores demo_stores) (snd demo_copy) = ((), snd (run_state (stores demo_stores) (snd demo_copy)))"
  using demo_copied(1) by (auto simp: demo_copy_def demo_stores_def simp del: deepCopyObject.simps intro!: prod_eqI)

theorem deep_copies_isolated_witness:
  "objectAt cells_lib (snd (run_state (stores demo_stores) (snd demo_copy))) ClassType 0 = objectAt cells_lib demo_memory ClassType 0"
  by (rule deep_copies_isolated [OF cells_library.deep_library_axioms demo_allocated demo_run, THEN conjunct1, THEN mp])
    (use demo_copied(2) in \<open>simp add: demo_stores_def\<close>)

text \<open>
  The seven nested types, specs and statuses, are deep-copied as well: each DeepCopy returns nil for nil
  and otherwise a pointer to fresh memory, at all depths, that reads the same.
\<close>

theorem nested_structs_deep_copied:
  assumes "deep_library L"
  shows "copies AutoscalingSpec_DeepCopy (pointed theAutoscalingSpec autoscalingOf) (pointer_refs theAutoscalingSpec autoscaling_refs) \<and>
    copies MetricsSpec_DeepCopy (pointed theMetricsSpec (\<lambda>_ x. x)) (pointer_refs theMetricsSpec (\<lambda>_ _. {})) \<and>
    copies (DataPrepperClassSpec_DeepCopy L) (pointed theClassSpec (classSpecOf L)) (pointer_refs theClassSpec (classSpec_refs L)) \<and>
    copies (DataPrepperClusterSpec_DeepCopy L) (pointed theClusterSpec (clusterSpecOf L)) (pointer_refs theClusterSpec (clusterSpec_refs L)) \<and>
    copies (DataPrepperClusterStatus_DeepCopy L) (pointed theClusterStatus (clusterStatusOf L))
      (pointer_refs theClusterStatus (clusterStatus_refs L)) \<and>
    copies (DataPrepperPipelineSpec_DeepCopy L) (pointed thePipelineSpec (pipelineSpecOf L)) (pointer_refs thePipelineSpec (pipelineSpec_refs L)) \<and>
    copies (DataPrepperPipelineStatus_DeepCopy L) (pointed thePipelineStatus (pipelineStatusOf L))
      (pointer_refs thePipelineStatus (pipelineStatus_refs L))"
proof -
  note copied = autoscaling.copies metrics.copies deep_library.copies_specs [OF assms]
  note made = AutoscalingSpec_DeepCopy_def MetricsSpec_DeepCopy_def DataPrepperClassSpec_DeepCopy_def DataPrepperClusterSpec_DeepCopy_def
    DataPrepperClusterStatus_DeepCopy_def DataPrepperPipelineSpec_DeepCopy_def DataPrepperPipelineStatus_DeepCopy_def
  show ?thesis unfolding made by (intro conjI; rule copies_new; (rule copied | simp))
qed

theorem nested_structs_deep_copied_witness:
  "copies (DataPrepperClassSpec_DeepCopy cells_lib) (pointed theClassSpec (classSpecOf cells_lib)) (pointer_refs theClassSpec (classSpec_refs cells_lib))"
  using nested_structs_deep_copied [OF cells_library.deep_library_axioms] by simp

end
