(* ===== verification/Spec2Isabelle.thy ===== *)
theory Spec2Isabelle
  imports Manager Operator Interference Deep_Copy_Objects
begin

text \<open>
  A verification development of the OpenSearch Data Prepper operator: a Kubernetes operator whose custom
  resources DataPrepperCluster, DataPrepperPipeline and DataPrepperClass describe Data Prepper
  deployments. Two controllers reconcile the cluster's objects with the resources, two webhooks
  validate the resources, and main puts them together.

  \<^bold>\<open>How the parts interact.\<close> The cluster controller makes, for every cluster, a pipelines ConfigMap, a peer
  ConfigMap, a Deployment, a Service, a headless Service and, when asked for, an autoscaler and a
  ServiceMonitor, and reports on them in the cluster's status. The pipeline controller merges the
  definitions of all pipelines of a cluster into the pipelines ConfigMap and stamps the hash of the
  content on the Deployment's pod template, which rolls the pods. Both write the Deployment; the cluster
  controller must keep the stamp and must leave the content of the ConfigMap alone. The webhooks keep
  pipelines out whose definitions could not be merged and clusters whose configuration could not be
  resolved.

  \<^bold>\<open>The model.\<close> The operator's functions are state transformers (HOL-Library.State\_Monad) over an
  arbitrary state, parameterised by an environment \<open>env\<close>: the calls of the Kubernetes client and of the
  library functions that are not part of the repository. A Go error is a value of \<open>goerror\<close>, a function that
  returns an error has results in \<open>goerror + 'a\<close>, and a run-time panic is the error \<open>Panic\<close>. An integer is an
  \<open>int\<close> with the wrap-around written out where the code counts (\<open>int32\<close>).

  \<^item> \<open>Prelude\<close>: the error monad, the program logics (\<open>wpv\<close>: weakest preconditions over a view of the
    state; \<open>emits\<close> and \<open>wpt\<close>: the calls a program makes), Go maps, decimal numbers.
  \<^item> \<open>Go_Std\<close>, \<open>Sha256\<close>: the parts of Go's standard library the code uses (strings, JSON scanning,
    SHA-256 and hexadecimal text).
  \<^item> \<open>Kube_Types\<close>, \<open>Api_Types\<close>: the Kubernetes objects; api/v1alpha1/*\_types.go.
  \<^item> \<open>Client\<close>, \<open>Api_Server\<close>, \<open>Mem_Server\<close>, \<open>Demo\<close>: the environment; its documented behaviour as the
    locales \<open>apimachinery\<close>, \<open>api_server\<close> and \<open>available_server\<close> with their proof rules; an in-memory
    server that satisfies them; concrete objects for witnesses.
  \<^item> \<open>Pipeline_Webhook\<close>, \<open>Cluster_Webhook\<close>: internal/webhook/v1alpha1. Both webhooks admit exactly the
    objects of a stated specification.
  \<^item> \<open>Pipeline_Controller\<close>, \<open>Pipeline_Merge\<close>, \<open>Pipeline_Lifecycle\<close>:
    internal/controller/dataprepperpipeline\_controller.go. The code; the abstract merge of pipelines,
    which the collecting loop computes and the rebuild of the ConfigMap refines; the reconcile loop on
    every path (finalizer, missing cluster, application, deletion), its footprint and its quiescence,
    pod health and watch mappings. \<open>Convergence\<close>: repeated reconciles of a pipeline come to rest, with at
    most four writes.
  \<^item> \<open>Sub_Reconciler\<close>: the contract all sub-reconcilers of the cluster controller share, as the locales
    \<open>sub_reconciler\<close> and \<open>answering_reconciler\<close>; every sub-reconciler is an instance.
  \<^item> \<open>Cluster_Config\<close>, \<open>Cluster_Workload\<close>, \<open>Cluster_Network\<close>, \<open>Cluster_Status\<close>, \<open>Cluster_Controller\<close>:
    internal/controller/datapreppercluster\_controller.go. Each sub-reconciler with its postcondition; the
    reconcile loop refines their conjunction, succeeds under a stated condition exactly, changes only the
    cluster's objects and leaves them referring to each other: selectors, ports, mounts and, as far as the
    spec and an older headless Service allow, peer discovery.
  \<^item> \<open>Controllers\<close>: both controllers in any order (an inductive relation): the content and the stamp
    stay in sync. \<open>Operator\<close>: both controllers serve any queue of requests; a pipeline moves through
    stages (\<open>stage_reached\<close>), no request takes it back, and the right three requests, with any others in
    between, bring it up. \<open>Admission\<close>: users, webhook and controllers interleaved: merging cannot fail.
  \<^item> \<open>Shared_Server\<close>, \<open>Shared_Mem\<close>, \<open>Interference\<close>: reconciles among other writers. The locale
    \<open>shared_server\<close> is the server with a history of writes by this and other clients, stale reads and
    optimistic locking, with a rely-guarantee logic (\<open>guar\<close>) for programs that run against it; an
    in-memory server with pending writes of other clients satisfies it. Each controller keeps to its own
    fields whatever others write in between, so that the stamp of a Deployment survives any interleaving.
  \<^item> \<open>Rbac\<close>: the permission markers against the calls the controllers can make.
  \<^item> \<open>Registration\<close>: SetupWithManager of both controllers and what an event asks for.
  \<^item> \<open>Flags\<close>, \<open>Manager\<close>: cmd/main.go, groupversion\_info.go and the registration of types and
    webhooks: command line, server options, start sequence and exit codes.
  \<^item> \<open>Go_Memory\<close>, \<open>Deep_Copy\<close>, \<open>Deep_Copy_Spec\<close>, \<open>Deep_Copy_Objects\<close>: api/v1alpha1/zz\_generated.deepcopy.go.
    Memory with addresses, allocation and stores; the structs of the API with their pointers, slices and
    maps as addresses; every generated function; what a struct in memory reads as, in the types of
    \<open>Api_Types\<close>. The locale \<open>deep_copier\<close> is the contract of a copying function and \<open>deep_library\<close> that of
    the embedded Kubernetes types; every generated \<^verbatim>\<open>DeepCopyInto\<close> is an instance of the former. A copy reads
    the same and shares no memory with the original. Everywhere else API objects are immutable values.

  \<^bold>\<open>Assumptions.\<close> Theorems under \<open>api_server\<close> allow every client call to fail, also after its effect; those
  under \<open>available_server\<close> assume that a call fails only for a reason in the store. In both no other
  client writes while one reconcile runs; writes between reconciles are covered where a theorem
  quantifies over sequences of steps. Theorems under \<open>shared_server\<close> allow other clients to write at any
  time and reads to be stale, and assume that resource versions tell stored objects apart and that an update
  with another version than the stored one has no effect. Theorems under \<open>deep_library\<close> assume that the
  \<^verbatim>\<open>DeepCopyInto\<close> methods of the embedded Kubernetes types copy deeply; \<^verbatim>\<open>DeepCopyInto\<close> is modelled for a
  target that shares no memory with its source, as in every call of it.

  A server stores what a client sends but for server-managed metadata and defaulted fields: \<open>stored_as\<close> lists
  the fields that are kept, a quantity by its value. Theorems about a successful call say what the store
  holds then; a pipeline's first reconcile only adds the finalizer, and theorems about its application take
  a pipeline that has it or count that reconcile. \<open>registers\<close> is what is assumed of \<^verbatim>\<open>scheme.Builder\<close>: it adds
  at least the types it was given and takes none away.

  \<^bold>\<open>Bounds and termination.\<close> No fuel is used. Loops are structural recursion over lists; the flag parser's
  loop terminates because every step consumes an argument; the JSON scanner recurses on the bytes left.

  \<^bold>\<open>Not modelled.\<close> Logging, contexts and their cancellation, JSON encoding of the resources and the schema validation
  generated from their markers, Kubernetes manifests, Helm chart, samples and tests. The work queue of
  controller-runtime appears only as the requests an event produces and as arbitrary sequences of
  requests; that it serves every request in the end is the hypothesis of the liveness theorem.
\<close>

end
